theory Spec2Isabelle
  imports Complex_Main "HOL-Library.AList" "HOL-Library.Sublist"
begin

section \<open>Values, messages, usage, events\<close>

text \<open>
  JavaScript values that the agent loop only stores and forwards (tool inputs, tool
  outputs, fields of content parts).
\<close>

datatype jsval =
    JUndefined
  | JStr string
  | JNum int
  | JBool bool
  | JArr "jsval list"
  | JObj "(string \<times> jsval) list"

text \<open>
  A content part of a message is an object; its fields are kept in insertion order, as
  a JavaScript object keeps them. \<open>{...part, result: v}\<close> is \<open>AList.update ''result'' v part\<close>:
  an existing key keeps its place, a new key goes last.
\<close>

type_synonym part_obj = "(string \<times> jsval) list"

datatype role = User | Assistant | Tool | System

datatype content = CText string | CParts "part_obj list"

record message =
  role :: role
  content :: content

text \<open>\<open>TokenUsage\<close> (agent.ts): each count is a number or undefined.\<close>

record usage =
  inputTokens :: "int option"
  outputTokens :: "int option"
  totalTokens :: "int option"

text \<open>
  A JavaScript \<open>Error\<close> (name and message), and a thrown value: either an \<open>Error\<close> or any
  other value, of which the code only ever takes \<open>String(value)\<close>.
\<close>

datatype js_error = JsError (err_name: string) (err_message: string)

datatype thrown = ThrownError js_error | ThrownValue string

text \<open>\<open>error instanceof Error ? error : new Error(String(error))\<close>\<close>

fun toError :: "thrown \<Rightarrow> js_error" where
  "toError (ThrownError e) = e"
| "toError (ThrownValue s) = JsError ''Error'' s"

text \<open>\<open>String(error)\<close>: for an \<open>Error\<close> it is \<open>Error.prototype.toString\<close>.\<close>

fun String_of :: "thrown \<Rightarrow> string" where
  "String_of (ThrownError (JsError n m)) =
     (if n = [] then m else if m = [] then n else n @ '': '' @ m)"
| "String_of (ThrownValue s) = s"

datatype done_result = Complete | Stopped | Max_steps | Error_result

text \<open>\<open>AgentEvent\<close> (agent.ts), one constructor per value of \<open>type\<close>.\<close>

datatype agent_event =
    Text_delta string
  | Text_done string
  | Reasoning_delta string
  | Reasoning_done string
  | Tool_start string string jsval
  | Tool_done string string jsval
  | Tool_error string string string
  | Step_start nat
  | Step_done nat usage string
  | Error_event js_error
  | Done done_result "message list" usage

fun is_done :: "agent_event \<Rightarrow> bool" where
  "is_done (Done r ms u) = True"
| "is_done e = False"

section \<open>The provider's stream\<close>

text \<open>
  The parts of \<open>stream.fullStream\<close> that the loop of \<open>run\<close> switches on. \<open>OtherPart\<close> is any
  part type without a case in the switch (start, text-start, tool-input-delta, ...).
  The arguments are the fields the loop reads: call id, tool name and input / output /
  error of a tool part; usage and finish reason of finish-step; finish reason and total
  usage of finish.
\<close>

datatype stream_part =
    StartStep
  | TextDelta string
  | TextEnd
  | ReasoningDelta string
  | ReasoningEnd
  | ToolCall string string jsval
  | ToolResult string string jsval
  | ToolErrorPart string string thrown
  | FinishStep usage string
  | ErrorPart thrown
  | Finish string usage
  | OtherPart string

text \<open>
  What \<open>streamText\<close> returned, as the loop observes it: the parts the iterator delivers,
  then either the end of the iteration (\<open>fault = None\<close>) or a fault thrown by the
  iterator; and the outcome of \<open>await stream.response\<close> (a rejection or the response's
  messages).
\<close>

record stream =
  parts :: "stream_part list"
  fault :: "thrown option"
  response :: "thrown + message list"

text \<open>The local variables of the loop.\<close>

record loop_vars =
  stepNumber :: nat
  stepText :: string
  stepReasoning :: string

definition toTokenUsage :: "usage \<Rightarrow> usage" where
  "toTokenUsage u =
     \<lparr>inputTokens = inputTokens u, outputTokens = outputTokens u, totalTokens = totalTokens u\<rparr>"

definition undefined_usage :: usage where
  "undefined_usage = \<lparr>inputTokens = None, outputTokens = None, totalTokens = None\<rparr>"

text \<open>The nested conditional of the finish case.\<close>

definition finish_result :: "string \<Rightarrow> done_result" where
  "finish_result finishReason =
     (if finishReason = ''stop'' then Complete
      else if finishReason = ''tool-calls'' then Max_steps
      else if finishReason = ''error'' then Error_result
      else Stopped)"

text \<open>
  The outcome of a loop: the events yielded so far, the message list, and the fault that
  left the \<open>try\<close> block, if one did.
\<close>

type_synonym loop_outcome = "agent_event list \<times> message list \<times> thrown option"

definition emit :: "agent_event \<Rightarrow> loop_outcome \<Rightarrow> loop_outcome" where
  "emit e r = (case r of (es, ms, t) \<Rightarrow> (e # es, ms, t))"

section \<open>The step loop of the \<open>Agent\<close> class\<close>

text \<open>
  \<open>for await (const part of stream.fullStream) switch (part.type) ...\<close> of \<open>Agent.run\<close>.
  \<open>ms\<close> is \<open>this.messages\<close>. A \<open>break\<close> inside the switch leaves the switch only: the loop
  goes on with the next part, also after finish. The finish case awaits
  \<open>stream.response\<close>; a rejection leaves the \<open>try\<close> block before anything is pushed or
  yielded.
\<close>

fun Agent_loop ::
  "(thrown + message list) \<Rightarrow> thrown option \<Rightarrow> stream_part list \<Rightarrow> loop_vars \<Rightarrow>
   message list \<Rightarrow> loop_outcome" where
  "Agent_loop resp flt [] v ms = ([], ms, flt)"
| "Agent_loop resp flt (StartStep # ps) v ms =
     (let v' = v\<lparr>stepNumber := stepNumber v + 1, stepText := [], stepReasoning := []\<rparr>
      in emit (Step_start (stepNumber v')) (Agent_loop resp flt ps v' ms))"
| "Agent_loop resp flt (TextDelta t # ps) v ms =
     emit (Text_delta t) (Agent_loop resp flt ps (v\<lparr>stepText := stepText v @ t\<rparr>) ms)"
| "Agent_loop resp flt (TextEnd # ps) v ms =
     (if stepText v \<noteq> [] then emit (Text_done (stepText v)) (Agent_loop resp flt ps v ms)
      else Agent_loop resp flt ps v ms)"
| "Agent_loop resp flt (ReasoningDelta t # ps) v ms =
     emit (Reasoning_delta t)
       (Agent_loop resp flt ps (v\<lparr>stepReasoning := stepReasoning v @ t\<rparr>) ms)"
| "Agent_loop resp flt (ReasoningEnd # ps) v ms =
     (if stepReasoning v \<noteq> []
      then emit (Reasoning_done (stepReasoning v)) (Agent_loop resp flt ps v ms)
      else Agent_loop resp flt ps v ms)"
| "Agent_loop resp flt (ToolCall cid nm inp # ps) v ms =
     emit (Tool_start cid nm inp) (Agent_loop resp flt ps v ms)"
| "Agent_loop resp flt (ToolResult cid nm out # ps) v ms =
     emit (Tool_done cid nm out) (Agent_loop resp flt ps v ms)"
| "Agent_loop resp flt (ToolErrorPart cid nm err # ps) v ms =
     emit (Tool_error cid nm (String_of err)) (Agent_loop resp flt ps v ms)"
| "Agent_loop resp flt (FinishStep u reason # ps) v ms =
     emit (Step_done (stepNumber v) (toTokenUsage u) reason) (Agent_loop resp flt ps v ms)"
| "Agent_loop resp flt (ErrorPart err # ps) v ms =
     emit (Error_event (toError err)) (Agent_loop resp flt ps v ms)"
| "Agent_loop resp flt (Finish reason tu # ps) v ms =
     (case resp of
        Inl t \<Rightarrow> ([], ms, Some t)
      | Inr rms \<Rightarrow>
          (let ms' = ms @ rms
           in emit (Done (finish_result reason) ms' (toTokenUsage tu))
                (Agent_loop resp flt ps v ms')))"
| "Agent_loop resp flt (OtherPart ty # ps) v ms = Agent_loop resp flt ps v ms"

text \<open>
  The \<open>catch\<close> block: a fault that left the \<open>try\<close> block becomes an error event and a
  done event with result error, the current message list and undefined usage.
\<close>

definition catch_block :: "loop_outcome \<Rightarrow> agent_event list \<times> message list" where
  "catch_block r =
     (case r of
        (es, ms, None) \<Rightarrow> (es, ms)
      | (es, ms, Some t) \<Rightarrow>
          (es @ [Error_event (toError t), Done Error_result ms undefined_usage], ms))"

definition init_vars :: loop_vars where
  "init_vars = \<lparr>stepNumber = 0, stepText = [], stepReasoning = []\<rparr>"

section \<open>The function \<open>run\<close> of agent.ts\<close>

text \<open>
  The same loop over a constant \<open>messages\<close>: the finish case yields
  \<open>[...messages, ...response.messages]\<close> and changes nothing.
\<close>

fun run_loop ::
  "(thrown + message list) \<Rightarrow> thrown option \<Rightarrow> stream_part list \<Rightarrow> loop_vars \<Rightarrow>
   message list \<Rightarrow> loop_outcome" where
  "run_loop resp flt [] v ms = ([], ms, flt)"
| "run_loop resp flt (StartStep # ps) v ms =
     (let v' = v\<lparr>stepNumber := stepNumber v + 1, stepText := [], stepReasoning := []\<rparr>
      in emit (Step_start (stepNumber v')) (run_loop resp flt ps v' ms))"
| "run_loop resp flt (TextDelta t # ps) v ms =
     emit (Text_delta t) (run_loop resp flt ps (v\<lparr>stepText := stepText v @ t\<rparr>) ms)"
| "run_loop resp flt (TextEnd # ps) v ms =
     (if stepText v \<noteq> [] then emit (Text_done (stepText v)) (run_loop resp flt ps v ms)
      else run_loop resp flt ps v ms)"
| "run_loop resp flt (ReasoningDelta t # ps) v ms =
     emit (Reasoning_delta t)
       (run_loop resp flt ps (v\<lparr>stepReasoning := stepReasoning v @ t\<rparr>) ms)"
| "run_loop resp flt (ReasoningEnd # ps) v ms =
     (if stepReasoning v \<noteq> []
      then emit (Reasoning_done (stepReasoning v)) (run_loop resp flt ps v ms)
      else run_loop resp flt ps v ms)"
| "run_loop resp flt (ToolCall cid nm inp # ps) v ms =
     emit (Tool_start cid nm inp) (run_loop resp flt ps v ms)"
| "run_loop resp flt (ToolResult cid nm out # ps) v ms =
     emit (Tool_done cid nm out) (run_loop resp flt ps v ms)"
| "run_loop resp flt (ToolErrorPart cid nm err # ps) v ms =
     emit (Tool_error cid nm (String_of err)) (run_loop resp flt ps v ms)"
| "run_loop resp flt (FinishStep u reason # ps) v ms =
     emit (Step_done (stepNumber v) (toTokenUsage u) reason) (run_loop resp flt ps v ms)"
| "run_loop resp flt (ErrorPart err # ps) v ms =
     emit (Error_event (toError err)) (run_loop resp flt ps v ms)"
| "run_loop resp flt (Finish reason tu # ps) v ms =
     (case resp of
        Inl t \<Rightarrow> ([], ms, Some t)
      | Inr rms \<Rightarrow>
          emit (Done (finish_result reason) (ms @ rms) (toTokenUsage tu))
            (run_loop resp flt ps v ms))"
| "run_loop resp flt (OtherPart ty # ps) v ms = run_loop resp flt ps v ms"

text \<open>
  \<open>run({agent, messages, signal})\<close>: the events of one call, for the stream that
  \<open>streamText\<close> returned for \<open>messages\<close>.
\<close>

definition run :: "message list \<Rightarrow> stream \<Rightarrow> agent_event list" where
  "run msgs str =
     fst (catch_block (run_loop (response str) (fault str) (parts str) init_vars msgs))"

section \<open>Agents, tools, approval\<close>

record tool_call_info =
  toolName :: string
  toolCallId :: string
  input :: jsval

text \<open>
  \<open>ApproveFn\<close>: the callback returns (or resolves to) a boolean, or throws.
  \<open>SubagentEventFn\<close>: the callback returns nothing; \<open>Some t\<close> is a callback that threw \<open>t\<close>.
\<close>

type_synonym approve_fn = "tool_call_info \<Rightarrow> thrown + bool"

type_synonym subagent_event_fn = "string \<Rightarrow> agent_event \<Rightarrow> thrown option"

text \<open>
  A tool's \<open>execute\<close> function is one of three closures: a tool's own function of the
  input and \<open>options.toolCallId\<close> (the tools themselves are outside this development);
  the closure built by \<open>createTaskTool\<close> over \<open>subagents\<close> and \<open>onSubagentEvent\<close>; the
  closure built by \<open>wrapToolsWithApproval\<close> over \<open>approve\<close>, the tool's name and
  \<open>originalExecute\<close>. An agent is the read-only fields of the \<open>Agent\<close> class; \<open>tools\<close> is
  \<open>None\<close> for undefined and otherwise the entries of the tool set in key order.
\<close>

datatype executor =
    Extern "jsval \<Rightarrow> string \<Rightarrow> thrown + jsval"
  | Task "agent list" "subagent_event_fn option"
  | Gated approve_fn string executor
and tool =
    ToolDef (tool_description: string) (inputSchema: "string list option")
      (execute: "executor option")
and agent =
    Agent (name: string) (description: "string option") (model: string)
      (systemPrompt: "string option") (tools: "(string \<times> tool) list option")
      (maxSteps: nat) (temperature: "real option") (maxTokens: "int option")
      (instructions: bool) (approve: "approve_fn option")
      (onSubagentEvent: "subagent_event_fn option")

text \<open>The argument of the constructor.\<close>

record agent_options =
  o_name :: string
  o_description :: "string option"
  o_model :: string
  o_systemPrompt :: "string option"
  o_tools :: "(string \<times> tool) list option"
  o_maxSteps :: "nat option"
  o_temperature :: "real option"
  o_maxTokens :: "int option"
  o_instructions :: "bool option"
  o_approve :: "approve_fn option"
  o_subagents :: "agent list option"
  o_onSubagentEvent :: "subagent_event_fn option"

definition newline :: string where
  "newline = [CHR 0x0A]"

definition dquote :: string where
  "dquote = [CHR 0x22]"

text \<open>\<open>Array.prototype.join\<close> on strings.\<close>

fun join :: "string \<Rightarrow> string list \<Rightarrow> string" where
  "join sep [] = []"
| "join sep [x] = x"
| "join sep (x # y # ys) = x @ sep @ join sep (y # ys)"

text \<open>
  \<open>createTaskTool\<close>: the description lists the subagents, the input schema is the enum
  of their names (with a prompt string), and \<open>execute\<close> is the closure over both
  arguments.
\<close>

definition createTaskTool :: "agent list \<Rightarrow> subagent_event_fn option \<Rightarrow> tool" where
  "createTaskTool subagents onEv =
     (let names = map name subagents;
          listing = join newline
            (map (\<lambda>a. ''- '' @ name a @ '': '' @
                    (case description a of None \<Rightarrow> name a | Some d \<Rightarrow> d)) subagents)
      in ToolDef
           (join newline
              [''Spawn a subagent to handle a task autonomously.'',
               ''The subagent runs with its own tools, completes the work, and returns the result.'',
               ''Launch multiple agents concurrently when possible by calling this tool multiple times in one response.'',
               [],
               ''Available agents:'',
               listing])
           (Some names)
           (Some (Task subagents onEv)))"

text \<open>
  The constructor. With a non-empty \<open>subagents\<close> the tool set is
  \<open>{...(options.tools ?? {}), task: createTaskTool(...)}\<close>.
\<close>

definition new_Agent :: "agent_options \<Rightarrow> agent" where
  "new_Agent opts =
     Agent (o_name opts) (o_description opts) (o_model opts) (o_systemPrompt opts)
       (case o_subagents opts of
          None \<Rightarrow> o_tools opts
        | Some subs \<Rightarrow>
            if subs \<noteq> []
            then Some (AList.update ''task'' (createTaskTool subs (o_onSubagentEvent opts))
                   (case o_tools opts of None \<Rightarrow> [] | Some ts \<Rightarrow> ts))
            else o_tools opts)
       (case o_maxSteps opts of None \<Rightarrow> 100 | Some n \<Rightarrow> n)
       (o_temperature opts) (o_maxTokens opts)
       (case o_instructions opts of None \<Rightarrow> True | Some b \<Rightarrow> b)
       (o_approve opts) (o_onSubagentEvent opts)"

text \<open>\<open>ToolDeniedError\<close>: the message names the tool, the name is ToolDeniedError.\<close>

definition ToolDeniedError :: "string \<Rightarrow> js_error" where
  "ToolDeniedError nm =
     JsError ''ToolDeniedError'' (''Tool call to '' @ dquote @ nm @ dquote @ '' was denied.'')"

text \<open>
  \<open>wrapToolsWithApproval\<close>: a tool without \<open>execute\<close> is kept; any other tool gets the
  gating closure in place of its \<open>execute\<close>.
\<close>

definition wrapToolsWithApproval ::
  "(string \<times> tool) list \<Rightarrow> approve_fn \<Rightarrow> (string \<times> tool) list" where
  "wrapToolsWithApproval ts ap =
     map (\<lambda>(nm, t).
            case execute t of
              None \<Rightarrow> (nm, t)
            | Some originalExecute \<Rightarrow>
                (nm, ToolDef (tool_description t) (inputSchema t)
                       (Some (Gated ap nm originalExecute)))) ts"

section \<open>\<open>Agent.run\<close>\<close>

text \<open>
  The mutable fields of an \<open>Agent\<close> instance. \<open>cachedInstructions\<close> is \<open>None\<close> for null (not
  loaded yet), \<open>Some None\<close> for undefined and \<open>Some (Some s)\<close> for a string.
\<close>

record agent_state =
  messages :: "message list"
  cachedInstructions :: "string option option"

definition fresh_state :: agent_state where
  "fresh_state = \<lparr>messages = [], cachedInstructions = None\<rparr>"

datatype run_input = InputText string | InputMessages "message list"

definition input_messages :: "run_input \<Rightarrow> message list" where
  "input_messages inp =
     (case inp of
        InputText s \<Rightarrow> [\<lparr>role = User, content = CText s\<rparr>]
      | InputMessages ms \<Rightarrow> ms)"

text \<open>The argument of \<open>streamText\<close> (the abort signal apart).\<close>

record stream_call =
  call_model :: string
  call_system :: "string option"
  call_messages :: "message list"
  call_tools :: "(string \<times> tool) list option"
  call_stopWhen :: nat
  call_temperature :: "real option"
  call_maxOutputTokens :: "int option"

text \<open>
  What one call of \<open>run\<close> gets from outside: the outcome of \<open>await loadInstructions()\<close>
  and the stream that \<open>streamText\<close> returns for its argument.
\<close>

record run_env =
  loadInstructions :: "thrown + string option"
  streamText :: "stream_call \<Rightarrow> stream"

text \<open>
  \<open>[this.systemPrompt, this.cachedInstructions].filter(Boolean)\<close>, joined by a blank line;
  undefined when nothing is left. The empty string is falsy.
\<close>

definition truthy :: "string option \<Rightarrow> string list" where
  "truthy s = (case s of None \<Rightarrow> [] | Some t \<Rightarrow> if t = [] then [] else [t])"

definition system_of :: "string option \<Rightarrow> string option option \<Rightarrow> string option" where
  "system_of sp cached =
     (let systemParts = truthy sp @ (case cached of None \<Rightarrow> [] | Some c \<Rightarrow> truthy c)
      in if systemParts \<noteq> [] then Some (join (newline @ newline) systemParts) else None)"

text \<open>
  The result of driving one call of \<open>Agent.run\<close> to its end: the events it yielded, the
  instance afterwards, and the fault it threw to its caller, if any.
\<close>

record run_outcome =
  events :: "agent_event list"
  final :: agent_state
  thrown :: "thrown option"

text \<open>\<open>if (this.instructions && this.cachedInstructions === null) ...\<close>: loaded once.\<close>

definition load_step :: "agent \<Rightarrow> agent_state \<Rightarrow> run_env \<Rightarrow> thrown + agent_state" where
  "load_step a st env =
     (if instructions a \<and> cachedInstructions st = None
      then (case loadInstructions env of
              Inl t \<Rightarrow> Inl t
            | Inr c \<Rightarrow> Inr (st\<lparr>cachedInstructions := Some c\<rparr>))
      else Inr st)"

text \<open>
  The argument that \<open>run\<close> passes to \<open>streamText\<close>: the tools are wrapped when both
  \<open>this.approve\<close> and \<open>this.tools\<close> are there.
\<close>

definition call_of :: "agent \<Rightarrow> agent_state \<Rightarrow> stream_call" where
  "call_of a st =
     \<lparr>call_model = model a,
      call_system = system_of (systemPrompt a) (cachedInstructions st),
      call_messages = messages st,
      call_tools =
        (case approve a of
           None \<Rightarrow> tools a
         | Some ap \<Rightarrow>
             (case tools a of
                None \<Rightarrow> tools a
              | Some ts \<Rightarrow> Some (wrapToolsWithApproval ts ap))),
      call_stopWhen = maxSteps a, call_temperature = temperature a,
      call_maxOutputTokens = maxTokens a\<rparr>"

definition Agent_run :: "agent \<Rightarrow> agent_state \<Rightarrow> run_input \<Rightarrow> run_env \<Rightarrow> run_outcome" where
  "Agent_run a st inp env =
     (let st1 = st\<lparr>messages := messages st @ input_messages inp\<rparr>
      in case load_step a st1 env of
           Inl t \<Rightarrow> \<lparr>events = [], final = st1, thrown = Some t\<rparr>
         | Inr st2 \<Rightarrow>
             (let str = streamText env (call_of a st2);
                  r = catch_block
                    (Agent_loop (response str) (fault str) (parts str) init_vars (messages st2))
              in \<lparr>events = fst r, final = st2\<lparr>messages := snd r\<rparr>, thrown = None\<rparr>))"

section \<open>The task tool\<close>

text \<open>
  The loop of the task tool's \<open>execute\<close> over the child's events: each event goes to the
  observer, and the text of a text.done event becomes \<open>lastText\<close>.
\<close>

fun task_events ::
  "subagent_event_fn option \<Rightarrow> string \<Rightarrow> agent_event list \<Rightarrow> string \<Rightarrow> thrown + string" where
  "task_events onEv agentName [] lastText = Inr lastText"
| "task_events onEv agentName (e # es) lastText =
     (case (case onEv of None \<Rightarrow> None | Some f \<Rightarrow> f agentName e) of
        Some t \<Rightarrow> Inl t
      | None \<Rightarrow>
          task_events onEv agentName es (case e of Text_done t \<Rightarrow> t | _ \<Rightarrow> lastText))"

text \<open>\<open>new Map(subagents.map((a) => [a.name, a]))\<close>: the last agent of a name wins.\<close>

definition byName :: "agent list \<Rightarrow> string \<Rightarrow> agent option" where
  "byName subagents = map_of (rev (map (\<lambda>a. (name a, a)) subagents))"

text \<open>The child that \<open>execute\<close> constructs from the template.\<close>

definition child_of :: "agent \<Rightarrow> agent" where
  "child_of template =
     new_Agent
       \<lparr>o_name = name template, o_description = None, o_model = model template,
        o_systemPrompt = systemPrompt template, o_tools = tools template,
        o_maxSteps = Some (maxSteps template), o_temperature = temperature template,
        o_maxTokens = maxTokens template, o_instructions = Some (instructions template),
        o_approve = None, o_subagents = None, o_onSubagentEvent = None\<rparr>"

definition task_result :: "string \<Rightarrow> string" where
  "task_result lastText =
     ''<task_result>'' @ newline @ (if lastText = [] then ''(no output)'' else lastText) @
     newline @ ''</task_result>''"

text \<open>
  \<open>execute({agent, prompt}, {abortSignal})\<close> of the task tool. \<open>env\<close> is what the child's
  \<open>run\<close> gets from outside. A name that is not in the map gives an undefined template,
  and reading \<open>template.name\<close> throws a TypeError.
\<close>

definition task_execute ::
  "agent list \<Rightarrow> subagent_event_fn option \<Rightarrow> string \<Rightarrow> string \<Rightarrow> run_env \<Rightarrow> thrown + string" where
  "task_execute subagents onEv agentName prompt env =
     (case byName subagents agentName of
        None \<Rightarrow>
          Inl (ThrownError (JsError ''TypeError''
                 ''Cannot read properties of undefined (reading 'name')''))
      | Some template \<Rightarrow>
          (let child = child_of template;
               out = Agent_run child fresh_state (InputText prompt) env
           in case task_events onEv agentName (events out) [] of
                Inl t \<Rightarrow> Inl t
              | Inr lastText \<Rightarrow>
                  (case thrown out of
                     Some t \<Rightarrow> Inl t
                   | None \<Rightarrow> Inr (task_result lastText))))"

text \<open>
  Calling an \<open>execute\<close> closure with an input and \<open>options.toolCallId\<close>. The gating
  closure asks \<open>approve\<close> first and throws \<open>ToolDeniedError\<close> on false, without calling
  \<open>originalExecute\<close>. The task closure reads \<open>agent\<close> and \<open>prompt\<close> from its input, both
  strings: the provider calls \<open>execute\<close> only with an input that passed the input
  schema. Any other input is given a TypeError here.
\<close>

fun run_executor :: "run_env \<Rightarrow> executor \<Rightarrow> jsval \<Rightarrow> string \<Rightarrow> thrown + jsval" where
  "run_executor env (Extern f) inp cid = f inp cid"
| "run_executor env (Gated ap nm originalExecute) inp cid =
     (case ap \<lparr>toolName = nm, toolCallId = cid, input = inp\<rparr> of
        Inl t \<Rightarrow> Inl t
      | Inr allowed \<Rightarrow>
          if \<not> allowed then Inl (ThrownError (ToolDeniedError nm))
          else run_executor env originalExecute inp cid)"
| "run_executor env (Task subagents onEv) inp cid =
     (case inp of
        JObj kvs \<Rightarrow>
          (case (map_of kvs ''agent'', map_of kvs ''prompt'') of
             (Some (JStr agentName), Some (JStr prompt)) \<Rightarrow>
               map_sum id JStr (task_execute subagents onEv agentName prompt env)
           | _ \<Rightarrow> Inl (ThrownError (JsError ''TypeError'' ''invalid task input'')))
      | _ \<Rightarrow> Inl (ThrownError (JsError ''TypeError'' ''invalid task input'')))"

text \<open>An agent can delegate when its tool set holds a task closure (gated or not).\<close>

fun is_task :: "executor \<Rightarrow> bool" where
  "is_task (Task subagents onEv) = True"
| "is_task (Gated ap nm ex) = is_task ex"
| "is_task (Extern f) = False"

definition can_delegate :: "agent \<Rightarrow> bool" where
  "can_delegate a =
     (case tools a of
        None \<Rightarrow> False
      | Some ts \<Rightarrow>
          list_ex (\<lambda>(nm, t). case execute t of None \<Rightarrow> False | Some ex \<Rightarrow> is_task ex) ts)"

section \<open>Observations on streams and event sequences\<close>

fun is_finish :: "stream_part \<Rightarrow> bool" where
  "is_finish (Finish r u) = True"
| "is_finish p = False"

definition has_finish :: "stream_part list \<Rightarrow> bool" where
  "has_finish ps = list_ex is_finish ps"

text \<open>Exactly one done event, and it is the last event.\<close>

definition one_done_last :: "agent_event list \<Rightarrow> bool" where
  "one_done_last es = (es \<noteq> [] \<and> is_done (last es) \<and> length (filter is_done es) = 1)"

text \<open>
  A stream that ends once: its only finish part is its last part, the response resolves
  and the iterator ends without a fault; or awaiting the response at a finish part
  rejects; or there is no finish part and the iterator throws.
\<close>

definition ends_once :: "stream \<Rightarrow> bool" where
  "ends_once str =
     (if has_finish (parts str)
      then (case response str of
              Inl t \<Rightarrow> True
            | Inr rms \<Rightarrow>
                fault str = None \<and> is_finish (last (parts str)) \<and>
                \<not> has_finish (butlast (parts str)))
      else fault str \<noteq> None)"

text \<open>
  The stream that a call of \<open>Agent.run\<close> iterates, when loading the instructions did not
  throw.
\<close>

definition run_stream :: "agent \<Rightarrow> agent_state \<Rightarrow> run_input \<Rightarrow> run_env \<Rightarrow> stream option" where
  "run_stream a st inp env =
     (case load_step a (st\<lparr>messages := messages st @ input_messages inp\<rparr>) env of
        Inl t \<Rightarrow> None
      | Inr st2 \<Rightarrow> Some (streamText env (call_of a st2)))"

text \<open>A provider that returns the same stream whatever it is called with.\<close>

definition stream_for :: "stream \<Rightarrow> stream_call \<Rightarrow> stream" where
  "stream_for str c = str"

text \<open>The message lists of the done events of an event sequence, in order.\<close>

fun done_messages :: "agent_event list \<Rightarrow> message list list" where
  "done_messages [] = []"
| "done_messages (Done r ms u # es) = ms # done_messages es"
| "done_messages (e # es) = done_messages es"

text \<open>Consecutive calls of \<open>run\<close> on one instance: each call starts from the instance as
  the call before left it.\<close>

fun Agent_runs :: "agent \<Rightarrow> agent_state \<Rightarrow> (run_input \<times> run_env) list \<Rightarrow> run_outcome list" where
  "Agent_runs a st [] = []"
| "Agent_runs a st ((inp, env) # cs) =
     (let out = Agent_run a st inp env in out # Agent_runs a (final out) cs)"

text \<open>Concrete values for the instances below.\<close>

definition example_agent :: agent where
  "example_agent = Agent ''cli-agent'' None ''gpt'' None None 20 None None False None None"

definition example_stream :: stream where
  "example_stream =
     \<lparr>parts = [StartStep, TextDelta ''hi'', TextEnd, FinishStep undefined_usage ''stop'',
               Finish ''stop'' undefined_usage],
      fault = None,
      response = Inr [\<lparr>role = Assistant, content = CText ''hi''\<rparr>]\<rparr>"

definition example_env :: "stream \<Rightarrow> run_env" where
  "example_env str = \<lparr>loadInstructions = Inr None, streamText = stream_for str\<rparr>"


text \<open>
  A failed model call, delivered in two ways: as an error part after which the stream
  ends, and as a fault that the iterator throws.
\<close>

definition error_part_stream :: stream where
  "error_part_stream =
     \<lparr>parts = [StartStep, ErrorPart (ThrownValue ''overloaded'')], fault = None,
      response = Inr []\<rparr>"

definition thrown_error_stream :: stream where
  "thrown_error_stream =
     \<lparr>parts = [StartStep], fault = Some (ThrownValue ''overloaded''), response = Inr []\<rparr>"

text \<open>
  Two calls on one instance, the second with a list of messages as its input, and the
  histories they leave.
\<close>

definition two_calls :: "(run_input \<times> run_env) list" where
  "two_calls =
     [(InputText ''q1'', example_env example_stream),
      (InputMessages [\<lparr>role = User, content = CText ''q2''\<rparr>,
                      \<lparr>role = User, content = CText ''and more''\<rparr>],
       example_env example_stream)]"

definition first_history :: "message list" where
  "first_history =
     [\<lparr>role = User, content = CText ''q1''\<rparr>, \<lparr>role = Assistant, content = CText ''hi''\<rparr>]"

definition second_history :: "message list" where
  "second_history =
     first_history @
     [\<lparr>role = User, content = CText ''q2''\<rparr>, \<lparr>role = User, content = CText ''and more''\<rparr>,
      \<lparr>role = Assistant, content = CText ''hi''\<rparr>]"

section \<open>Instances for the task tool\<close>

text \<open>
  Options with nothing but a name, and three agents built by the constructor: an agent
  without subagents, a template that has it as its subagent, and a parent that has the
  template as its subagent.
\<close>

definition plain_options :: "string \<Rightarrow> agent_options" where
  "plain_options nm =
     \<lparr>o_name = nm, o_description = None, o_model = ''gpt'', o_systemPrompt = None,
      o_tools = None, o_maxSteps = None, o_temperature = None, o_maxTokens = None,
      o_instructions = Some False, o_approve = None, o_subagents = None,
      o_onSubagentEvent = None\<rparr>"

definition inner_agent :: agent where
  "inner_agent = new_Agent (plain_options ''inner'')"

definition nested_template :: agent where
  "nested_template = new_Agent ((plain_options ''explore'')\<lparr>o_subagents := Some [inner_agent]\<rparr>)"

definition parent_agent :: agent where
  "parent_agent = new_Agent ((plain_options ''dev'')\<lparr>o_subagents := Some [nested_template]\<rparr>)"

section \<open>The provider's handling of a tool call\<close>

text \<open>
  Modelled from the spec: the tool message with which the provider (\<open>streamText\<close> of the
  AI SDK, a dependency whose code is not among the sources) hands the outcome of a tool
  call back to the model. Spec 4.1 and 7: the outcome, also a denial, is forwarded back
  to the model as a tool result.
\<close>

definition tool_result_message :: "string \<Rightarrow> string \<Rightarrow> jsval \<Rightarrow> message" where
  "tool_result_message cid nm out =
     \<lparr>role = Tool,
      content = CParts [[(''type'', JStr ''tool-result''), (''toolCallId'', JStr cid),
                         (''toolName'', JStr nm), (''output'', out)]]\<rparr>"

text \<open>
  Modelled from the spec: how the provider (\<open>streamText\<close> of the AI SDK, a dependency
  whose code is not among the sources) runs one tool call that the model requested.
  Spec 4.1: for each tool invocation requested by the model there is a start event; a
  denial must surface as a tool-error event carrying a distinguishable denied error,
  which the provider forwards back to the model as a tool result so it can adapt, not
  as a fatal fault; a done or error event per tool call when execution finishes. Spec
  7: tool execution faults are always fed back to the model as a tool result rather
  than aborting the turn. So the provider delivers the tool-call part, calls the tool's
  \<open>execute\<close>, and delivers a tool-result part with the output or a tool-error part with
  the thrown value; the second component is the tool message it hands back to the
  model.
\<close>

definition provider_tool_call ::
  "run_env \<Rightarrow> (string \<times> tool) list \<Rightarrow> string \<Rightarrow> string \<Rightarrow> jsval \<Rightarrow>
   stream_part list \<times> message option" where
  "provider_tool_call env tls cid nm inp =
     (case map_of tls nm of
        None \<Rightarrow> ([ToolCall cid nm inp], None)
      | Some t \<Rightarrow>
          (case execute t of
             None \<Rightarrow> ([ToolCall cid nm inp], None)
           | Some ex \<Rightarrow>
               (case run_executor env ex inp cid of
                  Inr out \<Rightarrow>
                    ([ToolCall cid nm inp, ToolResult cid nm out],
                     Some (tool_result_message cid nm out))
                | Inl err \<Rightarrow>
                    ([ToolCall cid nm inp, ToolErrorPart cid nm err],
                     Some (tool_result_message cid nm (JStr (String_of err)))))))"

text \<open>\<open>String(error)\<close> of a \<open>ToolDeniedError\<close>.\<close>

definition denial_text :: "string \<Rightarrow> string" where
  "denial_text nm =
     ''ToolDeniedError: Tool call to '' @ dquote @ nm @ dquote @ '' was denied.''"

text \<open>An agent whose approval callback denies every call, and a stream with one denied call.\<close>

definition deny_all :: approve_fn where
  "deny_all info = Inr False"

definition ok_tool :: "jsval \<Rightarrow> string \<Rightarrow> thrown + jsval" where
  "ok_tool inp cid = Inr (JStr ''written'')"

definition write_tool :: tool where
  "write_tool = ToolDef ''Write a file'' None (Some (Extern ok_tool))"

definition guarded_tools :: "(string \<times> tool) list" where
  "guarded_tools = [(''writeFile'', write_tool)]"

definition guarded_agent :: agent where
  "guarded_agent =
     Agent ''safe-agent'' None ''gpt'' None (Some guarded_tools) 20 None None False
       (Some deny_all) None"

definition denied_stream :: stream where
  "denied_stream =
     \<lparr>parts = [StartStep, ToolCall ''c1'' ''writeFile'' (JStr ''x''),
               ToolErrorPart ''c1'' ''writeFile'' (ThrownError (ToolDeniedError ''writeFile'')),
               FinishStep undefined_usage ''stop'', Finish ''stop'' undefined_usage],
      fault = None, response = Inr []\<rparr>"

section \<open>Pruning of tool results\<close>

text \<open>
  A token estimator: \<open>(messages: ModelMessage[]) => number\<close>. Token counts are whole
  numbers here.
\<close>

type_synonym estimator = "message list \<Rightarrow> int"

record prune_result =
  pr_messages :: "message list"
  pr_tokensSaved :: int
  pr_messagesModified :: nat

definition estimateMessageTokens :: "message \<Rightarrow> estimator \<Rightarrow> int" where
  "estimateMessageTokens msg est = est [msg]"

text \<open>
  The backward walk that finds the protection boundary. The third argument is \<open>i + 1\<close>
  for the index \<open>i\<close> to visit next, so \<open>0\<close> is the end of the loop, where \<open>boundary\<close> still
  has its initial value \<open>result.length\<close>.
\<close>

fun find_boundary :: "estimator \<Rightarrow> int \<Rightarrow> message list \<Rightarrow> nat \<Rightarrow> int \<Rightarrow> nat" where
  "find_boundary est protectedTokens result 0 accumulated = length result"
| "find_boundary est protectedTokens result (Suc i) accumulated =
     (let accumulated' = accumulated + estimateMessageTokens (result ! i) est
      in if accumulated' \<ge> protectedTokens then i
         else find_boundary est protectedTokens result i accumulated')"

text \<open>
  \<open>part.type === "tool-result" ? { ...part, result: "[pruned]" } : part\<close>
\<close>

definition prune_part :: "part_obj \<Rightarrow> part_obj" where
  "prune_part part =
     (if map_of part ''type'' = Some (JStr ''tool-result'')
      then AList.update ''result'' (JStr ''[pruned]'') part
      else part)"

text \<open>
  The second loop: \<open>for (let i = 0; i < boundary; i++)\<close>, over the clone \<open>result\<close>, with
  the counters \<open>tokensSaved\<close> and \<open>modified\<close>. A tool message whose content is not an array
  is counted as modified and left as it is.
\<close>

function prune_loop ::
  "estimator \<Rightarrow> nat \<Rightarrow> nat \<Rightarrow> message list \<Rightarrow> int \<Rightarrow> nat \<Rightarrow> message list \<times> int \<times> nat" where
  "prune_loop est boundary i result tokensSaved modified =
     (if i < boundary then
        (if role (result ! i) = Tool then
           (let before = estimateMessageTokens (result ! i) est;
                result' = (case content (result ! i) of
                             CParts ps \<Rightarrow>
                               result[i := (result ! i)\<lparr>content := CParts (map prune_part ps)\<rparr>]
                           | CText t \<Rightarrow> result);
                after = estimateMessageTokens (result' ! i) est
            in prune_loop est boundary (i + 1) result' (tokensSaved + (before - after))
                 (modified + 1))
         else prune_loop est boundary (i + 1) result tokensSaved modified)
      else (result, tokensSaved, modified))"
  by pat_completeness auto
termination
  by (relation "measure (\<lambda>(est, boundary, i, result, tokensSaved, modified). boundary - i)") auto

declare prune_loop.simps [simp del]

text \<open>
  \<open>pruneToolResults\<close>. \<open>structuredClone\<close> gives an equal value; below the minimum the
  function returns its argument and zeros.
\<close>

definition pruneToolResults ::
  "message list \<Rightarrow> int \<Rightarrow> int \<Rightarrow> estimator \<Rightarrow> prune_result" where
  "pruneToolResults msgs protectedTokens minSavings est =
     (let result = msgs;
          boundary = find_boundary est protectedTokens result (length result) 0;
          r = prune_loop est boundary 0 result 0 0
      in if fst (snd r) < minSavings
         then \<lparr>pr_messages = msgs, pr_tokensSaved = 0, pr_messagesModified = 0\<rparr>
         else \<lparr>pr_messages = fst r, pr_tokensSaved = fst (snd r),
               pr_messagesModified = snd (snd r)\<rparr>)"

section \<open>The default compaction strategy\<close>

record compaction_context =
  ctx_messages :: "message list"
  ctx_model :: string
  ctx_systemPrompt :: "string option"
  ctx_totalTokens :: int
  ctx_targetTokens :: real
  ctx_compactionPrompt :: "string option"

record compaction_result =
  res_messages :: "message list"
  res_summary :: "string option"
  res_messagesRemoved :: int
  res_tokensPruned :: int

text \<open>The fields of a \<open>DefaultCompactionStrategy\<close>, after the constructor's defaults.\<close>

record strategy =
  protectedTokens :: int
  minPruneSavings :: int
  summaryModel :: "string option"
  summaryPrompt :: "string option"
  estimateTokens :: estimator

text \<open>The argument of \<open>generateText\<close> (the abort signal apart).\<close>

record generate_call =
  gen_model :: string
  gen_system :: string
  gen_messages :: "message list"

text \<open>
  What the strategy gets from outside: \<open>JSON.stringify\<close> on a message's content and on a
  message list, and the outcome of \<open>await generateText(...)\<close>: a rejection or the text.
\<close>

record compact_env =
  stringify_content :: "content \<Rightarrow> string"
  stringify_messages :: "message list \<Rightarrow> string"
  generateText :: "generate_call \<Rightarrow> thrown + string"

definition DEFAULT_SUMMARY_PROMPT :: string where
  "DEFAULT_SUMMARY_PROMPT =
     join newline
       [''Summarize this conversation for the next agent turn:'',
        ''1. Goal: What the user is trying to accomplish'',
        ''2. Instructions: Key directives and constraints mentioned'',
        ''3. Discoveries: Important findings during the conversation'',
        ''4. Accomplished: What's been completed, files changed, actions taken'',
        ''5. Current State: Where things stand, pending work'',
        ''6. Relevant Context: File paths, code snippets, specific details needed to continue'']"

text \<open>\<open>Math.ceil(JSON.stringify(messages).length / 4)\<close>\<close>

definition defaultEstimateTokens :: "compact_env \<Rightarrow> estimator" where
  "defaultEstimateTokens env msgs = (int (length (stringify_messages env msgs)) + 3) div 4"

text \<open>The constructor: 40000 protected tokens, 20000 minimum savings, the default estimator.\<close>

definition new_strategy ::
  "compact_env \<Rightarrow> int option \<Rightarrow> int option \<Rightarrow> string option \<Rightarrow> string option \<Rightarrow>
   estimator option \<Rightarrow> strategy" where
  "new_strategy env pt mps sm sp et =
     \<lparr>protectedTokens = (case pt of None \<Rightarrow> 40000 | Some n \<Rightarrow> n),
      minPruneSavings = (case mps of None \<Rightarrow> 20000 | Some n \<Rightarrow> n),
      summaryModel = sm, summaryPrompt = sp,
      estimateTokens = (case et of None \<Rightarrow> defaultEstimateTokens env | Some f \<Rightarrow> f)\<rparr>"

definition role_string :: "role \<Rightarrow> string" where
  "role_string r =
     (case r of User \<Rightarrow> ''user'' | Assistant \<Rightarrow> ''assistant'' | Tool \<Rightarrow> ''tool''
      | System \<Rightarrow> ''system'')"

definition summary_message :: "string \<Rightarrow> message" where
  "summary_message summary =
     \<lparr>role = User,
      content = CText (''[Previous conversation summary]'' @ newline @ newline @ summary @
                       newline @ newline @ ''[The conversation continues from here]'')\<rparr>"

text \<open>Phase 2 of \<open>compact\<close>: the argument of \<open>generateText\<close>, then the summarization.\<close>

definition summary_call :: "strategy \<Rightarrow> compact_env \<Rightarrow> compaction_context \<Rightarrow> generate_call" where
  "summary_call strat env ctx =
     (let mdl = (case summaryModel strat of None \<Rightarrow> ctx_model ctx | Some m \<Rightarrow> m);
          prompt = (case ctx_compactionPrompt ctx of
                      Some p \<Rightarrow> p
                    | None \<Rightarrow>
                        (case summaryPrompt strat of
                           Some p \<Rightarrow> p
                         | None \<Rightarrow> DEFAULT_SUMMARY_PROMPT));
          conversationText = join newline
            (map (\<lambda>m. role_string (role m) @ '': '' @ stringify_content env (content m))
               (ctx_messages ctx))
      in \<lparr>gen_model = mdl, gen_system = prompt,
          gen_messages = [\<lparr>role = User, content = CText conversationText\<rparr>]\<rparr>)"

definition summarize :: "strategy \<Rightarrow> compact_env \<Rightarrow> compaction_context \<Rightarrow> thrown + compaction_result" where
  "summarize strat env ctx =
     (case generateText env (summary_call strat env ctx) of
        Inl t \<Rightarrow> Inl t
      | Inr summary \<Rightarrow>
          (let summaryMessages = [summary_message summary]
           in Inr \<lparr>res_messages = summaryMessages, res_summary = Some summary,
                   res_messagesRemoved = int (length (ctx_messages ctx)) - 1,
                   res_tokensPruned =
                     estimateTokens strat (ctx_messages ctx) -
                     estimateTokens strat summaryMessages\<rparr>))"

text \<open>\<open>DefaultCompactionStrategy.compact\<close>: phase 1, the test, then phase 2.\<close>

definition compact :: "strategy \<Rightarrow> compact_env \<Rightarrow> compaction_context \<Rightarrow> thrown + compaction_result" where
  "compact strat env ctx =
     (let pruned = pruneToolResults (ctx_messages ctx) (protectedTokens strat)
                     (minPruneSavings strat) (estimateTokens strat)
      in if pr_tokensSaved pruned \<ge> minPruneSavings strat
         then Inr \<lparr>res_messages = pr_messages pruned, res_summary = None,
                   res_messagesRemoved = 0, res_tokensPruned = pr_tokensSaved pruned\<rparr>
         else summarize strat env ctx)"

section \<open>Observations on pruning\<close>

text \<open>What the second loop does to one message before the boundary.\<close>

definition prune_message :: "message \<Rightarrow> message" where
  "prune_message m =
     (if role m = Tool
      then (case content m of
              CParts ps \<Rightarrow> m\<lparr>content := CParts (map prune_part ps)\<rparr>
            | CText t \<Rightarrow> m)
      else m)"

text \<open>The savings that the second loop adds for one message.\<close>

definition saved_at :: "estimator \<Rightarrow> message \<Rightarrow> int" where
  "saved_at est m = (if role m = Tool then est [m] - est [prune_message m] else 0)"

text \<open>The boundary and the savings that \<open>pruneToolResults\<close> computes.\<close>

definition boundary_of :: "estimator \<Rightarrow> int \<Rightarrow> message list \<Rightarrow> nat" where
  "boundary_of est prot msgs =
     find_boundary est prot msgs (length msgs) 0"

definition prune_savings :: "estimator \<Rightarrow> int \<Rightarrow> message list \<Rightarrow> int" where
  "prune_savings est prot msgs =
     fst (snd (prune_loop est (boundary_of est prot msgs) 0 msgs 0 0))"




text \<open>
  Two estimators over the characters of text contents and of the \<open>result\<close> strings of
  content parts: the count itself, and a quarter of it rounded up, as the default
  estimator rounds.
\<close>

definition payload_chars :: "message \<Rightarrow> nat" where
  "payload_chars m =
     (case content m of
        CText t \<Rightarrow> length t
      | CParts ps \<Rightarrow>
          sum_list (map (\<lambda>p. case map_of p ''result'' of Some (JStr r) \<Rightarrow> length r | _ \<Rightarrow> 0) ps))"


definition quarter_estimate :: estimator where
  "quarter_estimate msgs = (int (sum_list (map payload_chars msgs)) + 3) div 4"

text \<open>A tool message with one tool-result part, and two short histories.\<close>

definition tool_message :: "string \<Rightarrow> message" where
  "tool_message r =
     \<lparr>role = Tool,
      content = CParts [[(''type'', JStr ''tool-result''), (''toolCallId'', JStr ''c1''),
                         (''result'', JStr r)]]\<rparr>"

definition long_history :: "message list" where
  "long_history = [tool_message ''0123456789abc'', \<lparr>role = User, content = CText ''hello''\<rparr>]"

definition short_history :: "message list" where
  "short_history = [tool_message ''ok'', \<lparr>role = User, content = CText ''hello''\<rparr>]"


definition empty_result_history :: "message list" where
  "empty_result_history = [tool_message [], \<lparr>role = User, content = CText ''hello''\<rparr>]"


text \<open>A strategy with no minimum, and an environment whose model answers \<open>S\<close>.\<close>

definition no_minimum :: strategy where
  "no_minimum =
     \<lparr>protectedTokens = 1, minPruneSavings = 0, summaryModel = None, summaryPrompt = None,
      estimateTokens = quarter_estimate\<rparr>"

definition no_stringify :: "content \<Rightarrow> string" where
  "no_stringify c = []"

definition no_stringify_messages :: "message list \<Rightarrow> string" where
  "no_stringify_messages msgs = []"

definition fixed_summary :: "generate_call \<Rightarrow> thrown + string" where
  "fixed_summary c = Inr ''S''"

definition summary_env :: compact_env where
  "summary_env =
     \<lparr>stringify_content = no_stringify, stringify_messages = no_stringify_messages,
      generateText = fixed_summary\<rparr>"

definition context_of :: "message list \<Rightarrow> compaction_context" where
  "context_of msgs =
     \<lparr>ctx_messages = msgs, ctx_model = ''gpt'', ctx_systemPrompt = None, ctx_totalTokens = 0,
      ctx_targetTokens = 0, ctx_compactionPrompt = None\<rparr>"

section \<open>Session: events, configuration, state\<close>

datatype compaction_reason = Overflow | Manual

text \<open>
  \<open>SessionEvent\<close>: an agent event, or a lifecycle event. A retry event carries the
  attempt, \<open>maxRetries\<close>, the delay and the error.
\<close>

datatype session_event =
    AgentEv agent_event
  | Turn_start nat
  | Turn_done nat usage
  | Compaction_start compaction_reason int
  | Compaction_pruned int int
  | Compaction_summary string
  | Compaction_done int int
  | Retry nat int real js_error

record retry_config =
  maxRetries :: int
  initialDelayMs :: real
  maxDelayMs :: real
  backoffMultiplier :: real
  isRetryable :: "(js_error \<Rightarrow> bool) option"

definition DEFAULT_RETRY :: retry_config where
  "DEFAULT_RETRY =
     \<lparr>maxRetries = 3, initialDelayMs = 1000, maxDelayMs = 30000, backoffMultiplier = 2,
      isRetryable = None\<rparr>"

record turn_info =
  ti_turnNumber :: nat
  ti_messages :: "message list"
  ti_usage :: usage

record compaction_check_info =
  ci_lastInputTokens :: int
  ci_contextWindow :: int
  ci_reservedTokens :: int
  ci_messages :: "message list"
  ci_turnNumber :: nat

text \<open>
  \<open>SessionHooks\<close>. A hook returns or throws; the value that \<open>onError\<close> returns is never
  read by \<open>send\<close>, so only whether it throws is kept.
\<close>

record session_hooks =
  onBeforeSend :: "(message list \<Rightarrow> thrown + message list) option"
  onAfterResponse :: "(turn_info \<Rightarrow> thrown option) option"
  onCompaction :: "(compaction_context \<Rightarrow> thrown + string option) option"
  onError :: "(js_error \<Rightarrow> nat \<Rightarrow> thrown option) option"

text \<open>
  The fields of a \<open>Session\<close> that no method assigns: of the agent the model and the
  system prompt that \<open>compact\<close> reads; the strategy as its \<open>compact\<close> method; of the
  store its \<open>save\<close> method.
\<close>

record session =
  agent_model :: string
  agent_systemPrompt :: "string option"
  sessionId :: string
  contextWindow :: "int option"
  reservedTokens :: int
  autoCompact :: bool
  shouldCompactFn :: "(compaction_check_info \<Rightarrow> bool) option"
  compactionStrategy :: "compaction_context \<Rightarrow> thrown + compaction_result"
  retryConfig :: retry_config
  hooks :: session_hooks
  sessionStore_save :: "(string \<Rightarrow> message list \<Rightarrow> thrown option) option"

text \<open>The fields that the methods assign.\<close>

record session_state =
  session_messages :: "message list"
  turns :: nat
  totalUsage :: usage
  lastInputTokens :: int

text \<open>
  What one call of \<open>send\<close> gets from outside. \<open>agent_run k history inp\<close> is the iteration
  of \<open>this.agent.run(effectiveMessages, input, ...)\<close> in attempt \<open>k\<close>: the events it
  yields when driven to its end, and the fault it throws after them, if any (the method
  with this signature is not among the sources; every sequence of events is allowed).
  \<open>getRetryDelay k err\<close> is the delay that \<open>getRetryDelay\<close> computes (from the error's
  retry-after header, or from the configuration and \<open>Math.random\<close>). \<open>sleep k ms\<close> is the
  outcome of the sleep in attempt \<open>k\<close>: \<open>Some reason\<close> when the signal is aborted.
  \<open>stringify\<close> is \<open>JSON.stringify\<close> on a message list.
\<close>

record send_env =
  agent_run :: "nat \<Rightarrow> message list \<Rightarrow> run_input \<Rightarrow> agent_event list \<times> thrown option"
  getRetryDelay :: "nat \<Rightarrow> js_error \<Rightarrow> real"
  sleep :: "nat \<Rightarrow> real \<Rightarrow> thrown option"
  stringify :: "message list \<Rightarrow> string"

section \<open>Retry helpers\<close>

text \<open>\<open>toLowerCase\<close> on the letters A to Z.\<close>

definition lower_char :: "char \<Rightarrow> char" where
  "lower_char c =
     (case map_of (zip ''ABCDEFGHIJKLMNOPQRSTUVWXYZ'' ''abcdefghijklmnopqrstuvwxyz'') c of
        None \<Rightarrow> c
      | Some l \<Rightarrow> l)"

fun starts_with :: "string \<Rightarrow> string \<Rightarrow> bool" where
  "starts_with s [] = True"
| "starts_with [] (p # ps) = False"
| "starts_with (c # cs) (p # ps) = (c = p \<and> starts_with cs ps)"

text \<open>\<open>String.prototype.includes\<close>, and the prefix test it is built from.\<close>

fun includes_str :: "string \<Rightarrow> string \<Rightarrow> bool" where
  "includes_str [] sub = (sub = [])"
| "includes_str (c # cs) sub = (starts_with (c # cs) sub \<or> includes_str cs sub)"

definition isRetryableError :: "js_error \<Rightarrow> bool" where
  "isRetryableError error =
     (let msg = map lower_char (err_message error)
      in (includes_str msg ''429'' \<or> includes_str msg ''500'' \<or> includes_str msg ''502'' \<or>
          includes_str msg ''503'' \<or> includes_str msg ''504'' \<or> includes_str msg ''529'') \<or>
         includes_str msg ''rate limit'' \<or> includes_str msg ''timeout'' \<or>
         includes_str msg ''econnreset'' \<or> includes_str msg ''overloaded'')"

text \<open>\<open>this.retryConfig.isRetryable ?? isRetryableError\<close>\<close>

definition retryable :: "session \<Rightarrow> js_error \<Rightarrow> bool" where
  "retryable S error =
     (case isRetryable (retryConfig S) of None \<Rightarrow> isRetryableError error | Some f \<Rightarrow> f error)"

text \<open>\<open>await this.hooks.onError?.(error, attempt)\<close>: the fault it throws, if any.\<close>

definition call_onError :: "session \<Rightarrow> js_error \<Rightarrow> nat \<Rightarrow> thrown option" where
  "call_onError S error attempt =
     (case onError (hooks S) of None \<Rightarrow> None | Some h \<Rightarrow> h error attempt)"

definition addUsage :: "usage \<Rightarrow> usage \<Rightarrow> usage" where
  "addUsage a b =
     \<lparr>inputTokens = Some ((case inputTokens a of None \<Rightarrow> 0 | Some n \<Rightarrow> n) +
                          (case inputTokens b of None \<Rightarrow> 0 | Some n \<Rightarrow> n)),
      outputTokens = Some ((case outputTokens a of None \<Rightarrow> 0 | Some n \<Rightarrow> n) +
                           (case outputTokens b of None \<Rightarrow> 0 | Some n \<Rightarrow> n)),
      totalTokens = Some ((case totalTokens a of None \<Rightarrow> 0 | Some n \<Rightarrow> n) +
                          (case totalTokens b of None \<Rightarrow> 0 | Some n \<Rightarrow> n))\<rparr>"

section \<open>The retry loop of \<open>Session.send\<close>\<close>

text \<open>
  The variables of \<open>send\<close> that the loop changes: the session's fields, \<open>turnUsage\<close>,
  and \<open>hasYieldedContent\<close> of the current attempt.
\<close>

record turn_vars =
  tv_state :: session_state
  turnUsage :: usage
  hasYieldedContent :: bool

text \<open>
  How the \<open>for await\<close> over the agent's events ends: the iteration ran to its end; the
  retry branch set \<open>shouldRetry\<close> and left the loop; the done branch left the loop; or a
  fault was thrown inside the loop body (by the \<open>onError\<close> hook or by \<open>sleep\<close>).
\<close>

datatype attempt_exit = Ended | Retrying | Finished | Threw thrown

definition yield :: "'e \<Rightarrow> 'e list \<times> 'r \<Rightarrow> 'e list \<times> 'r" where
  "yield e r = (e # fst r, snd r)"

definition restore :: "message list \<Rightarrow> turn_vars \<Rightarrow> turn_vars" where
  "restore snapshot tv = tv\<lparr>tv_state := (tv_state tv)\<lparr>session_messages := snapshot\<rparr>\<rparr>"

text \<open>
  The body of the \<open>for await\<close>, event by event, in the order of the source: the content
  flag, \<open>lastInputTokens\<close>, the retry branch, the done branch, and otherwise the event is
  yielded.
\<close>

fun consume ::
  "session \<Rightarrow> send_env \<Rightarrow> message list \<Rightarrow> nat \<Rightarrow> agent_event list \<Rightarrow> turn_vars \<Rightarrow>
   session_event list \<times> turn_vars \<times> attempt_exit" where
  "consume S env snapshot attempt [] tv = ([], tv, Ended)"
| "consume S env snapshot attempt (Text_delta t # es) tv =
     yield (AgentEv (Text_delta t))
       (consume S env snapshot attempt es (tv\<lparr>hasYieldedContent := True\<rparr>))"
| "consume S env snapshot attempt (Tool_start cid nm inp # es) tv =
     yield (AgentEv (Tool_start cid nm inp))
       (consume S env snapshot attempt es (tv\<lparr>hasYieldedContent := True\<rparr>))"
| "consume S env snapshot attempt (Step_done n u reason # es) tv =
     yield (AgentEv (Step_done n u reason))
       (consume S env snapshot attempt es
          (tv\<lparr>tv_state := (tv_state tv)
               \<lparr>lastInputTokens := (case inputTokens u of None \<Rightarrow> 0 | Some x \<Rightarrow> x)\<rparr>\<rparr>))"
| "consume S env snapshot attempt (Error_event err # es) tv =
     (if \<not> hasYieldedContent tv \<and> retryable S err \<and> int attempt < maxRetries (retryConfig S)
      then (let delayMs = getRetryDelay env attempt err
            in case call_onError S err attempt of
                 Some t \<Rightarrow> ([], tv, Threw t)
               | None \<Rightarrow>
                   (case sleep env attempt delayMs of
                      Some t \<Rightarrow>
                        ([Retry attempt (maxRetries (retryConfig S)) delayMs err],
                         restore snapshot tv, Threw t)
                    | None \<Rightarrow>
                        ([Retry attempt (maxRetries (retryConfig S)) delayMs err],
                         restore snapshot tv, Retrying)))
      else yield (AgentEv (Error_event err)) (consume S env snapshot attempt es tv))"
| "consume S env snapshot attempt (Done r ms u # es) tv =
     ([AgentEv (Done r ms u)],
      tv\<lparr>tv_state := (tv_state tv)\<lparr>session_messages := ms\<rparr>, turnUsage := u\<rparr>, Finished)"
| "consume S env snapshot attempt (e # es) tv =
     yield (AgentEv e) (consume S env snapshot attempt es tv)"

text \<open>How one iteration of the attempt loop ends.\<close>

datatype loop_step = Continue | Break | Throw thrown

text \<open>
  One iteration of \<open>for (let attempt = 0; attempt <= maxRetries; attempt++)\<close>: the \<open>try\<close>
  block, the \<open>catch\<close> block for a fault of the agent's iteration or of the loop body, and
  \<open>if (shouldRetry) continue; break\<close>. In the \<open>catch\<close> block a fault of the hook or of
  \<open>sleep\<close> leaves \<open>send\<close>, as \<open>throw thrown\<close> does.
\<close>

definition attempt_body ::
  "session \<Rightarrow> send_env \<Rightarrow> message list \<Rightarrow> run_input \<Rightarrow> message list \<Rightarrow> nat \<Rightarrow> turn_vars \<Rightarrow>
   session_event list \<times> turn_vars \<times> loop_step" where
  "attempt_body S env effectiveMessages inp snapshot attempt tv =
     (let r = agent_run env attempt effectiveMessages inp;
          c = consume S env snapshot attempt (fst r) (tv\<lparr>hasYieldedContent := False\<rparr>);
          out = fst c;
          tv1 = fst (snd c)
      in case (case snd (snd c) of
                 Ended \<Rightarrow> snd r
               | Threw t \<Rightarrow> Some t
               | Retrying \<Rightarrow> None
               | Finished \<Rightarrow> None) of
           None \<Rightarrow> (out, tv1, if snd (snd c) = Retrying then Continue else Break)
         | Some th \<Rightarrow>
             (let error = toError th
              in if \<not> hasYieldedContent tv1 \<and> retryable S error \<and>
                    int attempt < maxRetries (retryConfig S)
                 then (let delayMs = getRetryDelay env attempt error
                       in case call_onError S error attempt of
                            Some t \<Rightarrow> (out, tv1, Throw t)
                          | None \<Rightarrow>
                              (case sleep env attempt delayMs of
                                 Some t \<Rightarrow>
                                   (out @ [Retry attempt (maxRetries (retryConfig S)) delayMs error],
                                    restore snapshot tv1, Throw t)
                               | None \<Rightarrow>
                                   (out @ [Retry attempt (maxRetries (retryConfig S)) delayMs error],
                                    restore snapshot tv1, Continue)))
                 else (out, tv1, Throw th)))"

text \<open>
  The attempt loop from attempt \<open>attempt\<close> on: the events, the variables afterwards, and
  the fault that leaves \<open>send\<close>, if any.
\<close>

function retry_loop ::
  "session \<Rightarrow> send_env \<Rightarrow> message list \<Rightarrow> run_input \<Rightarrow> message list \<Rightarrow> nat \<Rightarrow> turn_vars \<Rightarrow>
   session_event list \<times> turn_vars \<times> thrown option" where
  "retry_loop S env effectiveMessages inp snapshot attempt tv =
     (if int attempt \<le> maxRetries (retryConfig S) then
        (let b = attempt_body S env effectiveMessages inp snapshot attempt tv
         in case snd (snd b) of
              Continue \<Rightarrow>
                (let r = retry_loop S env effectiveMessages inp snapshot (attempt + 1) (fst (snd b))
                 in (fst b @ fst r, snd r))
            | Break \<Rightarrow> (fst b, fst (snd b), None)
            | Throw t \<Rightarrow> (fst b, fst (snd b), Some t))
      else ([], tv, None))"
  by pat_completeness auto
termination
  by (relation "measure (\<lambda>(S, env, effectiveMessages, inp, snapshot, attempt, tv).
        nat (maxRetries (retryConfig S) + 1 - int attempt))") auto

declare retry_loop.simps [simp del]

section \<open>\<open>Session.compact\<close> and \<open>Session.send\<close>\<close>

text \<open>A number is truthy when it is not zero.\<close>

definition truthy_number :: "int option \<Rightarrow> bool" where
  "truthy_number n = (case n of None \<Rightarrow> False | Some x \<Rightarrow> x \<noteq> 0)"

definition shouldCompactCheck :: "session \<Rightarrow> session_state \<Rightarrow> bool" where
  "shouldCompactCheck S st =
     (case contextWindow S of
        None \<Rightarrow> False
      | Some cw \<Rightarrow>
          if cw = 0 then False
          else (case shouldCompactFn S of
                  Some f \<Rightarrow>
                    f \<lparr>ci_lastInputTokens = lastInputTokens st, ci_contextWindow = cw,
                       ci_reservedTokens = reservedTokens S,
                       ci_messages = session_messages st, ci_turnNumber = turns st\<rparr>
                | None \<Rightarrow> lastInputTokens st \<ge> cw - reservedTokens S))"

text \<open>The result of driving a generator of the session to its end.\<close>

type_synonym session_outcome = "session_event list \<times> session_state \<times> thrown option"

text \<open>\<open>defaultEstimateTokens\<close> with the environment's \<open>JSON.stringify\<close>.\<close>

definition session_estimate :: "send_env \<Rightarrow> estimator" where
  "session_estimate env msgs = (int (length (stringify env msgs)) + 3) div 4"

text \<open>
  \<open>Session.compact\<close>. A fault of the \<open>onCompaction\<close> hook or of the strategy leaves the
  generator after the compaction.start event.
\<close>

definition session_compact :: "session \<Rightarrow> send_env \<Rightarrow> session_state \<Rightarrow> session_outcome" where
  "session_compact S env st =
     (let reason = (if shouldCompactCheck S st then Overflow else Manual);
          tokensBefore = session_estimate env (session_messages st);
          context = \<lparr>ctx_messages = session_messages st, ctx_model = agent_model S,
                     ctx_systemPrompt = agent_systemPrompt S, ctx_totalTokens = tokensBefore,
                     ctx_targetTokens =
                       (case contextWindow S of
                          None \<Rightarrow> real_of_int tokensBefore / 2
                        | Some cw \<Rightarrow>
                            if cw \<noteq> 0 then real_of_int (cw - reservedTokens S)
                            else real_of_int tokensBefore / 2),
                     ctx_compactionPrompt = None\<rparr>
      in case (case onCompaction (hooks S) of
                 None \<Rightarrow> Inr context
               | Some h \<Rightarrow>
                   (case h context of
                      Inl t \<Rightarrow> Inl t
                    | Inr customPrompt \<Rightarrow>
                        Inr (if customPrompt \<noteq> None \<and> customPrompt \<noteq> Some []
                             then context\<lparr>ctx_compactionPrompt := customPrompt\<rparr>
                             else context))) of
           Inl t \<Rightarrow> ([Compaction_start reason tokensBefore], st, Some t)
         | Inr context' \<Rightarrow>
             (case compactionStrategy S context' of
                Inl t \<Rightarrow> ([Compaction_start reason tokensBefore], st, Some t)
              | Inr result \<Rightarrow>
                  (let st' = st\<lparr>session_messages := res_messages result\<rparr>;
                       tokensAfter = session_estimate env (session_messages st')
                   in ([Compaction_start reason tokensBefore] @
                       (if res_tokensPruned result > 0
                        then [Compaction_pruned (res_tokensPruned result)
                                (res_messagesRemoved result)]
                        else []) @
                       (case res_summary result of
                          None \<Rightarrow> []
                        | Some summary \<Rightarrow>
                            if summary \<noteq> [] then [Compaction_summary summary] else []) @
                       [Compaction_done tokensBefore tokensAfter],
                       st', None))))"

text \<open>
  \<open>Session.send\<close> driven to its end: the turn counter and turn.start, the compaction
  check, the \<open>onBeforeSend\<close> hook, the snapshot and the attempt loop, then the
  \<open>onAfterResponse\<close> hook, the store, the usage and turn.done. A fault of a hook, of the
  compaction, of the store or of the loop leaves \<open>send\<close> where it is thrown.
\<close>

definition send :: "session \<Rightarrow> send_env \<Rightarrow> session_state \<Rightarrow> run_input \<Rightarrow> session_outcome" where
  "send S env st inp =
     (let st1 = st\<lparr>turns := turns st + 1\<rparr>;
          turnNumber = turns st1;
          c = (if autoCompact S \<and> truthy_number (contextWindow S) \<and> shouldCompactCheck S st1
               then session_compact S env st1
               else ([], st1, None));
          st2 = fst (snd c);
          started = Turn_start turnNumber # fst c
      in case snd (snd c) of
           Some t \<Rightarrow> (started, st2, Some t)
         | None \<Rightarrow>
             (case (case onBeforeSend (hooks S) of
                      None \<Rightarrow> Inr (session_messages st2)
                    | Some h \<Rightarrow> h (session_messages st2)) of
                Inl t \<Rightarrow> (started, st2, Some t)
              | Inr effectiveMessages \<Rightarrow>
                  (let snapshot = session_messages st2;
                       r = retry_loop S env effectiveMessages inp snapshot 0
                             \<lparr>tv_state = st2, turnUsage = undefined_usage,
                              hasYieldedContent = False\<rparr>;
                       tv = fst (snd r);
                       st3 = tv_state tv
                   in case snd (snd r) of
                        Some t \<Rightarrow> (started @ fst r, st3, Some t)
                      | None \<Rightarrow>
                          (case (case onAfterResponse (hooks S) of
                                   None \<Rightarrow> None
                                 | Some h \<Rightarrow>
                                     h \<lparr>ti_turnNumber = turnNumber,
                                        ti_messages = session_messages st3,
                                        ti_usage = turnUsage tv\<rparr>) of
                             Some t \<Rightarrow> (started @ fst r, st3, Some t)
                           | None \<Rightarrow>
                               (case (case sessionStore_save S of
                                        None \<Rightarrow> None
                                      | Some save \<Rightarrow> save (sessionId S) (session_messages st3)) of
                                  Some t \<Rightarrow> (started @ fst r, st3, Some t)
                                | None \<Rightarrow>
                                    (started @ fst r @ [Turn_done turnNumber (turnUsage tv)],
                                     st3\<lparr>totalUsage := addUsage (totalUsage st3) (turnUsage tv)\<rparr>,
                                     None))))))"

section \<open>Observations on the retry loop\<close>

text \<open>
  The part of \<open>send\<close> before the snapshot and the attempt loop: the turn counter and
  turn.start, the compaction check and the \<open>onBeforeSend\<close> hook. It gives the events so
  far, the session's fields as the loop finds them, and the fault that leaves \<open>send\<close> or
  \<open>effectiveMessages\<close>.
\<close>

definition send_prelude ::
  "session \<Rightarrow> send_env \<Rightarrow> session_state \<Rightarrow>
   session_event list \<times> session_state \<times> (thrown + message list)" where
  "send_prelude S env st =
     (let st1 = st\<lparr>turns := turns st + 1\<rparr>;
          turnNumber = turns st1;
          c = (if autoCompact S \<and> truthy_number (contextWindow S) \<and> shouldCompactCheck S st1
               then session_compact S env st1
               else ([], st1, None));
          st2 = fst (snd c);
          started = Turn_start turnNumber # fst c
      in case snd (snd c) of
           Some t \<Rightarrow> (started, st2, Inl t)
         | None \<Rightarrow>
             (started, st2,
              case onBeforeSend (hooks S) of
                None \<Rightarrow> Inr (session_messages st2)
              | Some h \<Rightarrow> h (session_messages st2)))"

fun is_content :: "agent_event \<Rightarrow> bool" where
  "is_content (Text_delta t) = True"
| "is_content (Tool_start cid nm inp) = True"
| "is_content e = False"

fun is_error :: "agent_event \<Rightarrow> bool" where
  "is_error (Error_event err) = True"
| "is_error e = False"

fun is_retry :: "session_event \<Rightarrow> bool" where
  "is_retry (Retry k mr d err) = True"
| "is_retry e = False"

fun retry_attempt :: "session_event \<Rightarrow> nat option" where
  "retry_attempt (Retry k mr d err) = Some k"
| "retry_attempt e = None"

text \<open>Events without a done event and without an error event.\<close>

definition plain :: "agent_event list \<Rightarrow> bool" where
  "plain es = (\<not> list_ex is_done es \<and> \<not> list_ex is_error es)"

text \<open>
  A session without hooks, store and context window, with a given \<open>maxRetries\<close>; a new
  session's state; and environments: an agent whose first attempt reports a transient
  error before any content and whose later attempts stream text and then fail, an agent
  whose iteration throws, a fixed delay, and a sleep that is never aborted.
\<close>

definition no_hooks :: session_hooks where
  "no_hooks =
     \<lparr>onBeforeSend = None, onAfterResponse = None, onCompaction = None, onError = None\<rparr>"

definition plain_session :: "int \<Rightarrow> session" where
  "plain_session mr =
     \<lparr>agent_model = ''gpt'', agent_systemPrompt = None, sessionId = ''s1'',
      contextWindow = None, reservedTokens = 20000, autoCompact = False,
      shouldCompactFn = None, compactionStrategy = compact no_minimum summary_env,
      retryConfig = DEFAULT_RETRY\<lparr>maxRetries := mr\<rparr>, hooks = no_hooks,
      sessionStore_save = None\<rparr>"

definition new_session_state :: session_state where
  "new_session_state =
     \<lparr>session_messages = [], turns = 0,
      totalUsage = \<lparr>inputTokens = Some 0, outputTokens = Some 0, totalTokens = Some 0\<rparr>,
      lastInputTokens = 0\<rparr>"

definition overloaded_error :: js_error where
  "overloaded_error = JsError ''Error'' ''Overloaded''"

definition flaky_agent ::
  "nat \<Rightarrow> message list \<Rightarrow> run_input \<Rightarrow> agent_event list \<times> thrown option" where
  "flaky_agent k history inp =
     (if k = 0 then ([Step_start 1, Error_event overloaded_error], None)
      else ([Step_start 1, Text_delta ''hi'', Error_event overloaded_error,
             Done Error_result (history @ input_messages inp) undefined_usage], None))"

definition throwing_agent ::
  "nat \<Rightarrow> message list \<Rightarrow> run_input \<Rightarrow> agent_event list \<times> thrown option" where
  "throwing_agent k history inp = ([], Some (ThrownError overloaded_error))"

definition fixed_delay :: "nat \<Rightarrow> js_error \<Rightarrow> real" where
  "fixed_delay k err = 1000"

definition no_abort :: "nat \<Rightarrow> real \<Rightarrow> thrown option" where
  "no_abort k ms = None"

definition test_env ::
  "(nat \<Rightarrow> message list \<Rightarrow> run_input \<Rightarrow> agent_event list \<times> thrown option) \<Rightarrow> send_env" where
  "test_env agent =
     \<lparr>agent_run = agent, getRetryDelay = fixed_delay, sleep = no_abort,
      stringify = no_stringify_messages\<rparr>"

definition turn_start_vars :: turn_vars where
  "turn_start_vars =
     \<lparr>tv_state = new_session_state\<lparr>turns := 1\<rparr>, turnUsage = undefined_usage,
      hasYieldedContent = False\<rparr>"

text \<open>
  An environment whose signal is aborted during the backoff sleep: the same agent, and a
  sleep that rejects with the abort reason.
\<close>

definition abort_error :: js_error where
  "abort_error = JsError ''AbortError'' ''This operation was aborted''"

definition aborted_sleep :: "nat \<Rightarrow> real \<Rightarrow> thrown option" where
  "aborted_sleep k ms = Some (ThrownError abort_error)"

definition abort_env :: send_env where
  "abort_env =
     \<lparr>agent_run = flaky_agent, getRetryDelay = fixed_delay, sleep = aborted_sleep,
      stringify = no_stringify_messages\<rparr>"

text \<open>
  A session that has a history; an agent every attempt of which reports a transient
  error before any content and ends without a done event; and an environment whose
  signal is aborted by a timeout during the backoff sleep, so that the sleep rejects
  with the timeout reason.
\<close>

definition earlier_history :: "message list" where
  "earlier_history =
     [\<lparr>role = User, content = CText ''earlier question''\<rparr>,
      \<lparr>role = Assistant, content = CText ''earlier answer''\<rparr>]"

definition history_state :: session_state where
  "history_state = new_session_state\<lparr>session_messages := earlier_history\<rparr>"

definition failing_agent ::
  "nat \<Rightarrow> message list \<Rightarrow> run_input \<Rightarrow> agent_event list \<times> thrown option" where
  "failing_agent k history inp = ([Step_start 1, Error_event overloaded_error], None)"

definition timeout_error :: js_error where
  "timeout_error = JsError ''TimeoutError'' ''The operation was aborted due to timeout''"

definition timeout_sleep :: "nat \<Rightarrow> real \<Rightarrow> thrown option" where
  "timeout_sleep k ms = Some (ThrownError timeout_error)"

definition timeout_env :: send_env where
  "timeout_env =
     \<lparr>agent_run = flaky_agent, getRetryDelay = fixed_delay, sleep = timeout_sleep,
      stringify = no_stringify_messages\<rparr>"

text \<open>A session with three retries whose \<open>onError\<close> hook throws.\<close>

definition hook_error :: js_error where
  "hook_error = JsError ''Error'' ''hook failed''"

definition throwing_hook :: "js_error \<Rightarrow> nat \<Rightarrow> thrown option" where
  "throwing_hook err k = Some (ThrownError hook_error)"

definition hooked_session :: session where
  "hooked_session = (plain_session 3)\<lparr>hooks := no_hooks\<lparr>onError := Some throwing_hook\<rparr>\<rparr>"

text \<open>The variables with which \<open>send\<close> enters the attempt loop on that session.\<close>

definition history_vars :: turn_vars where
  "history_vars =
     \<lparr>tv_state = history_state\<lparr>turns := 1\<rparr>, turnUsage = undefined_usage,
      hasYieldedContent = False\<rparr>"

section \<open>Properties of the step loop\<close>

lemma fst_emit [simp]: "fst (emit e r) = e # fst r"
  by (simp add: emit_def split: prod.splits)

lemma snd_emit [simp]: "snd (emit e r) = snd r"
  by (simp add: emit_def split: prod.splits)

lemma Agent_loop_no_finish:
  "\<not> has_finish ps \<Longrightarrow>
   snd (Agent_loop resp flt ps v ms) = (ms, flt) \<and>
   \<not> list_ex is_done (fst (Agent_loop resp flt ps v ms))"
proof (induction ps arbitrary: v)
  case Nil
  then show ?case by simp
next
  case (Cons p ps)
  then show ?case by (cases p) (simp_all add: has_finish_def Let_def)
qed

lemma Agent_loop_append:
  "\<not> has_finish pre \<Longrightarrow>
   \<exists>v'. Agent_loop resp flt (pre @ ps) v ms =
     (fst (Agent_loop resp flt pre v ms) @ fst (Agent_loop resp flt ps v' ms),
      snd (Agent_loop resp flt ps v' ms))"
proof (induction pre arbitrary: v)
  case Nil
  then show ?case by (auto intro: exI[of _ v])
next
  case (Cons p pre)
  then have nf: "\<not> has_finish pre" and np: "\<not> is_finish p" by (simp_all add: has_finish_def)
  show ?case
  proof (cases p)
    case StartStep
    from Cons.IH[OF nf, of "v\<lparr>stepNumber := stepNumber v + 1, stepText := [], stepReasoning := []\<rparr>"]
    show ?thesis using StartStep by (auto simp: Let_def emit_def split: prod.splits)
  next
    case (TextDelta t)
    from Cons.IH[OF nf, of "v\<lparr>stepText := stepText v @ t\<rparr>"]
    show ?thesis using TextDelta by (auto simp: Let_def emit_def split: prod.splits)
  next
    case (ReasoningDelta t)
    from Cons.IH[OF nf, of "v\<lparr>stepReasoning := stepReasoning v @ t\<rparr>"]
    show ?thesis using ReasoningDelta by (auto simp: Let_def emit_def split: prod.splits)
  next
    case (Finish r u)
    then show ?thesis using np by simp
  qed (use Cons.IH[OF nf, of v] in \<open>auto simp: Let_def emit_def split: prod.splits\<close>)
qed


lemma first_finish:
  "has_finish ps \<Longrightarrow> \<exists>pre r u post. ps = pre @ Finish r u # post \<and> \<not> has_finish pre"
proof (induction ps)
  case Nil
  then show ?case by (simp add: has_finish_def)
next
  case (Cons p ps)
  show ?case
  proof (cases "is_finish p")
    case True
    then obtain r u where "p = Finish r u" by (cases p) simp_all
    then have "p # ps = [] @ Finish r u # ps \<and> \<not> has_finish []" by (simp add: has_finish_def)
    then show ?thesis by blast
  next
    case False
    with Cons.prems have "has_finish ps" by (simp add: has_finish_def)
    from Cons.IH[OF this] obtain pre r u post
      where "ps = pre @ Finish r u # post" and "\<not> has_finish pre" by blast
    with False have "p # ps = (p # pre) @ Finish r u # post \<and> \<not> has_finish (p # pre)"
      by (simp add: has_finish_def)
    then show ?thesis by blast
  qed
qed

lemma filter_is_done_Nil: "\<not> list_ex is_done es \<Longrightarrow> filter is_done es = []"
  by (induction es) simp_all

lemma one_done_last_snoc:
  "\<not> list_ex is_done es \<Longrightarrow> is_done d \<Longrightarrow> one_done_last (es @ [d])"
  by (simp add: one_done_last_def filter_is_done_Nil)

lemma one_done_last_snoc2:
  "\<not> list_ex is_done es \<Longrightarrow> \<not> is_done e \<Longrightarrow> is_done d \<Longrightarrow> one_done_last (es @ [e, d])"
  by (simp add: one_done_last_def filter_is_done_Nil)

lemma Agent_loop_catch_one_done:
  assumes "ends_once \<lparr>parts = ps, fault = flt, response = resp\<rparr>"
  shows "one_done_last (fst (catch_block (Agent_loop resp flt ps v ms)))"
proof (cases "has_finish ps")
  case False
  with assms obtain t where flt: "flt = Some t" by (auto simp: ends_once_def)
  from Agent_loop_no_finish[OF False, of resp flt v ms]
  obtain es where L: "Agent_loop resp flt ps v ms = (es, ms, flt)" and nd: "\<not> list_ex is_done es"
    by (cases "Agent_loop resp flt ps v ms") auto
  show ?thesis using L flt one_done_last_snoc2[OF nd, of "Error_event (toError t)" "Done Error_result ms undefined_usage"]
    by (simp add: catch_block_def)
next
  case True
  from first_finish[OF True] obtain pre r u post
    where ps: "ps = pre @ Finish r u # post" and pre: "\<not> has_finish pre" by blast
  from Agent_loop_append[OF pre, of resp flt "Finish r u # post" v ms]
  obtain v' where A: "Agent_loop resp flt ps v ms =
     (fst (Agent_loop resp flt pre v ms) @ fst (Agent_loop resp flt (Finish r u # post) v' ms),
      snd (Agent_loop resp flt (Finish r u # post) v' ms))" using ps by blast
  from Agent_loop_no_finish[OF pre, of resp flt v ms]
  have nd: "\<not> list_ex is_done (fst (Agent_loop resp flt pre v ms))" by simp
  show ?thesis
  proof (cases resp)
    case (Inl t)
    then show ?thesis
      using A one_done_last_snoc2[OF nd, of "Error_event (toError t)" "Done Error_result ms undefined_usage"]
      by (simp add: catch_block_def)
  next
    case (Inr rms)
    with assms True have flt: "flt = None" and lst: "is_finish (last ps)"
      and bl: "\<not> has_finish (butlast ps)" by (auto simp: ends_once_def)
    have "post = []"
    proof (rule ccontr)
      assume "post \<noteq> []"
      then have "butlast ps = pre @ Finish r u # butlast post" by (simp add: ps butlast_append)
      with bl show False by (simp add: has_finish_def)
    qed
    then show ?thesis
      using A Inr flt one_done_last_snoc[OF nd, of "Done (finish_result r) (ms @ rms) (toTokenUsage u)"]
      by (simp add: catch_block_def Let_def)
  qed
qed

lemma run_loop_Agent_loop:
  "map is_done (fst (run_loop resp flt ps v ms)) = map is_done (fst (Agent_loop resp flt ps v ms')) \<and>
   snd (snd (run_loop resp flt ps v ms)) = snd (snd (Agent_loop resp flt ps v ms'))"
proof (induction ps arbitrary: v ms')
  case Nil
  then show ?case by simp
next
  case (Cons p ps)
  show ?case
  proof (cases p)
    case (Finish r u)
    then show ?thesis using Cons.IH by (cases resp) (simp_all add: Let_def)
  qed (use Cons.IH in \<open>simp_all add: Let_def\<close>)
qed

lemma one_done_last_map:
  "one_done_last es =
     (map is_done es \<noteq> [] \<and> last (map is_done es) \<and> length (filter id (map is_done es)) = 1)"
proof -
  have len: "length (filter is_done es) = length (filter id (map is_done es))"
    by (induction es) simp_all
  show ?thesis
  proof (cases "es = []")
    case True
    then show ?thesis by (simp add: one_done_last_def)
  next
    case False
    then show ?thesis unfolding one_done_last_def len by (simp add: last_map)
  qed
qed

lemma one_done_last_cong:
  assumes "map is_done es = map is_done es'"
  shows "one_done_last es = one_done_last es'"
  unfolding one_done_last_map assms ..

lemma catch_block_cong:
  assumes "map is_done (fst r) = map is_done (fst r')" and "snd (snd r) = snd (snd r')"
  shows "map is_done (fst (catch_block r)) = map is_done (fst (catch_block r'))"
  using assms by (cases r; cases r') (auto simp: catch_block_def split: option.splits)

lemma Agent_loop_catch_one_done':
  assumes "ends_once str"
  shows "one_done_last (fst (catch_block (Agent_loop (response str) (fault str) (parts str) v ms)))"
  using assms Agent_loop_catch_one_done[of "parts str" "fault str" "response str" v ms]
  by (cases str) simp

lemma run_stream_Some:
  assumes "run_stream a st inp env = Some str"
  shows "\<exists>st2. messages st2 = messages st @ input_messages inp \<and>
     Agent_run a st inp env =
       \<lparr>events = fst (catch_block (Agent_loop (response str) (fault str) (parts str)
            init_vars (messages st2))),
        final = st2\<lparr>messages := snd (catch_block (Agent_loop (response str) (fault str)
            (parts str) init_vars (messages st2)))\<rparr>,
        thrown = None\<rparr>"
proof -
  from assms obtain st2 where
    L: "load_step a (st\<lparr>messages := messages st @ input_messages inp\<rparr>) env = Inr st2"
    and S: "str = streamText env (call_of a st2)"
    by (auto simp: run_stream_def split: sum.splits)
  have M: "messages st2 = messages st @ input_messages inp"
    using L by (auto simp: load_step_def split: if_splits sum.splits)
  show ?thesis
    by (rule exI[of _ st2]) (simp add: Agent_run_def Let_def L M S)
qed

text \<open>
  When the provider's stream ends once (its only finish part is its last part and the
  response resolves; or awaiting the response at a finish part rejects; or there is no
  finish part and the iterator throws), and loading the instructions did not throw, one
  call of \<open>Agent.run\<close> yields exactly one done event, that event is the last event, and
  the call itself throws nothing. The same holds for the function \<open>run\<close> of agent.ts.
\<close>

lemma run_exactly_one_done:
  "(run_stream a st inp env = Some str \<and> ends_once str \<longrightarrow>
      one_done_last (events (Agent_run a st inp env)) \<and> thrown (Agent_run a st inp env) = None) \<and>
   (ends_once str \<longrightarrow> one_done_last (run msgs str))"
proof (intro conjI impI)
  assume h: "run_stream a st inp env = Some str \<and> ends_once str"
  from run_stream_Some[of a st inp env str] h obtain st2 where
    R: "Agent_run a st inp env =
       \<lparr>events = fst (catch_block (Agent_loop (response str) (fault str) (parts str)
            init_vars (messages st2))),
        final = st2\<lparr>messages := snd (catch_block (Agent_loop (response str) (fault str)
            (parts str) init_vars (messages st2)))\<rparr>,
        thrown = None\<rparr>" by blast
  from h have "ends_once str" by blast
  from Agent_loop_catch_one_done'[OF this, of init_vars "messages st2"]
  show "one_done_last (events (Agent_run a st inp env))" by (simp add: R)
  show "thrown (Agent_run a st inp env) = None" by (simp add: R)
next
  assume h: "ends_once str"
  have "map is_done (run msgs str) =
        map is_done (fst (catch_block (Agent_loop (response str) (fault str) (parts str) init_vars msgs)))"
    unfolding run_def
    by (rule catch_block_cong) (simp_all add: run_loop_Agent_loop)
  from one_done_last_cong[OF this] Agent_loop_catch_one_done'[OF h, of init_vars msgs]
  show "one_done_last (run msgs str)" by simp
qed

lemma example_run_stream:
  "run_stream example_agent st inp (example_env str) = Some str"
  by (simp add: run_stream_def load_step_def example_agent_def example_env_def stream_for_def)

lemma run_exactly_one_done_example:
  "run_stream example_agent fresh_state (InputText ''q'') (example_env example_stream) =
     Some example_stream \<and>
   ends_once example_stream \<and>
   one_done_last (events (Agent_run example_agent fresh_state (InputText ''q'')
     (example_env example_stream))) \<and>
   one_done_last (run [] example_stream)"
proof -
  have e: "ends_once example_stream"
    by (simp add: ends_once_def example_stream_def has_finish_def)
  show ?thesis
    using run_exactly_one_done[of example_agent fresh_state "InputText ''q''"
        "example_env example_stream" example_stream "[]"] e example_run_stream
    by simp
qed

text \<open>
  Claim C1. The claim fails in the code at a failed model call that the provider
  delivers as an error part, after which the stream ends without a finish part and
  without a fault: \<open>Agent.run\<close>, and the function \<open>run\<close> of agent.ts, yield step.start
  and the error event and end without any done event, and throw nothing. When the same
  failure is thrown by the iterator, the \<open>catch\<close> block yields the error event and then
  the done event with result error, as the claim says.
\<close>

theorem run_error_part_ends_without_done:
  "Agent_run example_agent fresh_state (InputText ''q'') (example_env error_part_stream) =
     \<lparr>events = [Step_start 1, Error_event (JsError ''Error'' ''overloaded'')],
      final = \<lparr>messages = [\<lparr>role = User, content = CText ''q''\<rparr>], cachedInstructions = None\<rparr>,
      thrown = None\<rparr> \<and>
   filter is_done (events (Agent_run example_agent fresh_state (InputText ''q'')
     (example_env error_part_stream))) = [] \<and>
   run [\<lparr>role = User, content = CText ''q''\<rparr>] error_part_stream =
     [Step_start 1, Error_event (JsError ''Error'' ''overloaded'')] \<and>
   events (Agent_run example_agent fresh_state (InputText ''q'')
     (example_env thrown_error_stream)) =
     [Step_start 1, Error_event (JsError ''Error'' ''overloaded''),
      Done Error_result [\<lparr>role = User, content = CText ''q''\<rparr>] undefined_usage] \<and>
   run [\<lparr>role = User, content = CText ''q''\<rparr>] thrown_error_stream =
     [Step_start 1, Error_event (JsError ''Error'' ''overloaded''),
      Done Error_result [\<lparr>role = User, content = CText ''q''\<rparr>] undefined_usage]"
  by (simp add: Agent_run_def run_def load_step_def example_agent_def example_env_def
      stream_for_def catch_block_def init_vars_def Let_def emit_def fresh_state_def
      input_messages_def error_part_stream_def thrown_error_stream_def)





lemma Agent_loop_prefix:
  "prefix ms (fst (snd (Agent_loop resp flt ps v ms))) \<and>
   (\<forall>m\<in>set (done_messages (fst (Agent_loop resp flt ps v ms))).
      prefix ms m \<and> prefix m (fst (snd (Agent_loop resp flt ps v ms))))"
proof (induction ps arbitrary: v ms)
  case Nil
  then show ?case by simp
next
  case (Cons p ps)
  show ?case
  proof (cases p)
    case (Finish r u)
    show ?thesis
    proof (cases resp)
      case (Inl t)
      then show ?thesis using Finish by simp
    next
      case (Inr rms)
      from Cons.IH[where v=v and ms="ms @ rms"]
      show ?thesis using Finish Inr
        by (auto simp: Let_def emit_def split: prod.splits dest: append_prefixD)
    qed
  next
    case TextEnd
    then show ?thesis using Cons.IH[where v=v and ms=ms] by (auto simp: emit_def split: prod.splits)
  next
    case ReasoningEnd
    then show ?thesis using Cons.IH[where v=v and ms=ms] by (auto simp: emit_def split: prod.splits)
  next
    case StartStep
    then show ?thesis
      using Cons.IH[where v="v\<lparr>stepNumber := stepNumber v + 1, stepText := [], stepReasoning := []\<rparr>" and ms=ms]
      by (auto simp: emit_def Let_def split: prod.splits)
  next
    case (TextDelta t)
    then show ?thesis using Cons.IH[where v="v\<lparr>stepText := stepText v @ t\<rparr>" and ms=ms]
      by (auto simp: emit_def split: prod.splits)
  next
    case (ReasoningDelta t)
    then show ?thesis using Cons.IH[where v="v\<lparr>stepReasoning := stepReasoning v @ t\<rparr>" and ms=ms]
      by (auto simp: emit_def split: prod.splits)
  qed (use Cons.IH[where v=v and ms=ms] in \<open>auto simp: emit_def split: prod.splits\<close>)
qed


lemma done_messages_append: "done_messages (xs @ ys) = done_messages xs @ done_messages ys"
  by (induction xs rule: done_messages.induct) simp_all

lemma done_messages_none: "\<not> list_ex is_done es \<Longrightarrow> done_messages es = []"
  by (induction es rule: done_messages.induct) simp_all

lemma catch_block_prefix:
  assumes "prefix ms (fst (snd L)) \<and>
     (\<forall>m\<in>set (done_messages (fst L)). prefix ms m \<and> prefix m (fst (snd L)))"
  shows "prefix ms (snd (catch_block L)) \<and>
     (\<forall>m\<in>set (done_messages (fst (catch_block L))). prefix ms m \<and> prefix m (snd (catch_block L)))"
  using assms
  by (cases L) (auto simp: catch_block_def done_messages_append split: option.splits)

lemma Agent_run_prefix:
  "prefix (messages st @ input_messages inp) (messages (final (Agent_run a st inp env))) \<and>
   (\<forall>m\<in>set (done_messages (events (Agent_run a st inp env))).
      prefix (messages st @ input_messages inp) m \<and>
      prefix m (messages (final (Agent_run a st inp env))))"
proof (cases "run_stream a st inp env")
  case None
  then have "Agent_run a st inp env =
      \<lparr>events = [], final = st\<lparr>messages := messages st @ input_messages inp\<rparr>,
       thrown = thrown (Agent_run a st inp env)\<rparr>"
    by (auto simp: run_stream_def Agent_run_def Let_def split: sum.splits)
  then have "events (Agent_run a st inp env) = [] \<and>
     messages (final (Agent_run a st inp env)) = messages st @ input_messages inp"
    by (metis agent_state.select_convs(1) agent_state.surjective agent_state.update_convs(1)
        run_outcome.select_convs(1) run_outcome.select_convs(2))
  then show ?thesis by simp
next
  case (Some str)
  from run_stream_Some[OF Some] obtain st2 where
    M: "messages st2 = messages st @ input_messages inp" and
    R: "Agent_run a st inp env =
       \<lparr>events = fst (catch_block (Agent_loop (response str) (fault str) (parts str)
            init_vars (messages st2))),
        final = st2\<lparr>messages := snd (catch_block (Agent_loop (response str) (fault str)
            (parts str) init_vars (messages st2)))\<rparr>,
        thrown = None\<rparr>" by blast
  from catch_block_prefix[OF Agent_loop_prefix, of "messages st2" "response str" "fault str"
      "parts str" init_vars]
  show ?thesis unfolding M[symmetric] by (simp add: R)
qed

lemma Agent_runs_nth:
  "k < length cs \<Longrightarrow>
   \<exists>st'. prefix (messages st) (messages st') \<and>
         Agent_runs a st cs ! k = Agent_run a st' (fst (cs ! k)) (snd (cs ! k))"
proof (induction cs arbitrary: st k)
  case Nil
  then show ?case by simp
next
  case (Cons c cs)
  obtain inp env where c: "c = (inp, env)" by (cases c)
  show ?case
  proof (cases k)
    case 0
    then show ?thesis using c by (auto simp: Let_def intro!: exI[of _ st])
  next
    case (Suc k')
    with Cons.prems have "k' < length cs" by simp
    from Cons.IH[OF this, where st="final (Agent_run a st inp env)"] obtain st' where
      p: "prefix (messages (final (Agent_run a st inp env))) (messages st')" and
      e: "Agent_runs a (final (Agent_run a st inp env)) cs ! k' =
          Agent_run a st' (fst (cs ! k')) (snd (cs ! k'))" by blast
    from Agent_run_prefix[of st inp a env]
    have "prefix (messages st) (messages (final (Agent_run a st inp env)))"
      using append_prefixD by blast
    then have "prefix (messages st) (messages st')" using p by (rule prefix_order.trans)
    with e show ?thesis using c Suc by (auto simp: Let_def)
  qed
qed

lemma Agent_runs_later:
  "i < j \<Longrightarrow> j < length cs \<Longrightarrow>
   \<exists>st'. prefix (messages (final (Agent_runs a st cs ! i))) (messages st') \<and>
         Agent_runs a st cs ! j = Agent_run a st' (fst (cs ! j)) (snd (cs ! j))"
proof (induction cs arbitrary: st i j)
  case Nil
  then show ?case by simp
next
  case (Cons c cs)
  obtain inp env where c: "c = (inp, env)" by (cases c)
  from Cons.prems obtain j' where j: "j = Suc j'" and j': "j' < length cs"
    by (cases j) simp_all
  show ?case
  proof (cases i)
    case 0
    from Agent_runs_nth[OF j', where st="final (Agent_run a st inp env)" and a=a]
    show ?thesis using c j 0 by (auto simp: Let_def)
  next
    case (Suc i')
    with Cons.prems j have "i' < j'" by simp
    from Cons.IH[OF this j', where st="final (Agent_run a st inp env)"]
    show ?thesis using c j Suc by (auto simp: Let_def)
  qed
qed

lemma Agent_run_appends:
  assumes "run_stream a st inp env = Some str" and "fault str = None"
    and "response str = Inr rms" and "parts str = pre @ [Finish r u]" and "\<not> has_finish pre"
  shows "messages (final (Agent_run a st inp env)) = messages st @ input_messages inp @ rms \<and>
     done_messages (events (Agent_run a st inp env)) = [messages st @ input_messages inp @ rms]"
proof -
  from run_stream_Some[OF assms(1)] obtain st2 where
    M: "messages st2 = messages st @ input_messages inp" and
    R: "Agent_run a st inp env =
       \<lparr>events = fst (catch_block (Agent_loop (response str) (fault str) (parts str)
            init_vars (messages st2))),
        final = st2\<lparr>messages := snd (catch_block (Agent_loop (response str) (fault str)
            (parts str) init_vars (messages st2)))\<rparr>,
        thrown = None\<rparr>" by blast
  note pre = assms(5)
  from Agent_loop_append[OF pre, of "Inr rms" None "[Finish r u]" init_vars "messages st2"]
  obtain v' where A: "Agent_loop (Inr rms) None (pre @ [Finish r u]) init_vars (messages st2) =
     (fst (Agent_loop (Inr rms) None pre init_vars (messages st2)) @
        fst (Agent_loop (Inr rms) None [Finish r u] v' (messages st2)),
      snd (Agent_loop (Inr rms) None [Finish r u] v' (messages st2)))" by blast
  from Agent_loop_no_finish[OF pre, of "Inr rms" None init_vars "messages st2"]
  have nd: "done_messages (fst (Agent_loop (Inr rms) None pre init_vars (messages st2))) = []"
    by (simp add: done_messages_none)
  have C: "catch_block (Agent_loop (response str) (fault str) (parts str) init_vars (messages st2)) =
     (fst (Agent_loop (Inr rms) None pre init_vars (messages st2)) @
        [Done (finish_result r) (messages st2 @ rms) (toTokenUsage u)], messages st2 @ rms)"
    using assms A by (simp add: catch_block_def Let_def emit_def)
  have "messages (final (Agent_run a st inp env)) = messages st @ input_messages inp @ rms"
    unfolding R C by (simp add: M)
  moreover have "done_messages (events (Agent_run a st inp env)) =
      [messages st @ input_messages inp @ rms]"
    unfolding R C using nd by (simp add: done_messages_append M[symmetric])
  ultimately show ?thesis by blast
qed

text \<open>
  Claim C9. \<open>Agent.run\<close> appends the input to the instance's message list (a string as
  one user message, a list of messages as it is) and then the response messages, and
  no call ever shortens the list. So for consecutive calls on one instance, the messages
  of a done event of a later call have as a prefix the whole message list that any
  earlier call left behind, and with it the messages of every done event of that
  earlier call; and the list after a call, and the messages of its done events, begin
  with the list before the call followed by the input. For a stream that ends with its
  only finish part, the list after the call, and in the done event, is the list before
  the call, then the input, then the response messages.
\<close>

theorem Agent_messages_persist:
  "(i < j \<and> j < length cs \<and> m \<in> set (done_messages (events (Agent_runs a st cs ! j))) \<longrightarrow>
      prefix (messages (final (Agent_runs a st cs ! i))) m \<and>
      (\<forall>m'\<in>set (done_messages (events (Agent_runs a st cs ! i))). prefix m' m)) \<and>
   prefix (messages st @ [\<lparr>role = User, content = CText s\<rparr>])
     (messages (final (Agent_run a st (InputText s) env))) \<and>
   (\<forall>d\<in>set (done_messages (events (Agent_run a st (InputText s) env))).
      prefix (messages st @ [\<lparr>role = User, content = CText s\<rparr>]) d) \<and>
   prefix (messages st @ ms) (messages (final (Agent_run a st (InputMessages ms) env))) \<and>
   (\<forall>d\<in>set (done_messages (events (Agent_run a st (InputMessages ms) env))).
      prefix (messages st @ ms) d) \<and>
   (run_stream a st inp env = Some str \<and> fault str = None \<and> response str = Inr rms \<and>
    parts str = pre @ [Finish r u] \<and> \<not> has_finish pre \<longrightarrow>
      messages (final (Agent_run a st inp env)) =
        messages st @
        (case inp of InputText t \<Rightarrow> [\<lparr>role = User, content = CText t\<rparr>] | InputMessages l \<Rightarrow> l) @
        rms \<and>
      done_messages (events (Agent_run a st inp env)) =
        [messages st @
         (case inp of InputText t \<Rightarrow> [\<lparr>role = User, content = CText t\<rparr>] | InputMessages l \<Rightarrow> l) @
         rms])"
proof (intro conjI impI)
  assume h: "i < j \<and> j < length cs \<and> m \<in> set (done_messages (events (Agent_runs a st cs ! j)))"
  then have ij: "i < j" and j: "j < length cs" and i: "i < length cs" by simp_all
  from Agent_runs_later[OF ij j, where a=a and st=st] obtain stj where
    pj: "prefix (messages (final (Agent_runs a st cs ! i))) (messages stj)" and
    ej: "Agent_runs a st cs ! j = Agent_run a stj (fst (cs ! j)) (snd (cs ! j))" by blast
  from h ej Agent_run_prefix[of stj "fst (cs ! j)" a "snd (cs ! j)"]
  have "prefix (messages stj @ input_messages (fst (cs ! j))) m" by simp
  then have "prefix (messages stj) m" using append_prefixD by blast
  with pj show fin: "prefix (messages (final (Agent_runs a st cs ! i))) m"
    using prefix_order.trans by blast
  from Agent_runs_nth[OF i, where a=a and st=st] obtain sti where
    ei: "Agent_runs a st cs ! i = Agent_run a sti (fst (cs ! i)) (snd (cs ! i))" by blast
  show "\<forall>m'\<in>set (done_messages (events (Agent_runs a st cs ! i))). prefix m' m"
  proof
    fix m' assume "m' \<in> set (done_messages (events (Agent_runs a st cs ! i)))"
    with ei Agent_run_prefix[of sti "fst (cs ! i)" a "snd (cs ! i)"]
    have "prefix m' (messages (final (Agent_runs a st cs ! i)))" by simp
    then show "prefix m' m" using fin prefix_order.trans by blast
  qed
next
  show "prefix (messages st @ [\<lparr>role = User, content = CText s\<rparr>])
     (messages (final (Agent_run a st (InputText s) env)))"
    using Agent_run_prefix[of st "InputText s" a env] by (simp add: input_messages_def)
next
  show "\<forall>d\<in>set (done_messages (events (Agent_run a st (InputText s) env))).
      prefix (messages st @ [\<lparr>role = User, content = CText s\<rparr>]) d"
    using Agent_run_prefix[of st "InputText s" a env] by (simp add: input_messages_def)
next
  show "prefix (messages st @ ms) (messages (final (Agent_run a st (InputMessages ms) env)))"
    using Agent_run_prefix[of st "InputMessages ms" a env] by (simp add: input_messages_def)
next
  show "\<forall>d\<in>set (done_messages (events (Agent_run a st (InputMessages ms) env))).
      prefix (messages st @ ms) d"
    using Agent_run_prefix[of st "InputMessages ms" a env] by (simp add: input_messages_def)
next
  assume h: "run_stream a st inp env = Some str \<and> fault str = None \<and> response str = Inr rms \<and>
    parts str = pre @ [Finish r u] \<and> \<not> has_finish pre"
  then have A: "messages (final (Agent_run a st inp env)) = messages st @ input_messages inp @ rms \<and>
     done_messages (events (Agent_run a st inp env)) = [messages st @ input_messages inp @ rms]"
    using Agent_run_appends[of a st inp env str rms pre r u] by blast
  have I: "input_messages inp =
      (case inp of InputText t \<Rightarrow> [\<lparr>role = User, content = CText t\<rparr>] | InputMessages l \<Rightarrow> l)"
    by (simp add: input_messages_def)
  from A show "messages (final (Agent_run a st inp env)) =
        messages st @
        (case inp of InputText t \<Rightarrow> [\<lparr>role = User, content = CText t\<rparr>] | InputMessages l \<Rightarrow> l) @
        rms" unfolding I by blast
  from A show "done_messages (events (Agent_run a st inp env)) =
        [messages st @
         (case inp of InputText t \<Rightarrow> [\<lparr>role = User, content = CText t\<rparr>] | InputMessages l \<Rightarrow> l) @
         rms]" unfolding I by blast
qed

text \<open>
  The claim at two calls with the same one-step stream, the first with a string and the
  second with a list of two messages as its input.
\<close>

lemma example_Agent_run:
  "Agent_run example_agent st inp (example_env example_stream) =
     \<lparr>events = [Step_start 1, Text_delta ''hi'', Text_done ''hi'',
                Step_done 1 undefined_usage ''stop'',
                Done Complete (messages st @ input_messages inp @
                  [\<lparr>role = Assistant, content = CText ''hi''\<rparr>]) undefined_usage],
      final = st\<lparr>messages := messages st @ input_messages inp @
                  [\<lparr>role = Assistant, content = CText ''hi''\<rparr>]\<rparr>,
      thrown = None\<rparr>"
  by (simp add: Agent_run_def load_step_def example_agent_def example_env_def stream_for_def
      catch_block_def init_vars_def Let_def emit_def example_stream_def finish_result_def
      toTokenUsage_def undefined_usage_def)

theorem Agent_messages_persist_witness:
  "(0::nat) < 1 \<and> 1 < length two_calls \<and>
   second_history \<in>
     set (done_messages (events (Agent_runs example_agent fresh_state two_calls ! 1))) \<and>
   messages (final (Agent_runs example_agent fresh_state two_calls ! 0)) = first_history \<and>
   done_messages (events (Agent_runs example_agent fresh_state two_calls ! 0)) = [first_history] \<and>
   done_messages (events (Agent_runs example_agent fresh_state two_calls ! 1)) = [second_history] \<and>
   prefix first_history second_history \<and>
   run_stream example_agent (fresh_state\<lparr>messages := first_history\<rparr>)
     (InputMessages [\<lparr>role = User, content = CText ''q2''\<rparr>,
                     \<lparr>role = User, content = CText ''and more''\<rparr>])
     (example_env example_stream) = Some example_stream \<and>
   fault example_stream = None \<and>
   response example_stream = Inr [\<lparr>role = Assistant, content = CText ''hi''\<rparr>] \<and>
   parts example_stream =
     [StartStep, TextDelta ''hi'', TextEnd, FinishStep undefined_usage ''stop''] @
     [Finish ''stop'' undefined_usage] \<and>
   messages (final (Agent_run example_agent (fresh_state\<lparr>messages := first_history\<rparr>)
     (InputMessages [\<lparr>role = User, content = CText ''q2''\<rparr>,
                     \<lparr>role = User, content = CText ''and more''\<rparr>])
     (example_env example_stream))) =
     [\<lparr>role = User, content = CText ''q1''\<rparr>, \<lparr>role = Assistant, content = CText ''hi''\<rparr>,
      \<lparr>role = User, content = CText ''q2''\<rparr>, \<lparr>role = User, content = CText ''and more''\<rparr>,
      \<lparr>role = Assistant, content = CText ''hi''\<rparr>]"
proof -
  have r0: "messages (final (Agent_runs example_agent fresh_state two_calls ! 0)) = first_history"
    and d0: "done_messages (events (Agent_runs example_agent fresh_state two_calls ! 0)) =
      [first_history]"
    and d1: "done_messages (events (Agent_runs example_agent fresh_state two_calls ! 1)) =
      [second_history]"
    by (simp_all add: two_calls_def example_Agent_run Let_def fresh_state_def input_messages_def
        first_history_def second_history_def)
  have l: "1 < length two_calls" by (simp add: two_calls_def)
  have m: "second_history \<in>
     set (done_messages (events (Agent_runs example_agent fresh_state two_calls ! 1)))"
    using d1 by simp
  have s: "fault example_stream = None \<and>
      response example_stream = Inr [\<lparr>role = Assistant, content = CText ''hi''\<rparr>] \<and>
      parts example_stream =
        [StartStep, TextDelta ''hi'', TextEnd, FinishStep undefined_usage ''stop''] @
        [Finish ''stop'' undefined_usage] \<and>
      \<not> has_finish [StartStep, TextDelta ''hi'', TextEnd, FinishStep undefined_usage ''stop'']"
    by (simp add: example_stream_def has_finish_def)
  from Agent_messages_persist[where i=0 and j=1 and cs=two_calls and m=second_history
      and a=example_agent and st=fresh_state] l m
  have "prefix (messages (final (Agent_runs example_agent fresh_state two_calls ! 0)))
      second_history" by simp
  then have p: "prefix first_history second_history" using r0 by simp
  have rs: "run_stream example_agent (fresh_state\<lparr>messages := first_history\<rparr>)
     (InputMessages [\<lparr>role = User, content = CText ''q2''\<rparr>,
                     \<lparr>role = User, content = CText ''and more''\<rparr>])
     (example_env example_stream) = Some example_stream"
    by (rule example_run_stream)
  from Agent_messages_persist[where a=example_agent
      and st="fresh_state\<lparr>messages := first_history\<rparr>"
      and inp="InputMessages [\<lparr>role = User, content = CText ''q2''\<rparr>,
                              \<lparr>role = User, content = CText ''and more''\<rparr>]"
      and env="example_env example_stream" and str=example_stream
      and rms="[\<lparr>role = Assistant, content = CText ''hi''\<rparr>]"
      and pre="[StartStep, TextDelta ''hi'', TextEnd, FinishStep undefined_usage ''stop'']"
      and r="''stop''" and u=undefined_usage] s rs
  have "messages (final (Agent_run example_agent (fresh_state\<lparr>messages := first_history\<rparr>)
     (InputMessages [\<lparr>role = User, content = CText ''q2''\<rparr>,
                     \<lparr>role = User, content = CText ''and more''\<rparr>])
     (example_env example_stream))) =
     messages (fresh_state\<lparr>messages := first_history\<rparr>) @
     [\<lparr>role = User, content = CText ''q2''\<rparr>, \<lparr>role = User, content = CText ''and more''\<rparr>] @
     [\<lparr>role = Assistant, content = CText ''hi''\<rparr>]" by simp
  then have c2: "messages (final (Agent_run example_agent (fresh_state\<lparr>messages := first_history\<rparr>)
     (InputMessages [\<lparr>role = User, content = CText ''q2''\<rparr>,
                     \<lparr>role = User, content = CText ''and more''\<rparr>])
     (example_env example_stream))) =
     [\<lparr>role = User, content = CText ''q1''\<rparr>, \<lparr>role = Assistant, content = CText ''hi''\<rparr>,
      \<lparr>role = User, content = CText ''q2''\<rparr>, \<lparr>role = User, content = CText ''and more''\<rparr>,
      \<lparr>role = Assistant, content = CText ''hi''\<rparr>]"
    by (simp add: first_history_def)
  from l m r0 d0 d1 p rs s c2 show ?thesis by simp
qed

section \<open>Properties of the task tool\<close>

text \<open>
  The child copies the template's name, model, system prompt, tools, step budget,
  temperature, token limit and instructions flag, and has no approval callback and no
  observer. Its tools are the template's tools as the template's constructor left them.
\<close>

lemma child_of_copies:
  "name (child_of t) = name t \<and> model (child_of t) = model t \<and>
   systemPrompt (child_of t) = systemPrompt t \<and> tools (child_of t) = tools t \<and>
   maxSteps (child_of t) = maxSteps t \<and> temperature (child_of t) = temperature t \<and>
   maxTokens (child_of t) = maxTokens t \<and> instructions (child_of t) = instructions t \<and>
   approve (child_of t) = None \<and> onSubagentEvent (child_of t) = None \<and>
   description (child_of t) = None"
  by (simp add: child_of_def new_Agent_def)

lemma child_can_delegate: "can_delegate (child_of t) = can_delegate t"
  by (simp add: can_delegate_def child_of_copies)

text \<open>
  Claim C8, at the input where the code departs from it. The template \<open>explore\<close> was
  itself constructed with a subagent, so its tool set holds its own task tool. The
  parent's task tool finds the template by name and constructs the child with
  \<open>tools: template.tools\<close>: the child's tool set holds the template's task tool, the child
  can delegate, and calling that tool runs a grandchild to its end and returns its text.
\<close>

theorem task_child_of_nested_template_delegates:
  "tools parent_agent = Some [(''task'', createTaskTool [nested_template] None)] \<and>
   byName [nested_template] ''explore'' = Some nested_template \<and>
   tools (child_of nested_template) = Some [(''task'', createTaskTool [inner_agent] None)] \<and>
   can_delegate (child_of nested_template) \<and>
   run_executor (example_env example_stream) (Task [inner_agent] None)
     (JObj [(''agent'', JStr ''inner''), (''prompt'', JStr ''go'')]) ''call-2'' =
     Inr (JStr (task_result ''hi''))"
proof -
  have t: "tools (child_of nested_template) = Some [(''task'', createTaskTool [inner_agent] None)]"
    by (simp add: child_of_copies nested_template_def new_Agent_def plain_options_def)
  have p: "tools parent_agent = Some [(''task'', createTaskTool [nested_template] None)]"
    by (simp add: parent_agent_def new_Agent_def plain_options_def)
  have n: "name nested_template = ''explore''" and ni: "name inner_agent = ''inner''"
    by (simp_all add: nested_template_def inner_agent_def new_Agent_def plain_options_def)
  have b: "byName [nested_template] ''explore'' = Some nested_template"
    by (simp add: byName_def n)
  have c: "can_delegate (child_of nested_template)"
    by (simp add: can_delegate_def t createTaskTool_def Let_def)
  have r: "Agent_run (child_of inner_agent) fresh_state (InputText ''go'') (example_env example_stream) =
     \<lparr>events = [Step_start 1, Text_delta ''hi'', Text_done ''hi'',
                Step_done 1 undefined_usage ''stop'',
                Done Complete (messages fresh_state @ input_messages (InputText ''go'') @
                  [\<lparr>role = Assistant, content = CText ''hi''\<rparr>]) undefined_usage],
      final = fresh_state\<lparr>messages := messages fresh_state @ input_messages (InputText ''go'') @
                  [\<lparr>role = Assistant, content = CText ''hi''\<rparr>]\<rparr>,
      thrown = None\<rparr>"
    by (simp add: Agent_run_def load_step_def child_of_copies inner_agent_def new_Agent_def
      plain_options_def example_env_def stream_for_def
      catch_block_def init_vars_def Let_def emit_def example_stream_def finish_result_def
      toTokenUsage_def undefined_usage_def)
  have e: "run_executor (example_env example_stream) (Task [inner_agent] None)
     (JObj [(''agent'', JStr ''inner''), (''prompt'', JStr ''go'')]) ''call-2'' =
     Inr (JStr (task_result ''hi''))"
    by (simp add: task_execute_def byName_def ni r Let_def)
  show ?thesis using t p b c e by simp
qed

section \<open>Properties of tool approval\<close>

lemma String_of_denied: "String_of (ThrownError (ToolDeniedError nm)) = denial_text nm"
  by (simp add: ToolDeniedError_def denial_text_def dquote_def)

lemma map_of_wrapped:
  "map_of (wrapToolsWithApproval ts ap) nm =
     map_option (\<lambda>t. case execute t of
                        None \<Rightarrow> t
                      | Some ex \<Rightarrow> ToolDef (tool_description t) (inputSchema t)
                                     (Some (Gated ap nm ex)))
       (map_of ts nm)"
  unfolding wrapToolsWithApproval_def
  by (induction ts) (auto split: option.splits)

lemma gated_denied:
  "ap \<lparr>toolName = nm, toolCallId = cid, input = inp\<rparr> = Inr False \<Longrightarrow>
   run_executor env (Gated ap nm ex) inp cid = Inl (ThrownError (ToolDeniedError nm))"
  by simp

lemma call_tools_wrapped:
  "approve a = Some ap \<Longrightarrow> tools a = Some ts \<Longrightarrow>
   call_tools (call_of a st) = Some (wrapToolsWithApproval ts ap)"
  by (simp add: call_of_def)

lemma run_stream_call:
  "run_stream a st inp env = Some str \<Longrightarrow> \<exists>st2. str = streamText env (call_of a st2)"
  by (auto simp: run_stream_def split: sum.splits)

text \<open>
  Claim C3. Let the agent have an approval callback and a tool \<open>nm\<close> with an \<open>execute\<close>
  function, and let the callback return false for a call of it. Then the gating closure
  throws the \<open>ToolDeniedError\<close> naming the tool without running the tool; the provider,
  which was handed the wrapped tools, turns that into a tool-error part and hands the
  denial back to the model as a tool result; and for a stream that holds these parts and
  ends with its finish part, \<open>Agent.run\<close> yields tool.start and then tool.error with
  the text of the denied error for that call, goes on with the rest of the stream, ends
  with the done event of the finish part, and throws nothing.
\<close>

theorem denied_tool_call_is_tool_error:
  assumes ap: "approve a = Some ap" and ts: "tools a = Some ts"
    and t: "map_of ts nm = Some t" and ex: "execute t = Some ex"
    and no: "ap \<lparr>toolName = nm, toolCallId = cid, input = inp\<rparr> = Inr False"
    and rs: "run_stream a st inp0 env0 = Some str"
    and ps: "parts str =
       pre @ fst (provider_tool_call env (wrapToolsWithApproval ts ap) cid nm inp) @ post @
       [Finish r u]"
    and nf: "\<not> has_finish pre" "\<not> has_finish post"
    and ok: "fault str = None" "response str = Inr rms"
  shows "run_executor env (Gated ap nm ex) inp cid = Inl (ThrownError (ToolDeniedError nm)) \<and>
     provider_tool_call env (wrapToolsWithApproval ts ap) cid nm inp =
       ([ToolCall cid nm inp, ToolErrorPart cid nm (ThrownError (ToolDeniedError nm))],
        Some (tool_result_message cid nm (JStr (denial_text nm)))) \<and>
     (\<exists>st2. str = streamText env0 (call_of a st2) \<and>
            call_tools (call_of a st2) = Some (wrapToolsWithApproval ts ap)) \<and>
     (\<exists>es1 es2. events (Agent_run a st inp0 env0) =
        es1 @ [Tool_start cid nm inp, Tool_error cid nm (denial_text nm)] @ es2 @
        [Done (finish_result r) (messages st @ input_messages inp0 @ rms) (toTokenUsage u)] \<and>
        \<not> list_ex is_done (es1 @ es2)) \<and>
     thrown (Agent_run a st inp0 env0) = None"
proof -
  have g: "run_executor env (Gated ap nm ex) inp cid = Inl (ThrownError (ToolDeniedError nm))"
    using no by simp
  have p: "provider_tool_call env (wrapToolsWithApproval ts ap) cid nm inp =
       ([ToolCall cid nm inp, ToolErrorPart cid nm (ThrownError (ToolDeniedError nm))],
        Some (tool_result_message cid nm (JStr (denial_text nm))))"
    using t ex no
    by (simp add: provider_tool_call_def map_of_wrapped String_of_denied)
  from run_stream_call[OF rs] call_tools_wrapped[OF ap ts]
  have c: "\<exists>st2. str = streamText env0 (call_of a st2) \<and>
            call_tools (call_of a st2) = Some (wrapToolsWithApproval ts ap)" by blast
  from run_stream_Some[OF rs] obtain st2 where
    M: "messages st2 = messages st @ input_messages inp0" and
    R: "Agent_run a st inp0 env0 =
       \<lparr>events = fst (catch_block (Agent_loop (response str) (fault str) (parts str)
            init_vars (messages st2))),
        final = st2\<lparr>messages := snd (catch_block (Agent_loop (response str) (fault str)
            (parts str) init_vars (messages st2)))\<rparr>,
        thrown = None\<rparr>" by blast
  let ?den = "ThrownError (ToolDeniedError nm)"
  let ?rest = "ToolCall cid nm inp # ToolErrorPart cid nm ?den # post @ [Finish r u]"
  have P: "parts str = pre @ ?rest" using ps p by simp
  from Agent_loop_append[OF nf(1), of "Inr rms" None ?rest init_vars "messages st2"]
  obtain v1 where A1: "Agent_loop (Inr rms) None (pre @ ?rest) init_vars (messages st2) =
     (fst (Agent_loop (Inr rms) None pre init_vars (messages st2)) @
        fst (Agent_loop (Inr rms) None ?rest v1 (messages st2)),
      snd (Agent_loop (Inr rms) None ?rest v1 (messages st2)))" by blast
  from Agent_loop_append[OF nf(2), of "Inr rms" None "[Finish r u]" v1 "messages st2"]
  obtain v2 where A2: "Agent_loop (Inr rms) None (post @ [Finish r u]) v1 (messages st2) =
     (fst (Agent_loop (Inr rms) None post v1 (messages st2)) @
        fst (Agent_loop (Inr rms) None [Finish r u] v2 (messages st2)),
      snd (Agent_loop (Inr rms) None [Finish r u] v2 (messages st2)))" by blast
  define es1 where "es1 = fst (Agent_loop (Inr rms) None pre init_vars (messages st2))"
  define es2 where "es2 = fst (Agent_loop (Inr rms) None post v1 (messages st2))"
  have nd: "\<not> list_ex is_done (es1 @ es2)"
    using Agent_loop_no_finish[OF nf(1), of "Inr rms" None init_vars "messages st2"]
      Agent_loop_no_finish[OF nf(2), of "Inr rms" None v1 "messages st2"]
    by (simp add: es1_def es2_def)
  have L: "Agent_loop (response str) (fault str) (parts str) init_vars (messages st2) =
     (es1 @ [Tool_start cid nm inp, Tool_error cid nm (denial_text nm)] @ es2 @
        [Done (finish_result r) (messages st2 @ rms) (toTokenUsage u)],
      messages st2 @ rms, None)"
    unfolding ok P A1
    by (simp add: A2 es1_def es2_def emit_def String_of_denied Let_def split: prod.splits)
  have ev: "events (Agent_run a st inp0 env0) =
        es1 @ [Tool_start cid nm inp, Tool_error cid nm (denial_text nm)] @ es2 @
        [Done (finish_result r) (messages st @ input_messages inp0 @ rms) (toTokenUsage u)]"
    unfolding R L by (simp add: catch_block_def M)
  have th: "thrown (Agent_run a st inp0 env0) = None" by (simp add: R)
  from ev nd have "\<exists>es1 es2. events (Agent_run a st inp0 env0) =
        es1 @ [Tool_start cid nm inp, Tool_error cid nm (denial_text nm)] @ es2 @
        [Done (finish_result r) (messages st @ input_messages inp0 @ rms) (toTokenUsage u)] \<and>
        \<not> list_ex is_done (es1 @ es2)" by blast
  with g p c th show ?thesis by simp
qed

text \<open>The claim at an agent that denies a call of its only tool.\<close>

theorem denied_tool_call_is_tool_error_witness:
  "approve guarded_agent = Some deny_all \<and> tools guarded_agent = Some guarded_tools \<and>
   map_of guarded_tools ''writeFile'' = Some write_tool \<and>
   execute write_tool = Some (Extern ok_tool) \<and>
   deny_all \<lparr>toolName = ''writeFile'', toolCallId = ''c1'', input = JStr ''x''\<rparr> = Inr False \<and>
   run_stream guarded_agent fresh_state (InputText ''q'') (example_env denied_stream) =
     Some denied_stream \<and>
   parts denied_stream =
     [StartStep] @
     fst (provider_tool_call (example_env example_stream)
            (wrapToolsWithApproval guarded_tools deny_all) ''c1'' ''writeFile'' (JStr ''x'')) @
     [FinishStep undefined_usage ''stop''] @ [Finish ''stop'' undefined_usage] \<and>
   provider_tool_call (example_env example_stream)
     (wrapToolsWithApproval guarded_tools deny_all) ''c1'' ''writeFile'' (JStr ''x'') =
     ([ToolCall ''c1'' ''writeFile'' (JStr ''x''),
       ToolErrorPart ''c1'' ''writeFile'' (ThrownError (ToolDeniedError ''writeFile''))],
      Some (tool_result_message ''c1'' ''writeFile'' (JStr (denial_text ''writeFile'')))) \<and>
   events (Agent_run guarded_agent fresh_state (InputText ''q'') (example_env denied_stream)) =
     [Step_start 1, Tool_start ''c1'' ''writeFile'' (JStr ''x''),
      Tool_error ''c1'' ''writeFile'' (denial_text ''writeFile''),
      Step_done 1 undefined_usage ''stop'',
      Done Complete [\<lparr>role = User, content = CText ''q''\<rparr>] undefined_usage] \<and>
   thrown (Agent_run guarded_agent fresh_state (InputText ''q'') (example_env denied_stream)) = None"
proof -
  have h1: "approve guarded_agent = Some deny_all" and h2: "tools guarded_agent = Some guarded_tools"
    by (simp_all add: guarded_agent_def)
  have h3: "map_of guarded_tools ''writeFile'' = Some write_tool"
    by (simp add: guarded_tools_def)
  have h4: "execute write_tool = Some (Extern ok_tool)" by (simp add: write_tool_def)
  have h5: "deny_all \<lparr>toolName = ''writeFile'', toolCallId = ''c1'', input = JStr ''x''\<rparr> = Inr False"
    by (simp add: deny_all_def)
  have h6: "run_stream guarded_agent fresh_state (InputText ''q'') (example_env denied_stream) =
     Some denied_stream"
    by (simp add: run_stream_def load_step_def guarded_agent_def example_env_def stream_for_def)
  have pc: "fst (provider_tool_call (example_env example_stream)
            (wrapToolsWithApproval guarded_tools deny_all) ''c1'' ''writeFile'' (JStr ''x'')) =
     [ToolCall ''c1'' ''writeFile'' (JStr ''x''),
      ToolErrorPart ''c1'' ''writeFile'' (ThrownError (ToolDeniedError ''writeFile''))]"
    by (simp add: provider_tool_call_def wrapToolsWithApproval_def guarded_tools_def
        write_tool_def deny_all_def)
  have h7: "parts denied_stream =
     [StartStep] @
     fst (provider_tool_call (example_env example_stream)
            (wrapToolsWithApproval guarded_tools deny_all) ''c1'' ''writeFile'' (JStr ''x'')) @
     [FinishStep undefined_usage ''stop''] @ [Finish ''stop'' undefined_usage]"
    unfolding pc by (simp add: denied_stream_def)
  have h8: "\<not> has_finish [StartStep]" and h9: "\<not> has_finish [FinishStep undefined_usage ''stop'']"
    by (simp_all add: has_finish_def)
  have h10: "fault denied_stream = None" and h11: "response denied_stream = Inr []"
    by (simp_all add: denied_stream_def)
  have ev: "events (Agent_run guarded_agent fresh_state (InputText ''q'') (example_env denied_stream)) =
     [Step_start 1, Tool_start ''c1'' ''writeFile'' (JStr ''x''),
      Tool_error ''c1'' ''writeFile'' (denial_text ''writeFile''),
      Step_done 1 undefined_usage ''stop'',
      Done Complete [\<lparr>role = User, content = CText ''q''\<rparr>] undefined_usage]"
    by (simp add: Agent_run_def load_step_def guarded_agent_def example_env_def stream_for_def
      catch_block_def init_vars_def Let_def emit_def denied_stream_def finish_result_def
      toTokenUsage_def undefined_usage_def fresh_state_def input_messages_def String_of_denied)
  from denied_tool_call_is_tool_error[OF h1 h2 h3 h4 h5 h6 h7 h8 h9 h10 h11]
  show ?thesis using h1 h2 h3 h4 h5 h6 h7 ev by simp
qed

section \<open>Properties of pruning\<close>

lemma find_boundary_le:
  "k \<le> length result \<Longrightarrow> find_boundary est p result k acc \<le> length result"
  by (induction k arbitrary: acc) (auto simp: Let_def)

lemma boundary_of_le: "boundary_of est p msgs \<le> length msgs"
  by (simp add: boundary_of_def find_boundary_le)

lemma prune_loop_step:
  assumes "i < b" and "b \<le> length R"
  shows "prune_loop est b i R s m =
     prune_loop est b (Suc i) (R[i := prune_message (R ! i)]) (s + saved_at est (R ! i))
       (m + (if role (R ! i) = Tool then 1 else 0))"
proof -
  from assms have i: "i < length R" by simp
  show ?thesis
  proof (cases "role (R ! i) = Tool")
    case False
    then show ?thesis using assms
      by (subst prune_loop.simps) (simp add: prune_message_def saved_at_def)
  next
    case True
    show ?thesis
    proof (cases "content (R ! i)")
      case (CText t)
      then show ?thesis using assms True
        by (subst prune_loop.simps)
           (simp add: prune_message_def saved_at_def estimateMessageTokens_def Let_def)
    next
      case (CParts ps)
      then show ?thesis using assms True i
        by (subst prune_loop.simps)
           (simp add: prune_message_def saved_at_def estimateMessageTokens_def Let_def)
    qed
  qed
qed

lemma prune_loop_done: "\<not> i < b \<Longrightarrow> prune_loop est b i R s m = (R, s, m)"
  by (subst prune_loop.simps) simp

lemma prune_loop_char:
  assumes "b \<le> length R" and "i \<le> b"
  shows "prune_loop est b i R s m =
     (take i R @ map prune_message (take (b - i) (drop i R)) @ drop b R,
      s + sum_list (map (saved_at est) (take (b - i) (drop i R))),
      m + length (filter (\<lambda>x. role x = Tool) (take (b - i) (drop i R))))"
  using assms
proof (induction "b - i" arbitrary: i R s m)
  case 0
  then have "i = b" by simp
  then show ?case by (simp add: prune_loop_done)
next
  case (Suc n)
  then have ib: "i < b" and n: "n = b - Suc i" and iR: "i < length R" by simp_all
  have len: "b \<le> length (R[i := prune_message (R ! i)])" using Suc.prems by simp
  have d: "drop i R = R ! i # drop (Suc i) R" using iR by (simp add: Cons_nth_drop_Suc)
  have t: "take (b - i) (drop i R) = R ! i # take (b - Suc i) (drop (Suc i) R)"
  proof -
    from ib have "b - i = Suc (b - Suc i)" by simp
    then show ?thesis using d by simp
  qed
  have u1: "take (Suc i) (R[i := prune_message (R ! i)]) = take i R @ [prune_message (R ! i)]"
    using iR by (simp add: take_Suc_conv_app_nth)
  have u2: "drop (Suc i) (R[i := prune_message (R ! i)]) = drop (Suc i) R" by simp
  have u3: "drop b (R[i := prune_message (R ! i)]) = drop b R" using ib by simp
  show ?case
    unfolding prune_loop_step[OF ib Suc.prems(1)]
    using Suc.hyps(1)[OF n len] ib
    by (simp add: u1 u2 u3 t)
qed

lemma pruneToolResults_eq:
  "pruneToolResults msgs prot minSavings est =
     (let b = boundary_of est prot msgs;
          s = sum_list (map (saved_at est) (take b msgs))
      in if s < minSavings
         then \<lparr>pr_messages = msgs, pr_tokensSaved = 0, pr_messagesModified = 0\<rparr>
         else \<lparr>pr_messages = map prune_message (take b msgs) @ drop b msgs, pr_tokensSaved = s,
               pr_messagesModified = length (filter (\<lambda>x. role x = Tool) (take b msgs))\<rparr>)"
  using prune_loop_char[OF boundary_of_le, of 0 est prot msgs est 0 0]
  by (simp add: pruneToolResults_def boundary_of_def[symmetric] Let_def)

lemma prune_savings_eq:
  "prune_savings est prot msgs =
     sum_list (map (saved_at est) (take (boundary_of est prot msgs) msgs))"
  using prune_loop_char[OF boundary_of_le, of 0 est prot msgs est 0 0]
  by (simp add: prune_savings_def)



lemma saved_at_diff: "saved_at est x = est [x] - est [prune_message x]"
  by (simp add: saved_at_def prune_message_def)











lemma tool_message_pruned: "prune_message (tool_message r) = tool_message ''[pruned]''"
  by (simp add: prune_message_def tool_message_def prune_part_def)

lemma payload_chars_tool_message: "payload_chars (tool_message r) = length r"
  by (simp add: payload_chars_def tool_message_def)

lemma saved_at_tool_message:
  "saved_at est (tool_message r) = est [tool_message r] - est [tool_message ''[pruned]'']"
  by (simp add: saved_at_diff tool_message_pruned)



lemma take_long_history: "take (Suc 0) long_history = [tool_message ''0123456789abc'']"
  and drop_long_history: "drop (Suc 0) long_history = [\<lparr>role = User, content = CText ''hello''\<rparr>]"
  by (simp_all add: long_history_def)






section \<open>Properties of the default compaction strategy\<close>

lemma compact_test:
  "(pr_tokensSaved (pruneToolResults msgs prot minSavings est) < minSavings) =
   (prune_savings est prot msgs < minSavings \<and> 0 < minSavings)"
  by (auto simp: pruneToolResults_eq prune_savings_eq Let_def)

text \<open>
  Claim C10 (as amended). The claim as stated fails in its remark on \<open>compact\<close>: with a
  minimum of zero and negative savings, \<open>pruneToolResults\<close> returns its argument and zero
  savings, and zero savings pass the test of \<open>compact\<close>, which returns the unchanged
  history without a summary (\<open>compact_without_minimum_counterexample\<close> below). What holds:
  for every message list, when the estimated savings are below the minimum,
  \<open>pruneToolResults\<close> returns its argument with zero savings and zero messages modified;
  when the minimum is positive as well, \<open>compact\<close> is the summarization; and whenever
  \<open>pruneToolResults\<close> returns anything other than its argument, that is the history with
  every eligible message pruned and the reported savings reach the minimum.
\<close>

theorem pruning_all_or_nothing:
  "(prune_savings est prot msgs < minSavings \<longrightarrow>
      pruneToolResults msgs prot minSavings est =
        \<lparr>pr_messages = msgs, pr_tokensSaved = 0, pr_messagesModified = 0\<rparr>) \<and>
   (prune_savings (estimateTokens strat) (protectedTokens strat) (ctx_messages ctx)
        < minPruneSavings strat \<and> 0 < minPruneSavings strat \<longrightarrow>
      compact strat env ctx = summarize strat env ctx) \<and>
   (pr_messages (pruneToolResults msgs prot minSavings est) \<noteq> msgs \<longrightarrow>
      pr_messages (pruneToolResults msgs prot minSavings est) =
        map prune_message (take (boundary_of est prot msgs) msgs) @
        drop (boundary_of est prot msgs) msgs \<and>
      minSavings \<le> pr_tokensSaved (pruneToolResults msgs prot minSavings est) \<and>
      pr_tokensSaved (pruneToolResults msgs prot minSavings est) = prune_savings est prot msgs)"
proof (intro conjI impI)
  assume "prune_savings est prot msgs < minSavings"
  then show "pruneToolResults msgs prot minSavings est =
        \<lparr>pr_messages = msgs, pr_tokensSaved = 0, pr_messagesModified = 0\<rparr>"
    by (simp add: pruneToolResults_eq prune_savings_eq Let_def)
next
  assume "prune_savings (estimateTokens strat) (protectedTokens strat) (ctx_messages ctx)
        < minPruneSavings strat \<and> 0 < minPruneSavings strat"
  then have "pr_tokensSaved (pruneToolResults (ctx_messages ctx) (protectedTokens strat)
                (minPruneSavings strat) (estimateTokens strat)) < minPruneSavings strat"
    by (simp add: compact_test)
  then show "compact strat env ctx = summarize strat env ctx"
    by (simp add: compact_def Let_def)
next
  assume ne: "pr_messages (pruneToolResults msgs prot minSavings est) \<noteq> msgs"
  then have ge: "\<not> prune_savings est prot msgs < minSavings"
    by (auto simp: pruneToolResults_eq prune_savings_eq Let_def)
  then show "pr_messages (pruneToolResults msgs prot minSavings est) =
        map prune_message (take (boundary_of est prot msgs) msgs) @
        drop (boundary_of est prot msgs) msgs"
    by (simp add: pruneToolResults_eq prune_savings_eq Let_def)
  from ge show "minSavings \<le> pr_tokensSaved (pruneToolResults msgs prot minSavings est)"
    by (simp add: pruneToolResults_eq prune_savings_eq Let_def)
  from ge show "pr_tokensSaved (pruneToolResults msgs prot minSavings est) =
      prune_savings est prot msgs"
    by (simp add: pruneToolResults_eq prune_savings_eq Let_def)
qed

lemma take_short_history: "take (Suc 0) short_history = [tool_message ''ok'']"
  and drop_short_history: "drop (Suc 0) short_history = [\<lparr>role = User, content = CText ''hello''\<rparr>]"
  by (simp_all add: short_history_def)

lemma short_history_boundary: "boundary_of quarter_estimate 1 short_history = 1"
  by (simp add: boundary_of_def short_history_def quarter_estimate_def payload_chars_def
        estimateMessageTokens_def Let_def)

lemma short_history_savings: "prune_savings quarter_estimate 1 short_history = - 1"
  by (simp add: prune_savings_eq short_history_boundary take_short_history
      saved_at_tool_message quarter_estimate_def payload_chars_tool_message)

text \<open>
  The claim at a tool result that is shorter than the placeholder, with a minimum of 1:
  nothing is pruned, and \<open>compact\<close> summarizes.
\<close>

theorem pruning_all_or_nothing_witness:
  "prune_savings quarter_estimate 1 short_history < 1 \<and>
   pruneToolResults short_history 1 1 quarter_estimate =
     \<lparr>pr_messages = short_history, pr_tokensSaved = 0, pr_messagesModified = 0\<rparr> \<and>
   prune_savings (estimateTokens (no_minimum\<lparr>minPruneSavings := 1\<rparr>))
     (protectedTokens (no_minimum\<lparr>minPruneSavings := 1\<rparr>))
     (ctx_messages (context_of short_history)) < minPruneSavings (no_minimum\<lparr>minPruneSavings := 1\<rparr>) \<and>
   (0::int) < minPruneSavings (no_minimum\<lparr>minPruneSavings := 1\<rparr>) \<and>
   compact (no_minimum\<lparr>minPruneSavings := 1\<rparr>) summary_env (context_of short_history) =
     summarize (no_minimum\<lparr>minPruneSavings := 1\<rparr>) summary_env (context_of short_history) \<and>
   pr_messages (pruneToolResults long_history 1 2 quarter_estimate) \<noteq> long_history \<and>
   2 \<le> pr_tokensSaved (pruneToolResults long_history 1 2 quarter_estimate)"
proof -
  have h1: "prune_savings quarter_estimate 1 short_history < 1"
    by (simp add: short_history_savings)
  have h2: "prune_savings (estimateTokens (no_minimum\<lparr>minPruneSavings := 1\<rparr>))
     (protectedTokens (no_minimum\<lparr>minPruneSavings := 1\<rparr>))
     (ctx_messages (context_of short_history)) < minPruneSavings (no_minimum\<lparr>minPruneSavings := 1\<rparr>)
     \<and> (0::int) < minPruneSavings (no_minimum\<lparr>minPruneSavings := 1\<rparr>)"
    by (simp add: no_minimum_def context_of_def short_history_savings)
  have s1: "saved_at quarter_estimate (tool_message ''0123456789abc'') = 2"
    by (simp add: saved_at_tool_message quarter_estimate_def payload_chars_tool_message)
  have bd: "boundary_of quarter_estimate 1 long_history = 1"
    by (simp add: boundary_of_def long_history_def quarter_estimate_def payload_chars_def
        estimateMessageTokens_def Let_def)
  have h3: "pr_messages (pruneToolResults long_history 1 2 quarter_estimate) \<noteq> long_history"
    by (simp add: pruneToolResults_eq Let_def bd take_long_history drop_long_history s1
        tool_message_pruned)
       (simp add: long_history_def tool_message_def)
  from pruning_all_or_nothing[of quarter_estimate 1 short_history 1
      "no_minimum\<lparr>minPruneSavings := 1\<rparr>" "context_of short_history" summary_env] h1 h2
  have a: "pruneToolResults short_history 1 1 quarter_estimate =
     \<lparr>pr_messages = short_history, pr_tokensSaved = 0, pr_messagesModified = 0\<rparr>"
    and b: "compact (no_minimum\<lparr>minPruneSavings := 1\<rparr>) summary_env (context_of short_history) =
     summarize (no_minimum\<lparr>minPruneSavings := 1\<rparr>) summary_env (context_of short_history)"
    by blast+
  from pruning_all_or_nothing[of quarter_estimate 1 long_history 2
      "no_minimum\<lparr>minPruneSavings := 1\<rparr>" "context_of short_history" summary_env] h3
  have c: "2 \<le> pr_tokensSaved (pruneToolResults long_history 1 2 quarter_estimate)" by blast
  show ?thesis using h1 h2 h3 a b c by simp
qed

text \<open>
  The claim C10 as stated fails here. The minimum is 0 and the tool result is shorter
  than the placeholder, so the savings are negative and \<open>pruneToolResults\<close> returns its
  argument and zero savings; \<open>compact\<close> returns the unchanged history and no summary,
  although the model would have answered.
\<close>

theorem compact_without_minimum_counterexample:
  "prune_savings (estimateTokens no_minimum) (protectedTokens no_minimum) short_history
     < minPruneSavings no_minimum \<and>
   pruneToolResults short_history (protectedTokens no_minimum) (minPruneSavings no_minimum)
       (estimateTokens no_minimum) =
     \<lparr>pr_messages = short_history, pr_tokensSaved = 0, pr_messagesModified = 0\<rparr> \<and>
   compact no_minimum summary_env (context_of short_history) =
     Inr \<lparr>res_messages = short_history, res_summary = None, res_messagesRemoved = 0,
          res_tokensPruned = 0\<rparr> \<and>
   summarize no_minimum summary_env (context_of short_history) =
     Inr \<lparr>res_messages = [summary_message ''S''], res_summary = Some ''S'',
          res_messagesRemoved = 1,
          res_tokensPruned = quarter_estimate short_history -
                             quarter_estimate [summary_message ''S'']\<rparr>"
proof -
  have sv: "prune_savings quarter_estimate 1 short_history < 0"
    by (simp add: short_history_savings)
  have pr: "pruneToolResults short_history 1 0 quarter_estimate =
     \<lparr>pr_messages = short_history, pr_tokensSaved = 0, pr_messagesModified = 0\<rparr>"
    using sv by (simp add: pruneToolResults_eq prune_savings_eq Let_def)
  have cp: "compact no_minimum summary_env (context_of short_history) =
     Inr \<lparr>res_messages = short_history, res_summary = None, res_messagesRemoved = 0,
          res_tokensPruned = 0\<rparr>"
    by (simp add: compact_def no_minimum_def context_of_def pr Let_def)
  have sm: "summarize no_minimum summary_env (context_of short_history) =
     Inr \<lparr>res_messages = [summary_message ''S''], res_summary = Some ''S'',
          res_messagesRemoved = 1,
          res_tokensPruned = quarter_estimate short_history -
                             quarter_estimate [summary_message ''S'']\<rparr>"
    by (simp add: summarize_def summary_env_def fixed_summary_def no_minimum_def context_of_def
        Let_def short_history_def)
  show ?thesis using sv pr cp sm by (simp add: no_minimum_def)
qed

text \<open>
  Claim C7 (as amended). The claim as stated fails when the minimum is not positive:
  below the minimum \<open>pruneToolResults\<close> reports zero savings, and zero savings pass the
  test of \<open>compact\<close> against a minimum of zero, so that \<open>compact\<close> returns the unchanged
  history and no summary (\<open>compact_below_zero_minimum_counterexample\<close> below). What
  holds: when the estimated savings of pruning are below the minimum, the minimum is
  positive and the model returns a summary, \<open>compact\<close> returns exactly one message: a
  user message whose text is the summary between the marker of a previous conversation
  summary and the marker that the conversation continues from here. \<open>messagesRemoved\<close>
  is the number of messages of the context minus one, the summary is returned, and the
  tokens pruned are the estimate of the context's messages minus the estimate of the
  one message.
\<close>

theorem compact_summarizes:
  assumes "prune_savings (estimateTokens strat) (protectedTokens strat) (ctx_messages ctx)
             < minPruneSavings strat"
    and "0 < minPruneSavings strat"
    and "generateText env (summary_call strat env ctx) = Inr summary"
  shows "compact strat env ctx =
     Inr \<lparr>res_messages =
            [\<lparr>role = User,
              content = CText (''[Previous conversation summary]'' @ newline @ newline @
                               summary @ newline @ newline @
                               ''[The conversation continues from here]'')\<rparr>],
          res_summary = Some summary,
          res_messagesRemoved = int (length (ctx_messages ctx)) - 1,
          res_tokensPruned =
            estimateTokens strat (ctx_messages ctx) -
            estimateTokens strat
              [\<lparr>role = User,
                content = CText (''[Previous conversation summary]'' @ newline @ newline @
                                 summary @ newline @ newline @
                                 ''[The conversation continues from here]'')\<rparr>]\<rparr>"
proof -
  from assms(1,2) have "pr_tokensSaved (pruneToolResults (ctx_messages ctx) (protectedTokens strat)
             (minPruneSavings strat) (estimateTokens strat)) < minPruneSavings strat"
    by (simp add: compact_test)
  then show ?thesis
    using assms(3) by (simp add: compact_def summarize_def summary_message_def Let_def)
qed

text \<open>The claim at the short history with a minimum of 1 and a model that answers \<open>S\<close>.\<close>

theorem compact_summarizes_witness:
  "prune_savings (estimateTokens (no_minimum\<lparr>minPruneSavings := 1\<rparr>))
       (protectedTokens (no_minimum\<lparr>minPruneSavings := 1\<rparr>))
       (ctx_messages (context_of short_history))
     < minPruneSavings (no_minimum\<lparr>minPruneSavings := 1\<rparr>) \<and>
   0 < minPruneSavings (no_minimum\<lparr>minPruneSavings := 1\<rparr>) \<and>
   generateText summary_env
       (summary_call (no_minimum\<lparr>minPruneSavings := 1\<rparr>) summary_env (context_of short_history)) =
     Inr ''S'' \<and>
   compact (no_minimum\<lparr>minPruneSavings := 1\<rparr>) summary_env (context_of short_history) =
     Inr \<lparr>res_messages =
            [\<lparr>role = User,
              content = CText (''[Previous conversation summary]'' @ newline @ newline @
                               ''S'' @ newline @ newline @
                               ''[The conversation continues from here]'')\<rparr>],
          res_summary = Some ''S'',
          res_messagesRemoved = 1,
          res_tokensPruned = quarter_estimate short_history -
                             quarter_estimate [summary_message ''S'']\<rparr>"
proof -
  have h1: "prune_savings (estimateTokens (no_minimum\<lparr>minPruneSavings := 1\<rparr>))
       (protectedTokens (no_minimum\<lparr>minPruneSavings := 1\<rparr>))
       (ctx_messages (context_of short_history))
     < minPruneSavings (no_minimum\<lparr>minPruneSavings := 1\<rparr>)"
    and h2: "0 < minPruneSavings (no_minimum\<lparr>minPruneSavings := 1\<rparr>)"
    by (simp_all add: no_minimum_def context_of_def short_history_savings)
  have h3: "generateText summary_env
       (summary_call (no_minimum\<lparr>minPruneSavings := 1\<rparr>) summary_env (context_of short_history)) =
     Inr ''S''"
    by (simp add: summary_env_def fixed_summary_def)
  from compact_summarizes[OF h1 h2 h3] h1 h2 h3 show ?thesis
    by (simp add: summary_message_def no_minimum_def context_of_def short_history_def)
qed

lemma empty_result_boundary: "boundary_of quarter_estimate 1 empty_result_history = 1"
  by (simp add: boundary_of_def empty_result_history_def quarter_estimate_def payload_chars_def
        estimateMessageTokens_def Let_def)

lemma take_empty_result_history: "take (Suc 0) empty_result_history = [tool_message []]"
  by (simp add: empty_result_history_def)

lemma empty_result_savings: "prune_savings quarter_estimate 1 empty_result_history = - 2"
  by (simp add: prune_savings_eq empty_result_boundary take_empty_result_history
      saved_at_tool_message quarter_estimate_def payload_chars_tool_message)

text \<open>
  The claim C7 as stated fails here. The minimum is 0 and the tool result is empty, so
  replacing it by the placeholder saves minus two tokens: pruning does not clear the
  threshold. \<open>compact\<close> returns the unchanged history and no summary, although the
  model would have answered \<open>S\<close>.
\<close>

theorem compact_below_zero_minimum_counterexample:
  "prune_savings (estimateTokens no_minimum) (protectedTokens no_minimum)
       (ctx_messages (context_of empty_result_history)) = - 2 \<and>
   minPruneSavings no_minimum = 0 \<and>
   generateText summary_env (summary_call no_minimum summary_env (context_of empty_result_history)) =
     Inr ''S'' \<and>
   compact no_minimum summary_env (context_of empty_result_history) =
     Inr \<lparr>res_messages = empty_result_history, res_summary = None, res_messagesRemoved = 0,
          res_tokensPruned = 0\<rparr>"
proof -
  have sv: "prune_savings quarter_estimate 1 empty_result_history = - 2"
    by (rule empty_result_savings)
  have pr: "pruneToolResults empty_result_history 1 0 quarter_estimate =
     \<lparr>pr_messages = empty_result_history, pr_tokensSaved = 0, pr_messagesModified = 0\<rparr>"
    using sv by (simp add: pruneToolResults_eq prune_savings_eq Let_def)
  have cp: "compact no_minimum summary_env (context_of empty_result_history) =
     Inr \<lparr>res_messages = empty_result_history, res_summary = None, res_messagesRemoved = 0,
          res_tokensPruned = 0\<rparr>"
    by (simp add: compact_def no_minimum_def context_of_def pr Let_def)
  have g: "generateText summary_env
      (summary_call no_minimum summary_env (context_of empty_result_history)) = Inr ''S''"
    by (simp add: summary_env_def fixed_summary_def)
  show ?thesis using sv cp g by (simp add: no_minimum_def context_of_def)
qed

section \<open>Properties of the retry loop\<close>

lemma fst_yield [simp]: "fst (yield e r) = e # fst r"
  and snd_yield [simp]: "snd (yield e r) = snd r"
  by (simp_all add: yield_def)

lemma consume_plain:
  "plain pre \<Longrightarrow>
   \<exists>tv'. consume S env snap k (pre @ es) tv =
           (map AgentEv pre @ fst (consume S env snap k es tv'),
            snd (consume S env snap k es tv')) \<and>
         hasYieldedContent tv' = (hasYieldedContent tv \<or> list_ex is_content pre) \<and>
         session_messages (tv_state tv') = session_messages (tv_state tv) \<and>
         turnUsage tv' = turnUsage tv"
proof (induction pre arbitrary: tv)
  case Nil
  show ?case by (rule exI[of _ tv]) simp
next
  case (Cons e pre)
  then have pl: "plain pre" and nd: "\<not> is_done e" and ne: "\<not> is_error e"
    by (simp_all add: plain_def)
  define tv0 where "tv0 =
    (case e of
       Text_delta t \<Rightarrow> tv\<lparr>hasYieldedContent := True\<rparr>
     | Tool_start cid nm inp \<Rightarrow> tv\<lparr>hasYieldedContent := True\<rparr>
     | Step_done n u reason \<Rightarrow>
         tv\<lparr>tv_state := (tv_state tv)
              \<lparr>lastInputTokens := (case inputTokens u of None \<Rightarrow> 0 | Some x \<Rightarrow> x)\<rparr>\<rparr>
     | _ \<Rightarrow> tv)"
  have step: "consume S env snap k (e # pre @ es) tv =
      yield (AgentEv e) (consume S env snap k (pre @ es) tv0)"
    using nd ne by (cases e) (simp_all add: tv0_def)
  have p0: "hasYieldedContent tv0 = (hasYieldedContent tv \<or> is_content e) \<and>
      session_messages (tv_state tv0) = session_messages (tv_state tv) \<and>
      turnUsage tv0 = turnUsage tv"
    by (cases e) (simp_all add: tv0_def)
  from Cons.IH[OF pl, of tv0] obtain tv' where
    c: "consume S env snap k (pre @ es) tv0 =
           (map AgentEv pre @ fst (consume S env snap k es tv'),
            snd (consume S env snap k es tv'))"
    and h: "hasYieldedContent tv' = (hasYieldedContent tv0 \<or> list_ex is_content pre)"
    and m: "session_messages (tv_state tv') = session_messages (tv_state tv0)"
    and u: "turnUsage tv' = turnUsage tv0" by blast
  show ?case
    by (rule exI[of _ tv']) (use step c h m u p0 in \<open>auto simp: yield_def\<close>)
qed

lemma consume_committed_step:
  assumes "hasYieldedContent tv" and "\<not> is_done e"
  shows "\<exists>tv'. hasYieldedContent tv' \<and>
     consume S env snap k (e # es) tv = yield (AgentEv e) (consume S env snap k es tv')"
proof (cases e)
  case (Step_done n u reason)
  show ?thesis
    by (rule exI[of _ "tv\<lparr>tv_state := (tv_state tv)
              \<lparr>lastInputTokens := (case inputTokens u of None \<Rightarrow> 0 | Some x \<Rightarrow> x)\<rparr>\<rparr>"])
       (use assms Step_done in simp)
next
  case (Text_delta t)
  show ?thesis
    by (rule exI[of _ "tv\<lparr>hasYieldedContent := True\<rparr>"]) (use Text_delta in simp)
next
  case (Tool_start cid nm inp)
  show ?thesis
    by (rule exI[of _ "tv\<lparr>hasYieldedContent := True\<rparr>"]) (use Tool_start in simp)
next
  case (Done r ms u)
  then show ?thesis using assms by simp
qed (use assms in \<open>auto intro!: exI[of _ tv]\<close>)

lemma consume_committed:
  "hasYieldedContent tv \<Longrightarrow>
   \<exists>n. fst (consume S env snap k es tv) = map AgentEv (take n es) \<and>
       hasYieldedContent (fst (snd (consume S env snap k es tv))) \<and>
       (snd (snd (consume S env snap k es tv)) = Ended \<or>
        snd (snd (consume S env snap k es tv)) = Finished)"
proof (induction es arbitrary: tv)
  case Nil
  then show ?case by simp
next
  case (Cons e es)
  show ?case
  proof (cases "is_done e")
    case True
    then obtain r ms u where "e = Done r ms u" by (cases e) simp_all
    then have "fst (consume S env snap k (e # es) tv) = map AgentEv (take (Suc 0) (e # es)) \<and>
       hasYieldedContent (fst (snd (consume S env snap k (e # es) tv))) \<and>
       snd (snd (consume S env snap k (e # es) tv)) = Finished"
      using Cons.prems by simp
    then show ?thesis by blast
  next
    case False
    from consume_committed_step[OF Cons.prems False, of S env snap k es] obtain tv' where
      h: "hasYieldedContent tv'" and
      c: "consume S env snap k (e # es) tv = yield (AgentEv e) (consume S env snap k es tv')"
      by blast
    from Cons.IH[OF h] obtain m where
      m: "fst (consume S env snap k es tv') = map AgentEv (take m es)"
      and rest: "hasYieldedContent (fst (snd (consume S env snap k es tv')))"
        "snd (snd (consume S env snap k es tv')) = Ended \<or>
         snd (snd (consume S env snap k es tv')) = Finished" by blast
    have "fst (consume S env snap k (e # es) tv) = map AgentEv (take (Suc m) (e # es))"
      by (simp add: c m)
    moreover have "hasYieldedContent (fst (snd (consume S env snap k (e # es) tv)))"
      using rest(1) by (simp add: c)
    moreover have "snd (snd (consume S env snap k (e # es) tv)) = Ended \<or>
        snd (snd (consume S env snap k (e # es) tv)) = Finished"
      using rest(2) by (simp add: c)
    ultimately show ?thesis by blast
  qed
qed

lemma consume_retry_attempt:
  "\<forall>e\<in>set (fst (consume S env snap k es tv)). retry_attempt e = None \<or> retry_attempt e = Some k"
proof (induction es arbitrary: tv)
  case Nil
  then show ?case by simp
next
  case (Cons e es)
  show ?case
    by (cases e) (use Cons.IH in \<open>auto simp: Let_def split: option.splits\<close>)
qed

lemma attempt_body_retry_attempt:
  "\<forall>e\<in>set (fst (attempt_body S env eff inp snap k tv)).
     retry_attempt e = None \<or> retry_attempt e = Some k"
  using consume_retry_attempt[of S env snap k "fst (agent_run env k eff inp)"
      "tv\<lparr>hasYieldedContent := False\<rparr>"]
  by (auto simp: attempt_body_def Let_def split: option.splits attempt_exit.splits)

lemma retry_loop_attempts:
  "\<forall>e\<in>set (fst (retry_loop S env eff inp snap k tv)). \<forall>j. retry_attempt e = Some j \<longrightarrow> k \<le> j"
proof (induction S env eff inp snap k tv rule: retry_loop.induct)
  case (1 S env eff inp snap k tv)
  show ?case
  proof (cases "int k \<le> maxRetries (retryConfig S)")
    case False
    then show ?thesis by (subst retry_loop.simps) simp
  next
    case True
    define b where "b = attempt_body S env eff inp snap k tv"
    have own: "\<forall>e\<in>set (fst b). \<forall>j. retry_attempt e = Some j \<longrightarrow> k \<le> j"
      using attempt_body_retry_attempt[of S env eff inp snap k tv] by (auto simp: b_def)
    show ?thesis
    proof (cases "snd (snd b)")
      case Continue
      from "1.IH"[OF True b_def Continue]
      have "\<forall>e\<in>set (fst (retry_loop S env eff inp snap (k + 1) (fst (snd b)))).
              \<forall>j. retry_attempt e = Some j \<longrightarrow> k \<le> j" by fastforce
      with own show ?thesis
        by (subst retry_loop.simps) (auto simp: True b_def[symmetric] Continue Let_def)
    next
      case Break
      with own show ?thesis
        by (subst retry_loop.simps) (auto simp: True b_def[symmetric] Let_def)
    next
      case (Throw t)
      with own show ?thesis
        by (subst retry_loop.simps) (auto simp: True b_def[symmetric] Let_def)
    qed
  qed
qed

lemma attempt_body_in_stream_retry:
  assumes k: "int k < maxRetries (retryConfig S)"
    and run: "agent_run env k eff inp = (pre @ Error_event err # rest, flt)"
    and pre: "plain pre" "\<not> list_ex is_content pre"
    and rt: "retryable S err"
    and hk: "call_onError S err k = None"
    and sl: "sleep env k (getRetryDelay env k err) = None"
  shows "\<exists>tv1. session_messages (tv_state tv1) = snap \<and>
     attempt_body S env eff inp snap k tv =
       (map AgentEv pre @ [Retry k (maxRetries (retryConfig S)) (getRetryDelay env k err) err],
        tv1, Continue)"
proof -
  from consume_plain[OF pre(1), of S env snap k "Error_event err # rest"
      "tv\<lparr>hasYieldedContent := False\<rparr>"] pre(2)
  obtain tv' where
    c: "consume S env snap k (pre @ Error_event err # rest) (tv\<lparr>hasYieldedContent := False\<rparr>) =
           (map AgentEv pre @ fst (consume S env snap k (Error_event err # rest) tv'),
            snd (consume S env snap k (Error_event err # rest) tv'))"
    and h: "\<not> hasYieldedContent tv'" by auto
  have e: "consume S env snap k (Error_event err # rest) tv' =
      ([Retry k (maxRetries (retryConfig S)) (getRetryDelay env k err) err],
       restore snap tv', Retrying)"
    using h rt k hk sl by (simp add: Let_def)
  have full: "consume S env snap k (pre @ Error_event err # rest) (tv\<lparr>hasYieldedContent := False\<rparr>) =
      (map AgentEv pre @ [Retry k (maxRetries (retryConfig S)) (getRetryDelay env k err) err],
       restore snap tv', Retrying)"
    unfolding c e by simp
  have "attempt_body S env eff inp snap k tv =
       (map AgentEv pre @ [Retry k (maxRetries (retryConfig S)) (getRetryDelay env k err) err],
        restore snap tv', Continue)"
    by (simp add: attempt_body_def run full Let_def)
  moreover have "session_messages (tv_state (restore snap tv')) = snap"
    by (simp add: restore_def)
  ultimately show ?thesis by blast
qed

lemma attempt_body_committed:
  assumes run: "agent_run env k eff inp = (pre @ c # rest, flt)"
    and pre: "plain pre" and c: "is_content c"
  shows "\<exists>n tv1 t. attempt_body S env eff inp snap k tv =
           (map AgentEv (take n (pre @ c # rest)), tv1, case t of None \<Rightarrow> Break | Some th \<Rightarrow> Throw th)"
proof -
  from consume_plain[OF pre, of S env snap k "c # rest" "tv\<lparr>hasYieldedContent := False\<rparr>"]
  obtain tv' where
    cp: "consume S env snap k (pre @ c # rest) (tv\<lparr>hasYieldedContent := False\<rparr>) =
           (map AgentEv pre @ fst (consume S env snap k (c # rest) tv'),
            snd (consume S env snap k (c # rest) tv'))" by blast
  have cc: "consume S env snap k (c # rest) tv' =
      yield (AgentEv c) (consume S env snap k rest (tv'\<lparr>hasYieldedContent := True\<rparr>))"
    using c by (cases c) simp_all
  from consume_committed[of "tv'\<lparr>hasYieldedContent := True\<rparr>" S env snap k rest]
  obtain m where m: "fst (consume S env snap k rest (tv'\<lparr>hasYieldedContent := True\<rparr>)) =
        map AgentEv (take m rest)"
    and hy: "hasYieldedContent (fst (snd (consume S env snap k rest (tv'\<lparr>hasYieldedContent := True\<rparr>))))"
    and ex: "snd (snd (consume S env snap k rest (tv'\<lparr>hasYieldedContent := True\<rparr>))) = Ended \<or>
             snd (snd (consume S env snap k rest (tv'\<lparr>hasYieldedContent := True\<rparr>))) = Finished"
    by auto
  define C where "C = consume S env snap k rest (tv'\<lparr>hasYieldedContent := True\<rparr>)"
  have full: "consume S env snap k (pre @ c # rest) (tv\<lparr>hasYieldedContent := False\<rparr>) =
      (map AgentEv (take (length pre + Suc m) (pre @ c # rest)), snd C)"
    unfolding cp cc using m by (simp add: C_def)
  from ex consider "snd (snd C) = Ended" "flt = None" | th where "snd (snd C) = Ended" "flt = Some th"
    | "snd (snd C) = Finished"
    by (cases flt) (auto simp: C_def)
  then show ?thesis
  proof cases
    case 1
    then have "attempt_body S env eff inp snap k tv =
           (map AgentEv (take (length pre + Suc m) (pre @ c # rest)), fst (snd C),
            case None of None \<Rightarrow> Break | Some th \<Rightarrow> Throw th)"
      by (simp add: attempt_body_def run full Let_def)
    then show ?thesis by blast
  next
    case 2
    then have "attempt_body S env eff inp snap k tv =
           (map AgentEv (take (length pre + Suc m) (pre @ c # rest)), fst (snd C),
            case Some th of None \<Rightarrow> Break | Some th \<Rightarrow> Throw th)"
      using hy by (simp add: attempt_body_def run full Let_def C_def[symmetric])
    then show ?thesis by blast
  next
    case 3
    then have "attempt_body S env eff inp snap k tv =
           (map AgentEv (take (length pre + Suc m) (pre @ c # rest)), fst (snd C),
            case None of None \<Rightarrow> Break | Some th \<Rightarrow> Throw th)"
      by (simp add: attempt_body_def run full Let_def)
    then show ?thesis by blast
  qed
qed

lemma no_retry_in_agent_events: "\<not> list_ex is_retry (map AgentEv es)"
  by (induction es) simp_all

lemma count_retry_agent_events:
  "filter (\<lambda>e. retry_attempt e = Some k) (map AgentEv es) = []"
  by (induction es) simp_all

lemma filter_later_attempts:
  "\<forall>e\<in>set xs. \<forall>j. retry_attempt e = Some j \<longrightarrow> Suc k \<le> j \<Longrightarrow>
   filter (\<lambda>e. retry_attempt e = Some k) xs = []"
  by (induction xs) auto

lemma attempt_body_fault_retry:
  assumes k: "int k < maxRetries (retryConfig S)"
    and run: "agent_run env k eff inp = (pre, Some th)"
    and pre: "plain pre" "\<not> list_ex is_content pre"
    and rt: "retryable S (toError th)"
    and hk: "call_onError S (toError th) k = None"
    and sl: "sleep env k (getRetryDelay env k (toError th)) = None"
  shows "\<exists>tv1. session_messages (tv_state tv1) = snap \<and>
     attempt_body S env eff inp snap k tv =
       (map AgentEv pre @
          [Retry k (maxRetries (retryConfig S)) (getRetryDelay env k (toError th)) (toError th)],
        tv1, Continue)"
proof -
  from consume_plain[OF pre(1), of S env snap k "[]" "tv\<lparr>hasYieldedContent := False\<rparr>"] pre(2)
  obtain tv' where
    c: "consume S env snap k pre (tv\<lparr>hasYieldedContent := False\<rparr>) = (map AgentEv pre, tv', Ended)"
    and h: "\<not> hasYieldedContent tv'" by auto
  have "attempt_body S env eff inp snap k tv =
       (map AgentEv pre @
          [Retry k (maxRetries (retryConfig S)) (getRetryDelay env k (toError th)) (toError th)],
        restore snap tv', Continue)"
    using h rt k hk sl by (simp add: attempt_body_def run c Let_def)
  moreover have "session_messages (tv_state (restore snap tv')) = snap"
    by (simp add: restore_def)
  ultimately show ?thesis by blast
qed

lemma retry_loop_continue:
  assumes k: "int k < maxRetries (retryConfig S)"
    and b: "attempt_body S env eff inp snap k tv = (pre @ [Retry k mr d err], tv1, Continue)"
    and pre: "filter (\<lambda>e. retry_attempt e = Some k) pre = []"
  shows "retry_loop S env eff inp snap k tv =
           (pre @ [Retry k mr d err] @ fst (retry_loop S env eff inp snap (Suc k) tv1),
            snd (retry_loop S env eff inp snap (Suc k) tv1)) \<and>
         length (filter (\<lambda>e. retry_attempt e = Some k)
                   (fst (retry_loop S env eff inp snap k tv))) = 1"
proof -
  from k have k': "int k \<le> maxRetries (retryConfig S)" by simp
  have r: "retry_loop S env eff inp snap k tv =
           (pre @ [Retry k mr d err] @ fst (retry_loop S env eff inp snap (Suc k) tv1),
            snd (retry_loop S env eff inp snap (Suc k) tv1))"
    by (subst retry_loop.simps) (simp add: k' b Let_def)
  have "filter (\<lambda>e. retry_attempt e = Some k) (fst (retry_loop S env eff inp snap (Suc k) tv1)) = []"
    by (rule filter_later_attempts) (rule retry_loop_attempts)
  then have "length (filter (\<lambda>e. retry_attempt e = Some k)
                (fst (retry_loop S env eff inp snap k tv))) = 1"
    by (simp add: r pre)
  with r show ?thesis by blast
qed

lemma send_enters_loop:
  assumes "send_prelude S env st = (started, st2, Inr eff)"
  shows "(\<exists>tail. fst (send S env st inp) =
            started @
            fst (retry_loop S env eff inp (session_messages st2) 0
                   \<lparr>tv_state = st2, turnUsage = undefined_usage, hasYieldedContent = False\<rparr>) @
            tail \<and>
            \<not> list_ex is_retry tail) \<and>
         session_messages (fst (snd (send S env st inp))) =
           session_messages (tv_state (fst (snd
             (retry_loop S env eff inp (session_messages st2) 0
                \<lparr>tv_state = st2, turnUsage = undefined_usage, hasYieldedContent = False\<rparr>))))"
proof -
  obtain ev stc tc where C:
    "(if autoCompact S \<and> truthy_number (contextWindow S) \<and>
         shouldCompactCheck S (st\<lparr>turns := turns st + 1\<rparr>)
      then session_compact S env (st\<lparr>turns := turns st + 1\<rparr>)
      else ([], st\<lparr>turns := turns st + 1\<rparr>, None)) = (ev, stc, tc)"
    by (rule prod_cases3)
  define L where "L = retry_loop S env eff inp (session_messages stc) 0
                   \<lparr>tv_state = stc, turnUsage = undefined_usage, hasYieldedContent = False\<rparr>"
  from assms have tc: "tc = None" and s2: "st2 = stc"
    and st: "started = Turn_start (Suc (turns st)) # ev"
    and ef: "(case onBeforeSend (hooks S) of
                None \<Rightarrow> Inr (session_messages stc)
              | Some h \<Rightarrow> h (session_messages stc)) = Inr eff"
    unfolding send_prelude_def Let_def C by (auto split: option.splits)
  have sd: "send S env st inp =
     (case snd (snd L) of
        Some t \<Rightarrow> (started @ fst L, tv_state (fst (snd L)), Some t)
      | None \<Rightarrow>
          (case (case onAfterResponse (hooks S) of
                   None \<Rightarrow> None
                 | Some h \<Rightarrow>
                     h \<lparr>ti_turnNumber = Suc (turns st),
                        ti_messages = session_messages (tv_state (fst (snd L))),
                        ti_usage = turnUsage (fst (snd L))\<rparr>) of
             Some t \<Rightarrow> (started @ fst L, tv_state (fst (snd L)), Some t)
           | None \<Rightarrow>
               (case (case sessionStore_save S of
                        None \<Rightarrow> None
                      | Some save \<Rightarrow>
                          save (sessionId S) (session_messages (tv_state (fst (snd L))))) of
                  Some t \<Rightarrow> (started @ fst L, tv_state (fst (snd L)), Some t)
                | None \<Rightarrow>
                    (started @ fst L @ [Turn_done (Suc (turns st)) (turnUsage (fst (snd L)))],
                     (tv_state (fst (snd L)))
                       \<lparr>totalUsage := addUsage (totalUsage (tv_state (fst (snd L))))
                                        (turnUsage (fst (snd L)))\<rparr>,
                     None))))"
    unfolding send_def Let_def C fst_conv snd_conv ef tc L_def st
    by (simp cong: option.case_cong)
  have ev: "\<exists>tail. fst (send S env st inp) = started @ fst L @ tail \<and> \<not> list_ex is_retry tail"
    unfolding sd by (auto split: option.splits)
  have ms: "session_messages (fst (snd (send S env st inp))) =
      session_messages (tv_state (fst (snd L)))"
    unfolding sd by (auto split: option.splits)
  from ev ms show ?thesis unfolding L_def s2 by blast
qed

text \<open>
  Claim C2 (as amended). The claim as stated fails when the signal is aborted during the
  backoff sleep: then no new attempt begins and the abort reason leaves \<open>send\<close>
  (\<open>retry_aborted_backoff_counterexample\<close> below). What holds: \<open>send\<close> enters the attempt
  loop at attempt 0 with the session as the compaction check left it, and with the
  message list of that session as the snapshot; its events are the events before the
  loop, the events of the loop, and after them no retry event; its session's messages at
  the end are those the loop leaves. In the loop, entered at attempt \<open>k\<close> in any state:
  when the agent's events of this attempt reach an error event before any text.delta or
  tool.start (and before any done or other error event), or the agent's iteration
  throws a fault there, the error satisfies the retryable predicate, \<open>k\<close> is below
  \<open>maxRetries\<close>, the \<open>onError\<close> hook returns and the sleep is not aborted, then the loop
  yields the events before the error, then one retry event carrying \<open>k\<close>, restores the
  session's messages to the snapshot, and goes on as the loop entered at attempt
  \<open>k + 1\<close>; the whole loop yields exactly one retry event that carries \<open>k\<close>. When the
  events of the attempt reach a text.delta or tool.start first, the loop yields no retry
  event at all, whatever error event or fault follows: its events are an initial part
  of this attempt's agent events.
\<close>

theorem retry_before_content_only:
  "(send_prelude S env st = (started, st2, Inr eff) \<longrightarrow>
      (\<exists>tail. fst (send S env st inp) =
         started @
         fst (retry_loop S env eff inp (session_messages st2) 0
                \<lparr>tv_state = st2, turnUsage = undefined_usage, hasYieldedContent = False\<rparr>) @
         tail \<and>
         \<not> list_ex is_retry tail) \<and>
      session_messages (fst (snd (send S env st inp))) =
        session_messages (tv_state (fst (snd
          (retry_loop S env eff inp (session_messages st2) 0
             \<lparr>tv_state = st2, turnUsage = undefined_usage, hasYieldedContent = False\<rparr>))))) \<and>
   (int k < maxRetries (retryConfig S) \<and>
    agent_run env k eff inp = (pre @ Error_event err # rest, flt) \<and>
    plain pre \<and> \<not> list_ex is_content pre \<and> retryable S err \<and>
    call_onError S err k = None \<and> sleep env k (getRetryDelay env k err) = None \<longrightarrow>
      (\<exists>tv1. session_messages (tv_state tv1) = snap \<and>
         retry_loop S env eff inp snap k tv =
           (map AgentEv pre @
              [Retry k (maxRetries (retryConfig S)) (getRetryDelay env k err) err] @
              fst (retry_loop S env eff inp snap (Suc k) tv1),
            snd (retry_loop S env eff inp snap (Suc k) tv1))) \<and>
      length (filter (\<lambda>e. retry_attempt e = Some k)
                (fst (retry_loop S env eff inp snap k tv))) = 1) \<and>
   (int k < maxRetries (retryConfig S) \<and>
    agent_run env k eff inp = (pre, Some th) \<and>
    plain pre \<and> \<not> list_ex is_content pre \<and> retryable S (toError th) \<and>
    call_onError S (toError th) k = None \<and>
    sleep env k (getRetryDelay env k (toError th)) = None \<longrightarrow>
      (\<exists>tv1. session_messages (tv_state tv1) = snap \<and>
         retry_loop S env eff inp snap k tv =
           (map AgentEv pre @
              [Retry k (maxRetries (retryConfig S)) (getRetryDelay env k (toError th))
                 (toError th)] @
              fst (retry_loop S env eff inp snap (Suc k) tv1),
            snd (retry_loop S env eff inp snap (Suc k) tv1))) \<and>
      length (filter (\<lambda>e. retry_attempt e = Some k)
                (fst (retry_loop S env eff inp snap k tv))) = 1) \<and>
   (int k \<le> maxRetries (retryConfig S) \<and>
    agent_run env k eff inp = (pre @ c # rest, flt) \<and> plain pre \<and> is_content c \<longrightarrow>
      \<not> list_ex is_retry (fst (retry_loop S env eff inp snap k tv)) \<and>
      (\<exists>n. fst (retry_loop S env eff inp snap k tv) = map AgentEv (take n (pre @ c # rest))))"
proof (intro conjI impI)
  assume "send_prelude S env st = (started, st2, Inr eff)"
  from send_enters_loop[OF this, of inp]
  show "\<exists>tail. fst (send S env st inp) =
         started @
         fst (retry_loop S env eff inp (session_messages st2) 0
                \<lparr>tv_state = st2, turnUsage = undefined_usage, hasYieldedContent = False\<rparr>) @
         tail \<and>
         \<not> list_ex is_retry tail"
    and "session_messages (fst (snd (send S env st inp))) =
        session_messages (tv_state (fst (snd
          (retry_loop S env eff inp (session_messages st2) 0
             \<lparr>tv_state = st2, turnUsage = undefined_usage, hasYieldedContent = False\<rparr>))))"
    by blast+
next
  assume h: "int k < maxRetries (retryConfig S) \<and>
    agent_run env k eff inp = (pre @ Error_event err # rest, flt) \<and>
    plain pre \<and> \<not> list_ex is_content pre \<and> retryable S err \<and>
    call_onError S err k = None \<and> sleep env k (getRetryDelay env k err) = None"
  then have k: "int k < maxRetries (retryConfig S)" by simp
  from h attempt_body_in_stream_retry[of k S env eff inp pre err rest flt snap tv]
  obtain tv1 where m: "session_messages (tv_state tv1) = snap" and
    b: "attempt_body S env eff inp snap k tv =
       (map AgentEv pre @ [Retry k (maxRetries (retryConfig S)) (getRetryDelay env k err) err],
        tv1, Continue)" by blast
  from retry_loop_continue[OF k b count_retry_agent_events] m
  show "\<exists>tv1. session_messages (tv_state tv1) = snap \<and>
         retry_loop S env eff inp snap k tv =
           (map AgentEv pre @
              [Retry k (maxRetries (retryConfig S)) (getRetryDelay env k err) err] @
              fst (retry_loop S env eff inp snap (Suc k) tv1),
            snd (retry_loop S env eff inp snap (Suc k) tv1))"
    and "length (filter (\<lambda>e. retry_attempt e = Some k)
                (fst (retry_loop S env eff inp snap k tv))) = 1"
    by blast+
next
  assume h: "int k < maxRetries (retryConfig S) \<and>
    agent_run env k eff inp = (pre, Some th) \<and>
    plain pre \<and> \<not> list_ex is_content pre \<and> retryable S (toError th) \<and>
    call_onError S (toError th) k = None \<and>
    sleep env k (getRetryDelay env k (toError th)) = None"
  then have k: "int k < maxRetries (retryConfig S)" by simp
  from h attempt_body_fault_retry[of k S env eff inp pre th snap tv]
  obtain tv1 where m: "session_messages (tv_state tv1) = snap" and
    b: "attempt_body S env eff inp snap k tv =
       (map AgentEv pre @
          [Retry k (maxRetries (retryConfig S)) (getRetryDelay env k (toError th)) (toError th)],
        tv1, Continue)" by blast
  from retry_loop_continue[OF k b count_retry_agent_events] m
  show "\<exists>tv1. session_messages (tv_state tv1) = snap \<and>
         retry_loop S env eff inp snap k tv =
           (map AgentEv pre @
              [Retry k (maxRetries (retryConfig S)) (getRetryDelay env k (toError th))
                 (toError th)] @
              fst (retry_loop S env eff inp snap (Suc k) tv1),
            snd (retry_loop S env eff inp snap (Suc k) tv1))"
    and "length (filter (\<lambda>e. retry_attempt e = Some k)
                (fst (retry_loop S env eff inp snap k tv))) = 1"
    by blast+
next
  assume h: "int k \<le> maxRetries (retryConfig S) \<and>
    agent_run env k eff inp = (pre @ c # rest, flt) \<and> plain pre \<and> is_content c"
  from h attempt_body_committed[of env k eff inp pre c rest flt S snap tv]
  obtain n tv1 t where b: "attempt_body S env eff inp snap k tv =
      (map AgentEv (take n (pre @ c # rest)), tv1, case t of None \<Rightarrow> Break | Some th \<Rightarrow> Throw th)"
    by blast
  have r: "fst (retry_loop S env eff inp snap k tv) = map AgentEv (take n (pre @ c # rest))"
    using h by (subst retry_loop.simps) (cases t; simp add: b Let_def)
  show "\<not> list_ex is_retry (fst (retry_loop S env eff inp snap k tv))"
    unfolding r by (rule no_retry_in_agent_events)
  from r show "\<exists>n. fst (retry_loop S env eff inp snap k tv) = map AgentEv (take n (pre @ c # rest))"
    by blast
qed

text \<open>
  Claim C6 (as amended). The claim as stated fails: the \<open>catch\<close> branch of \<open>send\<close> ends in
  \<open>throw thrown\<close>, so a fault thrown by the agent's iteration that is not retried leaves
  \<open>send\<close> as a fault (\<open>send_rethrows_counterexample\<close> below). What holds, for an error that
  is not retried (visible content has streamed in the attempt, or the attempt is the
  last one, or the error is not retryable): when the agent's events hold the error
  event and then a done event with result error, as the executor reports a caught
  streaming fault, the loop yields both in that order after the events before them,
  sets the session's messages to those of the done event and ends without a fault; when
  the error is a fault thrown by the agent's iteration, the loop yields the events so
  far and the fault leaves \<open>send\<close>.
\<close>

theorem unretried_error_reaches_caller:
  "(int k \<le> maxRetries (retryConfig S) \<and>
    agent_run env k eff inp = (pre @ Error_event err # Done Error_result ms u # rest, flt) \<and>
    plain pre \<and>
    (list_ex is_content pre \<or> maxRetries (retryConfig S) \<le> int k \<or> \<not> retryable S err) \<longrightarrow>
      (\<exists>tv1. session_messages (tv_state tv1) = ms \<and>
         retry_loop S env eff inp snap k tv =
           (map AgentEv pre @ [AgentEv (Error_event err), AgentEv (Done Error_result ms u)],
            tv1, None))) \<and>
   (int k \<le> maxRetries (retryConfig S) \<and> agent_run env k eff inp = (pre, Some th) \<and>
    plain pre \<and>
    (list_ex is_content pre \<or> maxRetries (retryConfig S) \<le> int k \<or>
     \<not> retryable S (toError th)) \<longrightarrow>
      (\<exists>tv1. retry_loop S env eff inp snap k tv = (map AgentEv pre, tv1, Some th)))"
proof (intro conjI impI)
  assume h: "int k \<le> maxRetries (retryConfig S) \<and>
    agent_run env k eff inp = (pre @ Error_event err # Done Error_result ms u # rest, flt) \<and>
    plain pre \<and>
    (list_ex is_content pre \<or> maxRetries (retryConfig S) \<le> int k \<or> \<not> retryable S err)"
  then have pl: "plain pre" by simp
  from consume_plain[OF pl, of S env snap k "Error_event err # Done Error_result ms u # rest"
      "tv\<lparr>hasYieldedContent := False\<rparr>"]
  obtain tv' where
    c: "consume S env snap k (pre @ Error_event err # Done Error_result ms u # rest)
          (tv\<lparr>hasYieldedContent := False\<rparr>) =
           (map AgentEv pre @
              fst (consume S env snap k (Error_event err # Done Error_result ms u # rest) tv'),
            snd (consume S env snap k (Error_event err # Done Error_result ms u # rest) tv'))"
    and hy: "hasYieldedContent tv' = list_ex is_content pre" by auto
  define tv1 where "tv1 = tv'\<lparr>tv_state := (tv_state tv')\<lparr>session_messages := ms\<rparr>, turnUsage := u\<rparr>"
  have e: "consume S env snap k (Error_event err # Done Error_result ms u # rest) tv' =
      ([AgentEv (Error_event err), AgentEv (Done Error_result ms u)], tv1, Finished)"
    using h hy by (auto simp: tv1_def yield_def)
  have full: "consume S env snap k (pre @ Error_event err # Done Error_result ms u # rest)
          (tv\<lparr>hasYieldedContent := False\<rparr>) =
      (map AgentEv pre @ [AgentEv (Error_event err), AgentEv (Done Error_result ms u)],
       tv1, Finished)"
    unfolding c e by simp
  have b: "attempt_body S env eff inp snap k tv =
      (map AgentEv pre @ [AgentEv (Error_event err), AgentEv (Done Error_result ms u)],
       tv1, Break)"
    using h by (simp add: attempt_body_def full Let_def)
  have "retry_loop S env eff inp snap k tv =
      (map AgentEv pre @ [AgentEv (Error_event err), AgentEv (Done Error_result ms u)],
       tv1, None)"
    using h by (subst retry_loop.simps) (simp add: b Let_def)
  moreover have "session_messages (tv_state tv1) = ms" by (simp add: tv1_def)
  ultimately show "\<exists>tv1. session_messages (tv_state tv1) = ms \<and>
         retry_loop S env eff inp snap k tv =
           (map AgentEv pre @ [AgentEv (Error_event err), AgentEv (Done Error_result ms u)],
            tv1, None)" by blast
next
  assume h: "int k \<le> maxRetries (retryConfig S) \<and> agent_run env k eff inp = (pre, Some th) \<and>
    plain pre \<and>
    (list_ex is_content pre \<or> maxRetries (retryConfig S) \<le> int k \<or>
     \<not> retryable S (toError th))"
  then have pl: "plain pre" by simp
  from consume_plain[OF pl, of S env snap k "[]" "tv\<lparr>hasYieldedContent := False\<rparr>"]
  obtain tv' where
    c: "consume S env snap k pre (tv\<lparr>hasYieldedContent := False\<rparr>) = (map AgentEv pre, tv', Ended)"
    and hy: "hasYieldedContent tv' = list_ex is_content pre" by auto
  have b: "attempt_body S env eff inp snap k tv = (map AgentEv pre, tv', Throw th)"
    using h hy by (auto simp: attempt_body_def c Let_def)
  have "retry_loop S env eff inp snap k tv = (map AgentEv pre, tv', Some th)"
    using h by (subst retry_loop.simps) (simp add: b Let_def)
  then show "\<exists>tv1. retry_loop S env eff inp snap k tv = (map AgentEv pre, tv1, Some th)" by blast
qed

lemma retryable_overloaded: "retryable (plain_session mr) overloaded_error"
  by (simp add: retryable_def plain_session_def DEFAULT_RETRY_def isRetryableError_def
      overloaded_error_def lower_char_def)

lemma abort_not_retryable: "\<not> retryable (plain_session mr) abort_error"
  by (simp add: retryable_def plain_session_def DEFAULT_RETRY_def isRetryableError_def
      abort_error_def lower_char_def)

lemma plain_session_fields:
  "maxRetries (retryConfig (plain_session mr)) = mr"
  "call_onError (plain_session mr) err k = None"
  "autoCompact (plain_session mr) = False"
  "onBeforeSend (hooks (plain_session mr)) = None"
  "onAfterResponse (hooks (plain_session mr)) = None"
  "sessionStore_save (plain_session mr) = None"
  by (simp_all add: plain_session_def call_onError_def no_hooks_def DEFAULT_RETRY_def)

lemma test_env_fields:
  "agent_run (test_env a) = a"
  "getRetryDelay (test_env a) k err = 1000"
  "sleep (test_env a) k ms = None"
  by (simp_all add: test_env_def fixed_delay_def no_abort_def)

lemma throwing_loop:
  "retry_loop (plain_session 1) (test_env throwing_agent) [] (InputText ''q'') [] 0 turn_start_vars =
     ([Retry 0 1 1000 overloaded_error], turn_start_vars, Some (ThrownError overloaded_error))"
proof -
  have b0: "attempt_body (plain_session 1) (test_env throwing_agent) [] (InputText ''q'') [] 0
      turn_start_vars =
    ([Retry 0 1 1000 overloaded_error], turn_start_vars, Continue)"
    by (simp add: plain_session_fields test_env_fields attempt_body_def throwing_agent_def
      retryable_overloaded Let_def restore_def turn_start_vars_def new_session_state_def)
  have b1: "attempt_body (plain_session 1) (test_env throwing_agent) [] (InputText ''q'') []
      (Suc 0) turn_start_vars =
    ([], turn_start_vars, Throw (ThrownError overloaded_error))"
    by (simp add: plain_session_fields test_env_fields attempt_body_def throwing_agent_def
      Let_def turn_start_vars_def)
  have r1: "retry_loop (plain_session 1) (test_env throwing_agent) [] (InputText ''q'') []
      (Suc 0) turn_start_vars = ([], turn_start_vars, Some (ThrownError overloaded_error))"
    by (subst retry_loop.simps) (simp add: plain_session_fields b1 Let_def)
  show ?thesis
    by (subst retry_loop.simps) (simp add: plain_session_fields b0 Let_def r1)
qed

lemma plain_send:
  "send (plain_session mr) env new_session_state inp =
     (let r = retry_loop (plain_session mr) env [] inp [] 0 turn_start_vars
      in case snd (snd r) of
           Some t \<Rightarrow> (Turn_start 1 # fst r, tv_state (fst (snd r)), Some t)
          | None \<Rightarrow>
             (Turn_start 1 # fst r @ [Turn_done 1 (turnUsage (fst (snd r)))],
              (tv_state (fst (snd r)))
                \<lparr>totalUsage := addUsage (totalUsage (tv_state (fst (snd r))))
                                 (turnUsage (fst (snd r)))\<rparr>,
              None))"
  by (simp add: send_def plain_session_fields Let_def turn_start_vars_def new_session_state_def
      split: option.splits)

lemma quiet_send:
  assumes "autoCompact S = False" and "onBeforeSend (hooks S) = None"
    and "onAfterResponse (hooks S) = None" and "sessionStore_save S = None"
  shows "send S env history_state inp =
     (let r = retry_loop S env earlier_history inp earlier_history 0 history_vars
      in case snd (snd r) of
           Some t \<Rightarrow> (Turn_start 1 # fst r, tv_state (fst (snd r)), Some t)
          | None \<Rightarrow>
             (Turn_start 1 # fst r @ [Turn_done 1 (turnUsage (fst (snd r)))],
              (tv_state (fst (snd r)))
                \<lparr>totalUsage := addUsage (totalUsage (tv_state (fst (snd r))))
                                 (turnUsage (fst (snd r)))\<rparr>,
              None))"
  by (simp add: send_def assms Let_def history_vars_def history_state_def
      new_session_state_def split: option.splits)

lemma history_send:
  "send (plain_session mr) env history_state inp =
     (let r = retry_loop (plain_session mr) env earlier_history inp earlier_history 0 history_vars
      in case snd (snd r) of
           Some t \<Rightarrow> (Turn_start 1 # fst r, tv_state (fst (snd r)), Some t)
          | None \<Rightarrow>
             (Turn_start 1 # fst r @ [Turn_done 1 (turnUsage (fst (snd r)))],
              (tv_state (fst (snd r)))
                \<lparr>totalUsage := addUsage (totalUsage (tv_state (fst (snd r))))
                                 (turnUsage (fst (snd r)))\<rparr>,
              None))"
  by (rule quiet_send) (simp_all add: plain_session_fields)

lemma history_prelude:
  "send_prelude (plain_session mr) env history_state =
     ([Turn_start 1], history_state\<lparr>turns := 1\<rparr>, Inr earlier_history)"
  by (simp add: send_prelude_def plain_session_fields Let_def history_state_def
      new_session_state_def)

lemma failing_loop:
  "retry_loop (plain_session 1) (test_env failing_agent) eff inp snap 0 tv =
     ([AgentEv (Step_start 1), Retry 0 1 1000 overloaded_error, AgentEv (Step_start 1),
       AgentEv (Error_event overloaded_error)],
      restore snap (tv\<lparr>hasYieldedContent := False\<rparr>), None)"
proof -
  have b0: "attempt_body (plain_session 1) (test_env failing_agent) eff inp snap 0 tv =
    ([AgentEv (Step_start 1), Retry 0 1 1000 overloaded_error],
     restore snap (tv\<lparr>hasYieldedContent := False\<rparr>), Continue)"
    by (simp add: plain_session_fields test_env_fields attempt_body_def failing_agent_def
      retryable_overloaded Let_def yield_def)
  have b1: "attempt_body (plain_session 1) (test_env failing_agent) eff inp snap (Suc 0) tv' =
    ([AgentEv (Step_start 1), AgentEv (Error_event overloaded_error)],
     tv'\<lparr>hasYieldedContent := False\<rparr>, Break)" for tv'
    by (simp add: plain_session_fields test_env_fields attempt_body_def failing_agent_def
      Let_def yield_def)
  have r1: "retry_loop (plain_session 1) (test_env failing_agent) eff inp snap (Suc 0) tv' =
    ([AgentEv (Step_start 1), AgentEv (Error_event overloaded_error)],
     tv'\<lparr>hasYieldedContent := False\<rparr>, None)" for tv'
    by (subst retry_loop.simps) (simp add: plain_session_fields b1 Let_def)
  show ?thesis
    by (subst retry_loop.simps) (simp add: plain_session_fields b0 Let_def r1 restore_def)
qed

text \<open>
  The claim C2 as amended, at a session that has a history and one retry. Every attempt
  of the agent reports a transient error before any content and ends without a done
  event: the first attempt is retried and the second is not, and the session keeps its
  history. Then at an agent whose iteration throws, and at an attempt that streams text
  before it fails.
\<close>

theorem retry_before_content_only_witness:
  "send_prelude (plain_session 1) (test_env failing_agent) history_state =
     ([Turn_start 1], history_state\<lparr>turns := 1\<rparr>, Inr earlier_history) \<and>
   int 0 < maxRetries (retryConfig (plain_session 1)) \<and>
   agent_run (test_env failing_agent) 0 earlier_history (InputText ''q'') =
     ([Step_start 1] @ Error_event overloaded_error # [], None) \<and>
   plain [Step_start 1] \<and> \<not> list_ex is_content [Step_start 1] \<and>
   retryable (plain_session 1) overloaded_error \<and>
   call_onError (plain_session 1) overloaded_error 0 = None \<and>
   sleep (test_env failing_agent) 0 (getRetryDelay (test_env failing_agent) 0 overloaded_error) =
     None \<and>
   length (filter (\<lambda>e. retry_attempt e = Some 0)
     (fst (retry_loop (plain_session 1) (test_env failing_agent) earlier_history
             (InputText ''q'') earlier_history 0 history_vars))) = 1 \<and>
   fst (send (plain_session 1) (test_env failing_agent) history_state (InputText ''q'')) =
     [Turn_start 1, AgentEv (Step_start 1), Retry 0 1 1000 overloaded_error,
      AgentEv (Step_start 1), AgentEv (Error_event overloaded_error),
      Turn_done 1 undefined_usage] \<and>
   session_messages
     (fst (snd (send (plain_session 1) (test_env failing_agent) history_state (InputText ''q'')))) =
     [\<lparr>role = User, content = CText ''earlier question''\<rparr>,
      \<lparr>role = Assistant, content = CText ''earlier answer''\<rparr>] \<and>
   session_messages (tv_state turn_start_vars) = [] \<and>
   session_messages
     (tv_state (fst (snd (retry_loop (plain_session 1) (test_env failing_agent) earlier_history
        (InputText ''q'') earlier_history 0 turn_start_vars)))) =
     [\<lparr>role = User, content = CText ''earlier question''\<rparr>,
      \<lparr>role = Assistant, content = CText ''earlier answer''\<rparr>] \<and>
   agent_run (test_env throwing_agent) 0 earlier_history (InputText ''q'') =
     ([], Some (ThrownError overloaded_error)) \<and>
   length (filter (\<lambda>e. retry_attempt e = Some 0)
     (fst (retry_loop (plain_session 1) (test_env throwing_agent) earlier_history
             (InputText ''q'') earlier_history 0 history_vars))) = 1 \<and>
   int (Suc 0) \<le> maxRetries (retryConfig (plain_session 3)) \<and>
   agent_run (test_env flaky_agent) (Suc 0) earlier_history (InputText ''q'') =
     ([Step_start 1] @ Text_delta ''hi'' #
      [Error_event overloaded_error,
       Done Error_result (earlier_history @ [\<lparr>role = User, content = CText ''q''\<rparr>])
         undefined_usage], None) \<and>
   is_content (Text_delta ''hi'') \<and>
   \<not> list_ex is_retry
     (fst (retry_loop (plain_session 3) (test_env flaky_agent) earlier_history
             (InputText ''q'') earlier_history (Suc 0) history_vars))"
proof -
  have h0: "int 0 < maxRetries (retryConfig (plain_session 1)) \<and>
    agent_run (test_env failing_agent) 0 earlier_history (InputText ''q'') =
      ([Step_start 1] @ Error_event overloaded_error # [], None) \<and>
    plain [Step_start 1] \<and> \<not> list_ex is_content [Step_start 1] \<and>
    retryable (plain_session 1) overloaded_error \<and>
    call_onError (plain_session 1) overloaded_error 0 = None \<and>
    sleep (test_env failing_agent) 0 (getRetryDelay (test_env failing_agent) 0 overloaded_error) =
      None"
    by (simp add: plain_session_fields test_env_fields failing_agent_def plain_def
        retryable_overloaded)
  have h1: "int (Suc 0) \<le> maxRetries (retryConfig (plain_session 3)) \<and>
    agent_run (test_env flaky_agent) (Suc 0) earlier_history (InputText ''q'') =
      ([Step_start 1] @ Text_delta ''hi'' #
       [Error_event overloaded_error,
        Done Error_result (earlier_history @ [\<lparr>role = User, content = CText ''q''\<rparr>])
          undefined_usage], None) \<and>
    plain [Step_start 1] \<and> is_content (Text_delta ''hi'')"
    by (simp add: plain_session_fields test_env_fields flaky_agent_def plain_def
        input_messages_def)
  have h2: "int 0 < maxRetries (retryConfig (plain_session 1)) \<and>
    agent_run (test_env throwing_agent) 0 earlier_history (InputText ''q'') =
      ([], Some (ThrownError overloaded_error)) \<and>
    plain [] \<and> \<not> list_ex is_content [] \<and>
    retryable (plain_session 1) (toError (ThrownError overloaded_error)) \<and>
    call_onError (plain_session 1) (toError (ThrownError overloaded_error)) 0 = None \<and>
    sleep (test_env throwing_agent) 0
      (getRetryDelay (test_env throwing_agent) 0 (toError (ThrownError overloaded_error))) = None"
    by (simp add: plain_session_fields test_env_fields throwing_agent_def plain_def
        retryable_overloaded)
  note p = history_prelude[of 1 "test_env failing_agent"]
  from p retry_before_content_only[where S="plain_session 1"
      and env="test_env failing_agent" and st=history_state and started="[Turn_start 1]"
      and ?st2.0="history_state\<lparr>turns := 1\<rparr>" and eff=earlier_history
      and inp="InputText ''q''"]
  have "session_messages
     (fst (snd (send (plain_session 1) (test_env failing_agent) history_state (InputText ''q'')))) =
     session_messages (tv_state (fst (snd
       (retry_loop (plain_session 1) (test_env failing_agent) earlier_history (InputText ''q'')
          (session_messages (history_state\<lparr>turns := 1\<rparr>)) 0
          \<lparr>tv_state = history_state\<lparr>turns := 1\<rparr>, turnUsage = undefined_usage,
             hasYieldedContent = False\<rparr>))))" by blast
  also have "\<dots> = session_messages (tv_state (fst (snd
       (retry_loop (plain_session 1) (test_env failing_agent) earlier_history (InputText ''q'')
          earlier_history 0 history_vars))))"
    by (simp add: history_vars_def history_state_def)
  also have "\<dots> = [\<lparr>role = User, content = CText ''earlier question''\<rparr>,
      \<lparr>role = Assistant, content = CText ''earlier answer''\<rparr>]"
    by (simp add: failing_loop restore_def history_vars_def history_state_def
        earlier_history_def)
  finally have ms: "session_messages
     (fst (snd (send (plain_session 1) (test_env failing_agent) history_state (InputText ''q'')))) =
     [\<lparr>role = User, content = CText ''earlier question''\<rparr>,
      \<lparr>role = Assistant, content = CText ''earlier answer''\<rparr>]" .
  from h0 retry_before_content_only[where k=0 and S="plain_session 1"
      and env="test_env failing_agent" and eff=earlier_history and inp="InputText ''q''"
      and pre="[Step_start 1]" and err=overloaded_error and rest="[]" and flt=None
      and snap=earlier_history and tv=history_vars]
  have c0: "length (filter (\<lambda>e. retry_attempt e = Some 0)
     (fst (retry_loop (plain_session 1) (test_env failing_agent) earlier_history
             (InputText ''q'') earlier_history 0 history_vars))) = 1" by blast
  from h2 retry_before_content_only[where k=0 and S="plain_session 1"
      and env="test_env throwing_agent" and eff=earlier_history and inp="InputText ''q''"
      and pre="[]" and th="ThrownError overloaded_error"
      and snap=earlier_history and tv=history_vars]
  have c2: "length (filter (\<lambda>e. retry_attempt e = Some 0)
     (fst (retry_loop (plain_session 1) (test_env throwing_agent) earlier_history
             (InputText ''q'') earlier_history 0 history_vars))) = 1" by blast
  from h1 retry_before_content_only[where k="Suc 0" and S="plain_session 3"
      and env="test_env flaky_agent" and eff=earlier_history and inp="InputText ''q''"
      and pre="[Step_start 1]" and c="Text_delta ''hi''"
      and rest="[Error_event overloaded_error,
        Done Error_result (earlier_history @ [\<lparr>role = User, content = CText ''q''\<rparr>])
          undefined_usage]"
      and flt=None and snap=earlier_history and tv=history_vars]
  have c1: "\<not> list_ex is_retry
     (fst (retry_loop (plain_session 3) (test_env flaky_agent) earlier_history
             (InputText ''q'') earlier_history (Suc 0) history_vars))" by blast
  have sd: "fst (send (plain_session 1) (test_env failing_agent) history_state (InputText ''q'')) =
     [Turn_start 1, AgentEv (Step_start 1), Retry 0 1 1000 overloaded_error,
      AgentEv (Step_start 1), AgentEv (Error_event overloaded_error),
      Turn_done 1 undefined_usage]"
    by (simp add: history_send failing_loop Let_def restore_def history_vars_def)
  have rs: "session_messages (tv_state turn_start_vars) = [] \<and>
    session_messages
     (tv_state (fst (snd (retry_loop (plain_session 1) (test_env failing_agent) earlier_history
        (InputText ''q'') earlier_history 0 turn_start_vars)))) =
     [\<lparr>role = User, content = CText ''earlier question''\<rparr>,
      \<lparr>role = Assistant, content = CText ''earlier answer''\<rparr>]"
    by (simp add: failing_loop restore_def turn_start_vars_def new_session_state_def
        earlier_history_def)
  from p h0 h1 h2 c0 c1 c2 sd ms rs show ?thesis by blast
qed

lemma retryable_timeout: "retryable (plain_session mr) timeout_error"
  by (simp add: retryable_def plain_session_def DEFAULT_RETRY_def isRetryableError_def
      timeout_error_def lower_char_def)

lemma aborted_history_loop:
  "retry_loop (plain_session 3) abort_env earlier_history (InputText ''q'') earlier_history 0
     history_vars =
     ([AgentEv (Step_start 1), Retry 0 3 1000 overloaded_error], history_vars,
      Some (ThrownError abort_error))"
proof -
  have b: "attempt_body (plain_session 3) abort_env earlier_history (InputText ''q'')
      earlier_history 0 history_vars =
    ([AgentEv (Step_start 1), Retry 0 3 1000 overloaded_error], history_vars,
     Throw (ThrownError abort_error))"
    by (simp add: plain_session_fields abort_env_def attempt_body_def flaky_agent_def
      retryable_overloaded abort_not_retryable Let_def yield_def restore_def
      history_vars_def history_state_def new_session_state_def fixed_delay_def
      aborted_sleep_def)
  show ?thesis
    by (subst retry_loop.simps) (simp add: plain_session_fields b Let_def)
qed

lemma timeout_history_loop:
  "retry_loop (plain_session 3) timeout_env earlier_history (InputText ''q'') earlier_history 0
     history_vars =
     ([AgentEv (Step_start 1), Retry 0 3 1000 overloaded_error, Retry 0 3 1000 timeout_error],
      history_vars, Some (ThrownError timeout_error))"
proof -
  have b: "attempt_body (plain_session 3) timeout_env earlier_history (InputText ''q'')
      earlier_history 0 history_vars =
    ([AgentEv (Step_start 1), Retry 0 3 1000 overloaded_error, Retry 0 3 1000 timeout_error],
     history_vars, Throw (ThrownError timeout_error))"
    by (simp add: plain_session_fields timeout_env_def attempt_body_def flaky_agent_def
      retryable_overloaded retryable_timeout Let_def yield_def restore_def
      history_vars_def history_state_def new_session_state_def fixed_delay_def
      timeout_sleep_def)
  show ?thesis
    by (subst retry_loop.simps) (simp add: plain_session_fields b Let_def)
qed

lemma hooked_send:
  "send hooked_session (test_env flaky_agent) history_state (InputText ''q'') =
     ([Turn_start 1, AgentEv (Step_start 1)], history_state\<lparr>turns := 1\<rparr>,
      Some (ThrownError hook_error))"
proof -
  have f: "maxRetries (retryConfig hooked_session) = 3"
    "retryable hooked_session overloaded_error"
    "\<not> retryable hooked_session hook_error"
    "call_onError hooked_session overloaded_error 0 = Some (ThrownError hook_error)"
    "autoCompact hooked_session = False"
    "onBeforeSend (hooks hooked_session) = None"
    by (simp_all add: hooked_session_def plain_session_def DEFAULT_RETRY_def retryable_def
        isRetryableError_def overloaded_error_def hook_error_def lower_char_def
        call_onError_def no_hooks_def throwing_hook_def)
  have b: "attempt_body hooked_session (test_env flaky_agent) earlier_history (InputText ''q'')
      earlier_history 0 history_vars =
    ([AgentEv (Step_start 1)], history_vars, Throw (ThrownError hook_error))"
    by (simp add: f test_env_fields attempt_body_def flaky_agent_def Let_def yield_def
        history_vars_def)
  have r: "retry_loop hooked_session (test_env flaky_agent) earlier_history (InputText ''q'')
      earlier_history 0 history_vars =
    ([AgentEv (Step_start 1)], history_vars, Some (ThrownError hook_error))"
    by (subst retry_loop.simps) (simp add: f b Let_def)
  have q: "onAfterResponse (hooks hooked_session) = None"
    "sessionStore_save hooked_session = None"
    by (simp_all add: hooked_session_def plain_session_def no_hooks_def)
  show ?thesis
    by (simp add: quiet_send[OF f(5) f(6) q] r Let_def) (simp add: history_vars_def)
qed

text \<open>
  The claim C2 as stated fails here. The session has three retries and a history, and
  the first attempt reports a retryable error before any content. When the signal is
  aborted during the backoff sleep with a reason that is not retryable, \<open>send\<close> yields
  the retry event and then the abort reason leaves \<open>send\<close>: no new attempt begins. With
  the reason of a timeout signal, whose message the retryable predicate accepts, the
  \<open>catch\<close> block yields a second retry event carrying attempt 0 before the reason leaves
  \<open>send\<close>. And when the \<open>onError\<close> hook throws, \<open>send\<close> yields no retry event and the
  hook's fault leaves \<open>send\<close>.
\<close>

theorem retry_aborted_backoff_counterexample:
  "agent_run abort_env 0 earlier_history (InputText ''q'') =
     ([Step_start 1, Error_event overloaded_error], None) \<and>
   agent_run timeout_env 0 earlier_history (InputText ''q'') =
     ([Step_start 1, Error_event overloaded_error], None) \<and>
   retryable (plain_session 3) overloaded_error \<and>
   int 0 < maxRetries (retryConfig (plain_session 3)) \<and>
   send (plain_session 3) abort_env history_state (InputText ''q'') =
     ([Turn_start 1, AgentEv (Step_start 1), Retry 0 3 1000 overloaded_error],
      history_state\<lparr>turns := 1\<rparr>, Some (ThrownError abort_error)) \<and>
   send (plain_session 3) timeout_env history_state (InputText ''q'') =
     ([Turn_start 1, AgentEv (Step_start 1), Retry 0 3 1000 overloaded_error,
       Retry 0 3 1000 timeout_error],
      history_state\<lparr>turns := 1\<rparr>, Some (ThrownError timeout_error)) \<and>
   agent_run (test_env flaky_agent) 0 earlier_history (InputText ''q'') =
     ([Step_start 1, Error_event overloaded_error], None) \<and>
   retryable hooked_session overloaded_error \<and>
   int 0 < maxRetries (retryConfig hooked_session) \<and>
   send hooked_session (test_env flaky_agent) history_state (InputText ''q'') =
     ([Turn_start 1, AgentEv (Step_start 1)], history_state\<lparr>turns := 1\<rparr>,
      Some (ThrownError hook_error))"
proof -
  have hk: "agent_run (test_env flaky_agent) 0 earlier_history (InputText ''q'') =
      ([Step_start 1, Error_event overloaded_error], None) \<and>
    retryable hooked_session overloaded_error \<and>
    int 0 < maxRetries (retryConfig hooked_session)"
    by (simp add: test_env_fields flaky_agent_def hooked_session_def plain_session_def
        DEFAULT_RETRY_def retryable_def isRetryableError_def overloaded_error_def
        lower_char_def)
  have a: "agent_run abort_env 0 earlier_history (InputText ''q'') =
      ([Step_start 1, Error_event overloaded_error], None)"
    and t: "agent_run timeout_env 0 earlier_history (InputText ''q'') =
      ([Step_start 1, Error_event overloaded_error], None)"
    by (simp_all add: abort_env_def timeout_env_def flaky_agent_def)
  have k: "int 0 < maxRetries (retryConfig (plain_session 3))"
    by (simp add: plain_session_fields)
  have sa: "send (plain_session 3) abort_env history_state (InputText ''q'') =
     ([Turn_start 1, AgentEv (Step_start 1), Retry 0 3 1000 overloaded_error],
      history_state\<lparr>turns := 1\<rparr>, Some (ThrownError abort_error))"
    by (simp add: history_send aborted_history_loop Let_def) (simp add: history_vars_def)
  have st: "send (plain_session 3) timeout_env history_state (InputText ''q'') =
     ([Turn_start 1, AgentEv (Step_start 1), Retry 0 3 1000 overloaded_error,
       Retry 0 3 1000 timeout_error],
      history_state\<lparr>turns := 1\<rparr>, Some (ThrownError timeout_error))"
    by (simp add: history_send timeout_history_loop Let_def) (simp add: history_vars_def)
  from a t k sa st retryable_overloaded[of 3] hk hooked_send show ?thesis by blast
qed

text \<open>
  The claim C6 as amended, at the same session (the error after the text is passed on
  with its done event) and at a session with no retries whose agent throws.
\<close>

theorem unretried_error_reaches_caller_witness:
  "int (Suc 0) \<le> maxRetries (retryConfig (plain_session 3)) \<and>
   agent_run (test_env flaky_agent) (Suc 0) [] (InputText ''q'') =
     ([Step_start 1, Text_delta ''hi''] @ Error_event overloaded_error #
      Done Error_result [\<lparr>role = User, content = CText ''q''\<rparr>] undefined_usage # [], None) \<and>
   plain [Step_start 1, Text_delta ''hi''] \<and>
   list_ex is_content [Step_start 1, Text_delta ''hi''] \<and>
   fst (retry_loop (plain_session 3) (test_env flaky_agent) [] (InputText ''q'') [] (Suc 0)
          turn_start_vars) =
     [AgentEv (Step_start 1), AgentEv (Text_delta ''hi''),
      AgentEv (Error_event overloaded_error),
      AgentEv (Done Error_result [\<lparr>role = User, content = CText ''q''\<rparr>] undefined_usage)] \<and>
   snd (snd (retry_loop (plain_session 3) (test_env flaky_agent) [] (InputText ''q'') [] (Suc 0)
          turn_start_vars)) = None \<and>
   int 0 \<le> maxRetries (retryConfig (plain_session 0)) \<and>
   agent_run (test_env throwing_agent) 0 [] (InputText ''q'') =
     ([], Some (ThrownError overloaded_error)) \<and>
   plain [] \<and> maxRetries (retryConfig (plain_session 0)) \<le> int 0 \<and>
   fst (retry_loop (plain_session 0) (test_env throwing_agent) [] (InputText ''q'') [] 0
          turn_start_vars) = [] \<and>
   snd (snd (retry_loop (plain_session 0) (test_env throwing_agent) [] (InputText ''q'') [] 0
          turn_start_vars)) = Some (ThrownError overloaded_error)"
proof -
  have h1: "int (Suc 0) \<le> maxRetries (retryConfig (plain_session 3)) \<and>
    agent_run (test_env flaky_agent) (Suc 0) [] (InputText ''q'') =
     ([Step_start 1, Text_delta ''hi''] @ Error_event overloaded_error #
      Done Error_result [\<lparr>role = User, content = CText ''q''\<rparr>] undefined_usage # [], None) \<and>
    plain [Step_start 1, Text_delta ''hi''] \<and>
    list_ex is_content [Step_start 1, Text_delta ''hi'']"
    by (simp add: plain_session_fields test_env_fields flaky_agent_def plain_def
        input_messages_def)
  have h2: "int 0 \<le> maxRetries (retryConfig (plain_session 0)) \<and>
    agent_run (test_env throwing_agent) 0 [] (InputText ''q'') =
      ([], Some (ThrownError overloaded_error)) \<and>
    plain [] \<and> maxRetries (retryConfig (plain_session 0)) \<le> int 0"
    by (simp add: plain_session_fields test_env_fields throwing_agent_def plain_def)
  from h1 unretried_error_reaches_caller[where k="Suc 0" and S="plain_session 3"
      and env="test_env flaky_agent" and eff="[]" and inp="InputText ''q''"
      and pre="[Step_start 1, Text_delta ''hi'']" and err=overloaded_error
      and ms="[\<lparr>role = User, content = CText ''q''\<rparr>]" and u=undefined_usage
      and rest="[]" and flt=None and snap="[]" and tv=turn_start_vars]
  obtain tv1 where "retry_loop (plain_session 3) (test_env flaky_agent) [] (InputText ''q'') []
      (Suc 0) turn_start_vars =
     (map AgentEv [Step_start 1, Text_delta ''hi''] @
        [AgentEv (Error_event overloaded_error),
         AgentEv (Done Error_result [\<lparr>role = User, content = CText ''q''\<rparr>] undefined_usage)],
      tv1, None)" by blast
  then have c1: "fst (retry_loop (plain_session 3) (test_env flaky_agent) [] (InputText ''q'') []
          (Suc 0) turn_start_vars) =
     [AgentEv (Step_start 1), AgentEv (Text_delta ''hi''),
      AgentEv (Error_event overloaded_error),
      AgentEv (Done Error_result [\<lparr>role = User, content = CText ''q''\<rparr>] undefined_usage)] \<and>
     snd (snd (retry_loop (plain_session 3) (test_env flaky_agent) [] (InputText ''q'') []
          (Suc 0) turn_start_vars)) = None" by simp
  from h2 unretried_error_reaches_caller[where k=0 and S="plain_session 0"
      and env="test_env throwing_agent" and eff="[]" and inp="InputText ''q''"
      and pre="[]" and th="ThrownError overloaded_error" and snap="[]" and tv=turn_start_vars]
  obtain tv2 where "retry_loop (plain_session 0) (test_env throwing_agent) [] (InputText ''q'') []
      0 turn_start_vars = (map AgentEv [], tv2, Some (ThrownError overloaded_error))" by blast
  then have c2: "fst (retry_loop (plain_session 0) (test_env throwing_agent) [] (InputText ''q'') []
          0 turn_start_vars) = [] \<and>
     snd (snd (retry_loop (plain_session 0) (test_env throwing_agent) [] (InputText ''q'') [] 0
          turn_start_vars)) = Some (ThrownError overloaded_error)" by simp
  from h1 h2 c1 c2 show ?thesis by blast
qed

lemma aborted_loop:
  "retry_loop (plain_session 3) abort_env [] (InputText ''q'') [] 0 turn_start_vars =
     ([AgentEv (Step_start 1), Retry 0 3 1000 overloaded_error], turn_start_vars,
      Some (ThrownError abort_error))"
proof -
  have b: "attempt_body (plain_session 3) abort_env [] (InputText ''q'') [] 0 turn_start_vars =
    ([AgentEv (Step_start 1), Retry 0 3 1000 overloaded_error], turn_start_vars,
     Throw (ThrownError abort_error))"
    by (simp add: plain_session_fields abort_env_def attempt_body_def flaky_agent_def
      retryable_overloaded abort_not_retryable Let_def yield_def restore_def
      turn_start_vars_def new_session_state_def fixed_delay_def aborted_sleep_def)
  show ?thesis
    by (subst retry_loop.simps) (simp add: plain_session_fields b Let_def)
qed

text \<open>
  The claim C6 as stated fails here, twice. First, the session has one retry and the
  agent's iteration throws a retryable fault in every attempt: \<open>send\<close> yields turn.start
  and one retry event, and then the fault of the second attempt leaves \<open>send\<close>. Second,
  the session has three retries, the first attempt reports a retryable error before any
  content and the signal is aborted during the backoff sleep: \<open>send\<close> yields turn.start,
  step.start and the retry event, and then the abort reason leaves \<open>send\<close>. In both
  there is no error event and no done event.
\<close>

theorem send_rethrows_counterexample:
  "send (plain_session 1) (test_env throwing_agent) new_session_state (InputText ''q'') =
     ([Turn_start 1, Retry 0 1 1000 overloaded_error], tv_state turn_start_vars,
      Some (ThrownError overloaded_error)) \<and>
   send (plain_session 3) abort_env new_session_state (InputText ''q'') =
     ([Turn_start 1, AgentEv (Step_start 1), Retry 0 3 1000 overloaded_error],
      tv_state turn_start_vars, Some (ThrownError abort_error))"
  by (simp add: plain_send throwing_loop aborted_loop Let_def)

end
